(* ===== verification/Prelude.thy ===== *)
theory Prelude
  imports Complex_Main "HOL-Library.Sublist"
begin

text \<open>
  Shared ground of the development: Python exceptions and results, the clock, the text
  operations of Python's \<open>str\<close> that the gateway uses, and the generic lemmas on lists
  and maps that several components need.

  A Python \<open>str\<close> is a \<open>string\<close>: one \<open>char\<close> per code point, so the model speaks about
  texts whose code points are below 256. \<open>strip\<close> and \<open>lower\<close> follow CPython on that range.
\<close>

section \<open>Exceptions, results, time\<close>

text \<open>
  An exception is its class name (\<open>type(exc).__name__\<close>) and its text (\<open>str(exc)\<close>). A call
  that may raise returns \<open>Inl\<close> the exception or \<open>Inr\<close> the value.
\<close>

datatype pyexc = PyExc (exc_class: string) (exc_text: string)

type_synonym 'a res = "pyexc + 'a"

text \<open>
  Readings of \<open>time.time()\<close> and \<open>time.monotonic()\<close> in seconds; a difference of two readings
  is exact.
\<close>

type_synonym clock = rat

definition raised :: "'a res \<Rightarrow> bool" where
  "raised r \<longleftrightarrow> (case r of Inl _ \<Rightarrow> True | Inr _ \<Rightarrow> False)"

lemma raised_simps [simp]: "raised (Inl x)" "\<not> raised (Inr y)"
  by (simp_all add: raised_def)

section \<open>Lists and maps\<close>

lemma filter_neq_id: "x \<notin> f ` set xs \<Longrightarrow> filter (\<lambda>y. f y \<noteq> x) xs = xs"
  by (induction xs) auto

lemma sorted_wrt_less_filter:
  "sorted_wrt (<) (map f xs) \<Longrightarrow> sorted_wrt (<) (map f (filter P xs))"
  for f :: "'a \<Rightarrow> 'b :: linorder"
  by (induction xs) auto

lemma sorted_wrt_less_distinct:
  "sorted_wrt (<) (map f xs) \<Longrightarrow> distinct (map f xs)"
  for f :: "'a \<Rightarrow> 'b :: linorder"
  by (induction xs) (auto simp: image_iff)

lemma sort_key_sorted_id:
  "sorted_wrt (<) (map f xs) \<Longrightarrow> sort_key f xs = xs"
  for f :: "'a \<Rightarrow> 'b :: linorder"
  by (metis sort_key_id_if_sorted sorted_wrt_mono_rel less_imp_le)

lemma length_filter_id_le1:
  "distinct (map f xs) \<Longrightarrow> length (filter (\<lambda>y. f y = k) xs) \<le> 1"
proof (induction xs)
  case (Cons x xs)
  show ?case
  proof (cases "f x = k")
    case True
    with Cons.prems have "filter (\<lambda>y. f y = k) xs = []"
      by (auto simp: filter_empty_conv) (metis imageI)
    then show ?thesis by simp
  next
    case False
    with Cons show ?thesis by simp
  qed
qed simp

lemma filter_by_key:
  assumes "distinct (map f xs)" "x \<in> set xs"
  shows "filter (\<lambda>y. f y = f x) xs = [x]"
  using assms
proof (induction xs)
  case (Cons a xs)
  show ?case
  proof (cases "x \<in> set xs")
    case True
    with Cons have "f a \<noteq> f x" by (metis distinct.simps(2) image_eqI image_set list.simps(9))
    with True Cons show ?thesis by simp
  next
    case False
    with Cons.prems have [simp]: "x = a" by simp
    have "\<forall>y \<in> set xs. f y \<noteq> f a" using Cons.prems(1) by (auto simp: image_iff)
    then show ?thesis by simp
  qed
qed simp

lemma find_filter: "find P xs = (case filter P xs of [] \<Rightarrow> None | x # _ \<Rightarrow> Some x)"
  by (induction xs) auto

lemma find_SomeD: "find P xs = Some x \<Longrightarrow> x \<in> set xs \<and> P x"
  by (auto simp: find_Some_iff)

lemma find_app: "find P (xs @ ys) = (case find P xs of None \<Rightarrow> find P ys | Some x \<Rightarrow> Some x)"
  by (induction xs) auto

lemma find_map: "find P (map f xs) = map_option f (find (P \<circ> f) xs)"
  by (induction xs) auto

lemma find_by_key_Some:
  "distinct (map f xs) \<Longrightarrow> x \<in> set xs \<Longrightarrow> find (\<lambda>y. f y = f x) xs = Some x"
  by (induction xs) (auto simp: image_iff)

lemma find_filter_subset:
  assumes "distinct (map f xs)"
  shows "set_option (find (\<lambda>r. f r = j) (filter P xs)) \<subseteq> set_option (find (\<lambda>r. f r = j) xs)"
proof
  fix x
  assume "x \<in> set_option (find (\<lambda>r. f r = j) (filter P xs))"
  then have "find (\<lambda>r. f r = j) (filter P xs) = Some x" by simp
  then have "x \<in> set xs" "f x = j" by (auto dest: find_SomeD)
  with assms show "x \<in> set_option (find (\<lambda>r. f r = j) xs)"
    using find_by_key_Some [of f xs x] by simp
qed

section \<open>Text\<close>

definition py_ws :: "char \<Rightarrow> bool" where
  \<comment> \<open>\<open>str.isspace\<close> for one character below U+0100\<close>
  "py_ws c = (let n = (of_char c :: nat)
              in (9 \<le> n \<and> n \<le> 13) \<or> (28 \<le> n \<and> n \<le> 32) \<or> n = 133 \<or> n = 160)"

definition py_lower_char :: "char \<Rightarrow> char" where
  "py_lower_char c = (let n = (of_char c :: nat)
     in if (65 \<le> n \<and> n \<le> 90) \<or> (192 \<le> n \<and> n \<le> 222 \<and> n \<noteq> 215) then char_of (n + 32) else c)"

definition py_lower :: "string \<Rightarrow> string" where
  "py_lower s = map py_lower_char s"

definition py_lstrip :: "string \<Rightarrow> string" where
  "py_lstrip s = dropWhile py_ws s"

definition py_rstrip_by :: "(char \<Rightarrow> bool) \<Rightarrow> string \<Rightarrow> string" where
  "py_rstrip_by P s = rev (dropWhile P (rev s))"

definition py_strip :: "string \<Rightarrow> string" where
  "py_strip s = py_rstrip_by py_ws (py_lstrip s)"

fun py_in :: "string \<Rightarrow> string \<Rightarrow> bool" where
  \<comment> \<open>\<open>pat in text\<close>\<close>
  "py_in p [] = (p = [])"
| "py_in p (c # cs) = (prefix p (c # cs) \<or> py_in p cs)"

lemma py_in_sublist: "py_in p s \<longleftrightarrow> sublist p s"
  by (induction s) (auto simp: sublist_Cons_right)

text \<open>\<open>text.replace(old, new)\<close>: leftmost occurrences, left to right, never overlapping.\<close>

function replace_ne :: "string \<Rightarrow> string \<Rightarrow> string \<Rightarrow> string" where
  "replace_ne old new [] = []"
| "replace_ne old new (c # cs) =
     (if old \<noteq> [] \<and> prefix old (c # cs) then new @ replace_ne old new (drop (length old) (c # cs))
      else c # replace_ne old new cs)"
  by pat_completeness auto
termination
  by (relation "measure (\<lambda>(old, new, s). length s)") auto

definition py_replace :: "string \<Rightarrow> string \<Rightarrow> string \<Rightarrow> string" where
  "py_replace old new s =
     (if old = [] then new @ concat (map (\<lambda>c. c # new) s) else replace_ne old new s)"

text \<open>Decimal rendering of integers (\<open>str(n)\<close>).\<close>

definition digit_char :: "nat \<Rightarrow> char" where
  "digit_char d = char_of (48 + d)"

fun nat_str :: "nat \<Rightarrow> string" where
  "nat_str n = (if n < 10 then [digit_char n] else nat_str (n div 10) @ [digit_char (n mod 10)])"

declare nat_str.simps [simp del]

definition int_str :: "int \<Rightarrow> string" where
  "int_str i = (if i < 0 then CHR ''-'' # nat_str (nat (- i)) else nat_str (nat i))"

definition is_digit_char :: "char \<Rightarrow> bool" where
  "is_digit_char c = (let n = (of_char c :: nat) in 48 \<le> n \<and> n \<le> 57)"

definition digit_val :: "char \<Rightarrow> int" where
  "digit_val c = int (of_char c - 48)"

text \<open>
  \<open>int(text)\<close>: blanks around, one sign, decimal digits with single underscores between them.
\<close>

fun int_digits :: "int \<Rightarrow> bool \<Rightarrow> string \<Rightarrow> int option" where
  "int_digits acc ok [] = (if ok then Some acc else None)"
| "int_digits acc ok (c # cs) =
     (if is_digit_char c then int_digits (10 * acc + digit_val c) True cs
      else if c = CHR ''_'' \<and> ok then int_digits acc False cs
      else None)"

definition parse_int :: "string \<Rightarrow> int option" where
  "parse_int s = (case py_strip s of
       [] \<Rightarrow> None
     | c # cs \<Rightarrow>
         if c = CHR ''-'' then map_option uminus (int_digits 0 False cs)
         else if c = CHR ''+'' then int_digits 0 False cs
         else int_digits 0 False (c # cs))"

lemma digit_char_digit: "d < 10 \<Longrightarrow> is_digit_char (digit_char d)"
  by (simp add: is_digit_char_def digit_char_def)

lemma digit_val_char: "d < 10 \<Longrightarrow> digit_val (digit_char d) = int d"
  by (simp add: digit_val_def digit_char_def)

lemma int_digits_append:
  "\<forall>c\<in>set xs. is_digit_char c \<Longrightarrow> xs \<noteq> [] \<or> ok \<Longrightarrow>
   int_digits acc ok (xs @ [d]) =
     (case int_digits acc ok xs of None \<Rightarrow> None | Some v \<Rightarrow> int_digits v True [d])"
  by (induction acc ok xs rule: int_digits.induct) auto

lemma nat_str_digits: "\<forall>c\<in>set (nat_str n). is_digit_char c"
proof (induction n rule: nat_str.induct)
  case (1 n)
  then show ?case
    by (subst nat_str.simps) (auto simp: digit_char_digit)
qed

lemma nat_str_nonempty: "nat_str n \<noteq> []"
  by (subst nat_str.simps) simp

lemma int_digits_nat_str: "int_digits 0 False (nat_str n) = Some (int n)"
proof (induction n rule: nat_str.induct)
  case (1 n)
  show ?case
  proof (cases "n < 10")
    case True
    then show ?thesis
      by (subst nat_str.simps) (simp add: digit_char_digit digit_val_char)
  next
    case False
    with "1" have IH: "int_digits 0 False (nat_str (n div 10)) = Some (int (n div 10))"
      by simp
    have "int_digits 0 False (nat_str n) =
        int_digits (int (n div 10)) True [digit_char (n mod 10)]"
      using False IH nat_str_digits nat_str_nonempty
      by (subst nat_str.simps) (simp add: int_digits_append del: int_digits.simps)
    also have "\<dots> = Some (10 * int (n div 10) + int (n mod 10))"
      by (simp add: digit_char_digit digit_val_char)
    also have "\<dots> = Some (int n)"
      by (simp add: zdiv_int zmod_int)
    finally show ?thesis .
  qed
qed

end
