(* ===== verification/Py_Values.thy ===== *)
theory Py_Values
  imports Prelude
begin

text \<open>
  Python's \<open>float\<close> (IEEE 754 double) and the values \<open>json.loads\<close> produces, with the
  conversions the gateway applies to them: truth value, \<open>int(v)\<close>, \<open>float(v)\<close>, \<open>str(v)\<close>,
  \<open>v == ""\<close>, \<open>round(v, n)\<close>. A finite double is the rational it denotes (both zeros are \<open>0\<close>);
  every arithmetic result is rounded to nearest, ties to even, with 53 significant bits.
\<close>

section \<open>Doubles\<close>

datatype pyfloat = Fin rat | PosInf | NegInf | NaN

fun flog2 :: "nat \<Rightarrow> nat" where
  "flog2 n = (if n < 2 then 0 else Suc (flog2 (n div 2)))"

declare flog2.simps [simp del]

definition ilog2 :: "rat \<Rightarrow> int" where
  \<comment> \<open>exponent of the leading binary digit of a positive rational\<close>
  "ilog2 q = (let (n, d) = quotient_of q; e = int (flog2 (nat n)) - int (flog2 (nat d))
              in if q < 2 powi e then e - 1 else e)"

definition round_half_even :: "rat \<Rightarrow> int" where
  "round_half_even q = (let f = \<lfloor>q\<rfloor>; r = q - of_int f
     in if r < 1 / 2 then f else if r > 1 / 2 then f + 1 else if even f then f else f + 1)"

definition rnd :: "rat \<Rightarrow> pyfloat" where
  "rnd q = (if q = 0 then Fin 0
     else let e = max (ilog2 \<bar>q\<bar> - 52) (- 1074);
              r = of_int (round_half_even (q / 2 powi e)) * 2 powi e
          in if r \<ge> 2 ^ 1024 then PosInf else if r \<le> - (2 ^ 1024) then NegInf else Fin r)"

fun is_finite :: "pyfloat \<Rightarrow> bool" where
  "is_finite (Fin q) = True"
| "is_finite _ = False"

text \<open>\<open>a == b\<close>: a NaN equals nothing, itself included.\<close>

definition feq :: "pyfloat \<Rightarrow> pyfloat \<Rightarrow> bool" where
  "feq a b \<longleftrightarrow> a \<noteq> NaN \<and> a = b"

fun flt :: "pyfloat \<Rightarrow> pyfloat \<Rightarrow> bool" where
  "flt NaN b = False"
| "flt a NaN = False"
| "flt (Fin p) (Fin q) = (p < q)"
| "flt (Fin p) PosInf = True"
| "flt (Fin p) NegInf = False"
| "flt NegInf b = (b \<noteq> NegInf)"
| "flt PosInf b = False"

fun fneg :: "pyfloat \<Rightarrow> pyfloat" where
  "fneg (Fin q) = Fin (- q)"
| "fneg PosInf = NegInf"
| "fneg NegInf = PosInf"
| "fneg NaN = NaN"

fun fadd :: "pyfloat \<Rightarrow> pyfloat \<Rightarrow> pyfloat" where
  "fadd NaN b = NaN"
| "fadd a NaN = NaN"
| "fadd (Fin p) (Fin q) = rnd (p + q)"
| "fadd (Fin p) b = b"
| "fadd a (Fin q) = a"
| "fadd PosInf NegInf = NaN"
| "fadd NegInf PosInf = NaN"
| "fadd PosInf PosInf = PosInf"
| "fadd NegInf NegInf = NegInf"

definition fsign :: "pyfloat \<Rightarrow> int" where
  "fsign a = (case a of Fin q \<Rightarrow> (if q = 0 then 0 else if q < 0 then - 1 else 1)
     | PosInf \<Rightarrow> 1 | NegInf \<Rightarrow> - 1 | NaN \<Rightarrow> 0)"

fun fmul :: "pyfloat \<Rightarrow> pyfloat \<Rightarrow> pyfloat" where
  "fmul NaN b = NaN"
| "fmul a NaN = NaN"
| "fmul (Fin p) (Fin q) = rnd (p * q)"
| "fmul a b = (let s = fsign a * fsign b
     in if s = 0 then NaN else if s > 0 then PosInf else NegInf)"

text \<open>\<open>round(x, n)\<close>: infinities and NaN come back unchanged.\<close>

fun py_round :: "pyfloat \<Rightarrow> nat \<Rightarrow> pyfloat" where
  "py_round (Fin q) n = rnd (of_int (round_half_even (q * 10 ^ n)) / 10 ^ n)"
| "py_round f n = f"

lemma feq_refl: "feq a a \<longleftrightarrow> a \<noteq> NaN"
  by (simp add: feq_def)

lemma feq_eq: "feq a b \<Longrightarrow> a = b"
  by (simp add: feq_def)

lemma round_half_even_int [simp]: "round_half_even (of_int i) = i"
  by (simp add: round_half_even_def)

lemma flog2_bounds: "0 < n \<Longrightarrow> 2 ^ flog2 n \<le> n \<and> n < 2 ^ Suc (flog2 n)"
proof (induction n rule: flog2.induct)
  case (1 n)
  show ?case
  proof (cases "n < 2")
    case True
    with "1.prems" show ?thesis by (subst (1 2) flog2.simps) simp
  next
    case False
    then have "0 < n div 2" by simp
    with "1.IH" False have *: "2 ^ flog2 (n div 2) \<le> n div 2 \<and> n div 2 < 2 ^ Suc (flog2 (n div 2))"
      by blast
    have "flog2 n = Suc (flog2 (n div 2))"
      using False by (subst flog2.simps) simp
    then have "(2::nat) ^ flog2 n = 2 * 2 ^ flog2 (n div 2)" by simp
    with * show ?thesis by auto
  qed
qed

lemma ilog2_int:
  assumes "0 < i"
  shows "ilog2 (of_int i) = int (flog2 (nat i))"
proof -
  have "(2::int) ^ flog2 (nat i) \<le> i"
    using flog2_bounds [of "nat i"] assms
    by (metis int_nat_eq less_imp_le nat_le_iff of_nat_le_iff of_nat_numeral of_nat_power zero_less_nat_eq)
  then have "(2::rat) ^ flog2 (nat i) \<le> of_int i"
    by (metis of_int_le_iff of_int_numeral of_int_power)
  moreover have "flog2 1 = 0" by (subst flog2.simps) simp
  ultimately show ?thesis
    by (simp add: ilog2_def quotient_of_int)
qed

text \<open>Integers of at most 53 bits are doubles: rounding and \<open>round(\<cdot>, n)\<close> keep them.\<close>

lemma int_scaled_down:
  assumes "e \<le> (0::int)"
  shows "round_half_even (of_int i / 2 powi e) = i * 2 ^ nat (- e)"
proof -
  have "(2::rat) powi e = inverse (2 ^ nat (- e))"
    using assms by (simp add: power_int_def power_one_over inverse_eq_divide)
  then have "of_int i / (2::rat) powi e = of_int (i * 2 ^ nat (- e))"
    by (simp add: field_simps)
  then show ?thesis by (simp only: round_half_even_int)
qed

lemma rnd_int:
  assumes "\<bar>i\<bar> \<le> 2 ^ 53"
  shows "rnd (of_int i) = Fin (of_int i)"
proof (cases "i = 0")
  case True
  then show ?thesis by (simp add: rnd_def)
next
  case False
  define k where "k = flog2 (nat \<bar>i\<bar>)"
  define e where "e = max (int k - 52) (- 1074)"
  have il: "ilog2 \<bar>of_int i\<bar> = int k"
    using ilog2_int [of "\<bar>i\<bar>"] False by (simp add: k_def)
  have k2: "2 ^ k \<le> nat \<bar>i\<bar>"
    using flog2_bounds [of "nat \<bar>i\<bar>"] False by (simp add: k_def)
  have "nat \<bar>i\<bar> \<le> 2 ^ 53"
    using assms by (simp add: nat_le_iff)
  with k2 have "(2::nat) ^ k \<le> 2 ^ 53" by linarith
  then have k53: "k \<le> 53" by (simp only: power_increasing_iff)
  have r: "of_int (round_half_even (of_int i / 2 powi e)) * (2::rat) powi e = of_int i"
  proof (cases "k = 53")
    case True
    with k2 \<open>nat \<bar>i\<bar> \<le> 2 ^ 53\<close> have "\<bar>i\<bar> = 2 ^ 53"
      by (metis abs_ge_zero antisym_conv int_nat_eq of_nat_numeral of_nat_power)
    then have "\<exists>j. i = 2 * j"
      by (cases "i < 0") (auto intro: exI [of _ "2 ^ 52"] exI [of _ "- (2 ^ 52)"])
    then obtain j where j: "i = 2 * j" by blast
    have "e = 1" using True by (simp add: e_def)
    with j show ?thesis by simp
  next
    case False
    with k53 have "e \<le> 0" by (simp add: e_def)
    then have "round_half_even (of_int i / 2 powi e) = i * 2 ^ nat (- e)"
      by (rule int_scaled_down)
    moreover have "(2::rat) ^ nat (- e) * 2 powi e = 1"
      using \<open>e \<le> 0\<close> by (simp add: power_int_def power_one_over)
    ultimately show ?thesis by (simp add: mult.assoc)
  qed
  have "\<bar>of_int i\<bar> < (2::rat) ^ 1024"
  proof -
    have "\<bar>i\<bar> < 2 ^ 1024"
      using assms by (rule le_less_trans) simp
    then have "of_int \<bar>i\<bar> < (of_int (2 ^ 1024) :: rat)" by (simp only: of_int_less_iff)
    then show ?thesis by simp
  qed
  then have lim: "\<not> of_int i \<ge> (2::rat) ^ 1024" "\<not> of_int i \<le> - ((2::rat) ^ 1024)"
    by (simp_all only: abs_less_iff not_le minus_less_iff [of "of_int i"])
  show ?thesis
    unfolding rnd_def Let_def il e_def [symmetric] r
    using False lim by (simp only: if_False of_int_eq_0_iff)
qed

lemma rnd_0 [simp]: "rnd 0 = Fin 0"
  by (simp add: rnd_def)

lemma py_round_int:
  assumes "\<bar>i\<bar> \<le> 2 ^ 53"
  shows "py_round (Fin (of_int i)) n = Fin (of_int i)"
proof -
  have "of_int i * (10::rat) ^ n = of_int (i * 10 ^ n)" by simp
  then have "round_half_even (of_int i * 10 ^ n) = i * 10 ^ n"
    by (simp only: round_half_even_int)
  then show ?thesis using rnd_int [OF assms] by simp
qed

section \<open>Decimal text to double\<close>

text \<open>
  \<open>float(text)\<close> after \<open>strip\<close>: \<open>inf\<close>, \<open>infinity\<close> and \<open>nan\<close> in any case, or a decimal literal;
  an underscore is accepted between two digits only.
\<close>

fun scan_digits :: "int \<Rightarrow> nat \<Rightarrow> string \<Rightarrow> int \<times> nat \<times> string" where
  "scan_digits v k [] = (v, k, [])"
| "scan_digits v k (c # cs) =
     (if is_digit_char c then scan_digits (10 * v + digit_val c) (Suc k) cs
      else if c = CHR ''_'' \<and> k > 0 \<and> cs \<noteq> [] \<and> is_digit_char (hd cs) then scan_digits v k cs
      else (v, k, c # cs))"

definition scan_exponent :: "string \<Rightarrow> int option" where
  "scan_exponent s = (case s of
       [] \<Rightarrow> Some 0
     | c # cs \<Rightarrow>
         if c = CHR ''e'' \<or> c = CHR ''E'' then
           (let (neg, ds) = (case cs of
                [] \<Rightarrow> (False, [])
              | d # ds \<Rightarrow> if d = CHR ''-'' then (True, ds)
                          else if d = CHR ''+'' then (False, ds) else (False, d # ds));
                (v, k, r) = scan_digits 0 0 ds
            in if k = 0 \<or> r \<noteq> [] then None else Some (if neg then - v else v))
         else None)"

definition parse_decimal :: "string \<Rightarrow> pyfloat option" where
  "parse_decimal s =
     (let (iv, ik, r) = scan_digits 0 0 s;
          (fv, fk, r2) = (case r of
               [] \<Rightarrow> (0, 0, r)
             | c # cs \<Rightarrow> if c = CHR ''.'' then scan_digits 0 0 cs else (0, 0, r))
      in if ik + fk = 0 then None
         else map_option (\<lambda>e. rnd (of_int (iv * 10 ^ fk + fv) * 10 powi (e - int fk)))
                (scan_exponent r2))"

definition parse_unsigned_float :: "string \<Rightarrow> pyfloat option" where
  "parse_unsigned_float s =
     (if py_lower s = ''inf'' \<or> py_lower s = ''infinity'' then Some PosInf
      else if py_lower s = ''nan'' then Some NaN
      else parse_decimal s)"

definition parse_float :: "string \<Rightarrow> pyfloat option" where
  "parse_float s = (case py_strip s of
       [] \<Rightarrow> None
     | c # cs \<Rightarrow>
         if c = CHR ''-'' then map_option fneg (parse_unsigned_float cs)
         else if c = CHR ''+'' then parse_unsigned_float cs
         else parse_unsigned_float (c # cs))"

section \<open>JSON values\<close>

text \<open>
  The Python value \<open>json.loads\<close> returns. An object is the association list of its dict: one
  entry per key, in insertion order.
\<close>

datatype json =
    JNull
  | JBool bool
  | JInt int
  | JFloat pyfloat
  | JStr string
  | JArr "json list"
  | JObj "(string \<times> json) list"

type_synonym obj = "(string \<times> json) list"

definition oget :: "obj \<Rightarrow> string \<Rightarrow> json" where
  \<comment> \<open>\<open>d.get(key)\<close>: a missing key reads as \<open>None\<close>\<close>
  "oget d k = (case map_of d k of None \<Rightarrow> JNull | Some v \<Rightarrow> v)"

definition oget_default :: "obj \<Rightarrow> string \<Rightarrow> json \<Rightarrow> json" where
  "oget_default d k v0 = (case map_of d k of None \<Rightarrow> v0 | Some v \<Rightarrow> v)"

fun truthy :: "json \<Rightarrow> bool" where
  "truthy JNull = False"
| "truthy (JBool b) = b"
| "truthy (JInt i) = (i \<noteq> 0)"
| "truthy (JFloat f) = (f \<noteq> Fin 0)"
| "truthy (JStr s) = (s \<noteq> [])"
| "truthy (JArr xs) = (xs \<noteq> [])"
| "truthy (JObj d) = (d \<noteq> [])"

definition py_or :: "json \<Rightarrow> json \<Rightarrow> json" where
  \<comment> \<open>\<open>a or b\<close>\<close>
  "py_or a b = (if truthy a then a else b)"

definition none_or_empty :: "json \<Rightarrow> bool" where
  \<comment> \<open>\<open>v is None or v == ""\<close>\<close>
  "none_or_empty v \<longleftrightarrow> v = JNull \<or> v = JStr []"

fun eq_zero :: "json \<Rightarrow> bool" where
  \<comment> \<open>\<open>v == 0\<close>\<close>
  "eq_zero (JBool b) = (\<not> b)"
| "eq_zero (JInt i) = (i = 0)"
| "eq_zero (JFloat f) = (f = Fin 0)"
| "eq_zero _ = False"

definition value_error :: pyexc where "value_error = PyExc ''ValueError'' []"
definition type_error :: pyexc where "type_error = PyExc ''TypeError'' []"
definition overflow_error :: pyexc where "overflow_error = PyExc ''OverflowError'' []"
definition attribute_error :: pyexc where "attribute_error = PyExc ''AttributeError'' []"

lemmas exc_defs = value_error_def type_error_def overflow_error_def attribute_error_def

definition rat_trunc :: "rat \<Rightarrow> int" where
  "rat_trunc q = (if q < 0 then - \<lfloor>- q\<rfloor> else \<lfloor>q\<rfloor>)"

fun py_int :: "json \<Rightarrow> int res" where
  "py_int JNull = Inl type_error"
| "py_int (JBool b) = Inr (if b then 1 else 0)"
| "py_int (JInt i) = Inr i"
| "py_int (JFloat (Fin q)) = Inr (rat_trunc q)"
| "py_int (JFloat NaN) = Inl value_error"
| "py_int (JFloat _) = Inl overflow_error"
| "py_int (JStr s) = (case parse_int s of None \<Rightarrow> Inl value_error | Some i \<Rightarrow> Inr i)"
| "py_int (JArr _) = Inl type_error"
| "py_int (JObj _) = Inl type_error"

definition float_of_int :: "int \<Rightarrow> pyfloat res" where
  "float_of_int i = (case rnd (of_int i) of Fin q \<Rightarrow> Inr (Fin q) | _ \<Rightarrow> Inl overflow_error)"

fun py_float :: "json \<Rightarrow> pyfloat res" where
  "py_float JNull = Inl type_error"
| "py_float (JBool b) = Inr (Fin (if b then 1 else 0))"
| "py_float (JInt i) = float_of_int i"
| "py_float (JFloat f) = Inr f"
| "py_float (JStr s) = (case parse_float s of None \<Rightarrow> Inl value_error | Some f \<Rightarrow> Inr f)"
| "py_float (JArr _) = Inl type_error"
| "py_float (JObj _) = Inl type_error"

text \<open>
  \<open>str(v)\<close>. The text of a float or of a container (CPython's shortest \<open>repr\<close>) is the argument
  \<open>shw\<close>; every other case is spelled out.
\<close>

fun py_str :: "(json \<Rightarrow> string) \<Rightarrow> json \<Rightarrow> string" where
  "py_str shw JNull = ''None''"
| "py_str shw (JBool b) = (if b then ''True'' else ''False'')"
| "py_str shw (JInt i) = int_str i"
| "py_str shw (JStr s) = s"
| "py_str shw v = shw v"

text \<open>
  Only three exception classes leave these conversions; \<open>except (TypeError, ValueError)\<close>
  catches two of them.
\<close>

definition type_or_value_error :: "pyexc \<Rightarrow> bool" where
  "type_or_value_error x \<longleftrightarrow> exc_class x = ''TypeError'' \<or> exc_class x = ''ValueError''"

lemma type_or_value_error_simps [simp]:
  "type_or_value_error type_error" "type_or_value_error value_error"
  "\<not> type_or_value_error overflow_error" "\<not> type_or_value_error attribute_error"
  by (simp_all add: type_or_value_error_def exc_defs)

lemma py_int_raises:
  "py_int v = Inl x \<Longrightarrow> type_or_value_error x \<or> (v = JFloat PosInf \<or> v = JFloat NegInf)"
  by (cases v rule: py_int.cases) (auto split: option.splits)

lemma py_float_JInt_small: "\<bar>i\<bar> \<le> 2 ^ 53 \<Longrightarrow> py_float (JInt i) = Inr (Fin (of_int i))"
  by (simp add: float_of_int_def rnd_int)

end
