(* ===== verification/Config_Types.thy ===== *)
theory Config_Types
  imports Py_Values
begin

text \<open>
  The typed configuration of \<open>backend/config_client.py\<close>: \<open>DeviceConfig\<close>, \<open>SignalConfig\<close> and
  \<open>GatewayConfig\<close>. Every other component takes its devices and signals from here.
\<close>

record device_config =
  d_code :: string
  d_name :: string
  d_ip :: string
  d_address :: int
  d_tcp_port :: "int option"
  d_master_address :: "int option"
  d_endpoint :: string
  d_master_port :: "int option"
  d_poll_interval :: int
  d_timeout_ms :: int
  d_retry_count :: int
  d_profile :: string

record signal_config =
  s_key :: string
  s_label :: string
  s_unit :: "string option"
  s_source :: string
  s_class :: string
  s_type :: string
  s_group :: int
  s_index :: int
  s_scale :: pyfloat
  s_offset :: pyfloat
  s_alarm :: bool

record gateway_config =
  g_code :: string
  g_name :: string
  g_batch_interval :: int
  g_max_devices :: int
  g_active :: bool
  g_version :: string
  g_devices :: "device_config list"
  g_signals :: "signal_config list"
  g_nonce :: int

text \<open>The defaults of the dataclass.\<close>

definition default_device :: "string \<Rightarrow> string \<Rightarrow> string \<Rightarrow> device_config" where
  "default_device code name ip =
     \<lparr>d_code = code, d_name = name, d_ip = ip, d_address = 1, d_tcp_port = None,
      d_master_address = None, d_endpoint = ''listening'', d_master_port = None,
      d_poll_interval = 5, d_timeout_ms = 3000, d_retry_count = 2,
      d_profile = ''horstmann_sn2_fixed''\<rparr>"


text \<open>\<open>dataclasses.asdict\<close> of a device and of a signal, as JSON.\<close>

definition opt_json :: "('a \<Rightarrow> json) \<Rightarrow> 'a option \<Rightarrow> json" where
  "opt_json f v = (case v of None \<Rightarrow> JNull | Some x \<Rightarrow> f x)"

definition device_json :: "device_config \<Rightarrow> json" where
  "device_json d = JObj [(''code'', JStr (d_code d)), (''name'', JStr (d_name d)),
     (''ip_address'', JStr (d_ip d)), (''dnp3_address'', JInt (d_address d)),
     (''dnp3_tcp_port'', opt_json JInt (d_tcp_port d)), (''master_address'', opt_json JInt (d_master_address d)),
     (''ip_endpoint_type'', JStr (d_endpoint d)), (''master_ip_port'', opt_json JInt (d_master_port d)),
     (''poll_interval_sec'', JInt (d_poll_interval d)), (''timeout_ms'', JInt (d_timeout_ms d)),
     (''retry_count'', JInt (d_retry_count d)), (''signal_profile'', JStr (d_profile d))]"

definition signal_json :: "signal_config \<Rightarrow> json" where
  "signal_json s = JObj [(''key'', JStr (s_key s)), (''label'', JStr (s_label s)),
     (''unit'', opt_json JStr (s_unit s)), (''source'', JStr (s_source s)),
     (''dnp3_class'', JStr (s_class s)), (''data_type'', JStr (s_type s)),
     (''dnp3_object_group'', JInt (s_group s)), (''dnp3_index'', JInt (s_index s)),
     (''scale'', JFloat (s_scale s)), (''offset'', JFloat (s_offset s)),
     (''supports_alarm'', JBool (s_alarm s))]"

end
