(* ===== verification/Gw_State.thy ===== *)
theory Gw_State
  imports Config_Types
begin

text \<open>
  \<open>state.py\<close>, class \<open>GatewayState\<close>: the configuration in force, the read times of the devices, the
  refresh bookkeeping and the copy of the configuration on disk. Every method runs under the lock,
  hence is one step. \<open>st_file\<close> is the cache file. A file this program wrote has texts where texts are
  expected; \<open>Untyped\<close> is the outcome of loading a file that has not (Python would keep the odd values).
  The two \<open>time.time()\<close> readings of one call are one argument.
\<close>

section \<open>State\<close>

datatype cache_file =
    NoFile
  | BadFile        \<comment> \<open>unreadable, or not JSON: \<open>OSError\<close> or \<open>ValueError\<close>\<close>
  | CacheFile json

record gw_state =
  st_devices :: "device_config list"
  st_signals :: "signal_config list"
  st_last_read :: "string \<rightharpoonup> clock"
  st_version :: string
  st_active :: bool
  st_name :: string
  st_nonce :: int
  st_refresh_pending :: bool
  st_has_path :: bool
  st_max_age :: rat
  st_loaded_at :: "pyfloat option"
  st_refresh_error :: "string option"
  st_refresh_ok :: "clock option"
  st_refresh_attempt :: "clock option"
  st_file :: cache_file

definition state_init :: "bool \<Rightarrow> rat \<Rightarrow> cache_file \<Rightarrow> gw_state" where
  "state_init has_path max_age_hours file =
     \<lparr>st_devices = [], st_signals = [], st_last_read = Map.empty, st_version = [], st_active = False,
      st_name = [], st_nonce = 0, st_refresh_pending = False, st_has_path = has_path,
      st_max_age = max 60 (max_age_hours * 3600), st_loaded_at = None, st_refresh_error = None,
      st_refresh_ok = None, st_refresh_attempt = None, st_file = file\<rparr>"

section \<open>Updating\<close>

definition codes :: "device_config list \<Rightarrow> string set" where
  "codes ds = d_code ` set ds"

definition snapshot_json :: "clock \<Rightarrow> gateway_config \<Rightarrow> json" where
  "snapshot_json now g = JObj [(''config_version'', JStr (g_version g)), (''gateway_code'', JStr (g_code g)),
     (''gateway_name'', JStr (g_name g)), (''is_active'', JBool (g_active g)),
     (''batch_interval_sec'', JInt (g_batch_interval g)), (''max_devices'', JInt (g_max_devices g)),
     (''cached_at_unix'', JFloat (Fin now)),
     (''devices'', JArr (map device_json (g_devices g))), (''signals'', JArr (map signal_json (g_signals g)))]"

text \<open>\<open>_persist_unsafe\<close>: written to a temporary file and renamed, so a failed write leaves the old file.\<close>

definition persist :: "bool \<Rightarrow> clock \<Rightarrow> gateway_config \<Rightarrow> gw_state \<Rightarrow> gw_state" where
  "persist write_ok now g st =
     (if st_has_path st \<and> write_ok then st\<lparr>st_file := CacheFile (snapshot_json now g)\<rparr> else st)"

definition note_nonce :: "int \<Rightarrow> gw_state \<Rightarrow> gw_state" where
  "note_nonce n st =
     (if n > st_nonce st then st\<lparr>st_refresh_pending := True, st_nonce := n\<rparr>
      else if n < st_nonce st then st\<lparr>st_nonce := n\<rparr> else st)"

definition state_update :: "bool \<Rightarrow> clock \<Rightarrow> gateway_config \<Rightarrow> gw_state \<Rightarrow> bool \<times> gw_state" where
  "state_update write_ok now g st =
     (let changed = (g_version g \<noteq> st_version st);
          st1 = st\<lparr>st_devices := g_devices g, st_signals := g_signals g, st_active := g_active g,
                  st_name := g_name g, st_last_read := st_last_read st |` codes (g_devices g),
                  st_version := g_version g, st_loaded_at := Some (Fin now), st_refresh_ok := Some now,
                  st_refresh_attempt := Some now, st_refresh_error := None\<rparr>;
          st2 = note_nonce (g_nonce g) st1
      in (changed, if changed then persist write_ok now g st2 else st2))"

definition take_refresh_request :: "gw_state \<Rightarrow> bool \<times> gw_state" where
  "take_refresh_request st =
     (if st_refresh_pending st then (True, st\<lparr>st_refresh_pending := False\<rparr>) else (False, st))"

definition record_refresh_error :: "clock \<Rightarrow> string \<Rightarrow> gw_state \<Rightarrow> gw_state" where
  "record_refresh_error now err st = st\<lparr>st_refresh_error := Some (take 500 err), st_refresh_attempt := Some now\<rparr>"

section \<open>Reading the cache file\<close>

datatype 'a load = Got 'a | Raised pyexc | Untyped

definition load_then :: "'a load \<Rightarrow> ('a \<Rightarrow> 'b load) \<Rightarrow> 'b load" where
  "load_then r f = (case r of Got v \<Rightarrow> f v | Raised x \<Rightarrow> Raised x | Untyped \<Rightarrow> Untyped)"

definition get_str :: "obj \<Rightarrow> string \<Rightarrow> string \<Rightarrow> string load" where
  "get_str d k dflt = (case map_of d k of None \<Rightarrow> Got dflt | Some (JStr s) \<Rightarrow> Got s | Some _ \<Rightarrow> Untyped)"

definition get_int :: "obj \<Rightarrow> string \<Rightarrow> int \<Rightarrow> int load" where
  "get_int d k dflt = (case map_of d k of None \<Rightarrow> Got dflt | Some (JInt i) \<Rightarrow> Got i | Some _ \<Rightarrow> Untyped)"

definition get_opt_int :: "obj \<Rightarrow> string \<Rightarrow> int option load" where
  "get_opt_int d k = (case map_of d k of None \<Rightarrow> Got None | Some JNull \<Rightarrow> Got None
     | Some (JInt i) \<Rightarrow> Got (Some i) | Some _ \<Rightarrow> Untyped)"

definition get_opt_str :: "obj \<Rightarrow> string \<Rightarrow> string option load" where
  "get_opt_str d k = (case map_of d k of Some JNull \<Rightarrow> Got None | Some (JStr s) \<Rightarrow> Got (Some s) | _ \<Rightarrow> Untyped)"

definition get_float :: "obj \<Rightarrow> string \<Rightarrow> pyfloat load" where
  "get_float d k = (case map_of d k of Some (JFloat f) \<Rightarrow> Got f | _ \<Rightarrow> Untyped)"

definition get_bool :: "obj \<Rightarrow> string \<Rightarrow> bool load" where
  "get_bool d k = (case map_of d k of Some (JBool b) \<Rightarrow> Got b | _ \<Rightarrow> Untyped)"

text \<open>\<open>DeviceConfig(**kw)\<close>: a missing field without default is a \<open>TypeError\<close>.\<close>

definition missing :: "obj \<Rightarrow> string list \<Rightarrow> bool" where
  "missing d ks = list_ex (\<lambda>k. map_of d k = None) ks"

definition device_of_json :: "json \<Rightarrow> device_config load" where
  "device_of_json j = (case j of
       JObj d \<Rightarrow>
         (if missing d [''code'', ''name'', ''ip_address''] then Raised type_error
          else load_then (get_str d ''code'' []) (\<lambda>code. load_then (get_str d ''name'' []) (\<lambda>name.
               load_then (get_str d ''ip_address'' []) (\<lambda>ip. load_then (get_int d ''dnp3_address'' 1) (\<lambda>addr.
               load_then (get_opt_int d ''dnp3_tcp_port'') (\<lambda>tcp.
               load_then (get_opt_int d ''master_address'') (\<lambda>maddr.
               load_then (get_str d ''ip_endpoint_type'' ''listening'') (\<lambda>ep.
               load_then (get_opt_int d ''master_ip_port'') (\<lambda>mport.
               load_then (get_int d ''poll_interval_sec'' 5) (\<lambda>poll.
               load_then (get_int d ''timeout_ms'' 3000) (\<lambda>tmo.
               load_then (get_int d ''retry_count'' 2) (\<lambda>retry.
               load_then (get_str d ''signal_profile'' ''horstmann_sn2_fixed'') (\<lambda>prof.
                 Got \<lparr>d_code = code, d_name = name, d_ip = ip, d_address = addr, d_tcp_port = tcp,
                      d_master_address = maddr, d_endpoint = ep, d_master_port = mport,
                      d_poll_interval = poll, d_timeout_ms = tmo, d_retry_count = retry,
                      d_profile = prof\<rparr>)))))))))))))
     | _ \<Rightarrow> Raised attribute_error)"

definition signal_of_json :: "json \<Rightarrow> signal_config load" where
  "signal_of_json j = (case j of
       JObj d \<Rightarrow>
         (if missing d [''key'', ''label'', ''unit'', ''source'', ''dnp3_class'', ''data_type'',
              ''dnp3_object_group'', ''dnp3_index'', ''scale'', ''offset'', ''supports_alarm'']
          then Raised type_error
          else load_then (get_str d ''key'' []) (\<lambda>key. load_then (get_str d ''label'' []) (\<lambda>label.
               load_then (get_opt_str d ''unit'') (\<lambda>unit. load_then (get_str d ''source'' []) (\<lambda>source.
               load_then (get_str d ''dnp3_class'' []) (\<lambda>cls. load_then (get_str d ''data_type'' []) (\<lambda>ty.
               load_then (get_int d ''dnp3_object_group'' 0) (\<lambda>grp. load_then (get_int d ''dnp3_index'' 0) (\<lambda>idx.
               load_then (get_float d ''scale'') (\<lambda>scale. load_then (get_float d ''offset'') (\<lambda>offset.
               load_then (get_bool d ''supports_alarm'') (\<lambda>alarm.
                 Got \<lparr>s_key = key, s_label = label, s_unit = unit, s_source = source, s_class = cls,
                      s_type = ty, s_group = grp, s_index = idx, s_scale = scale, s_offset = offset,
                      s_alarm = alarm\<rparr>))))))))))))
     | _ \<Rightarrow> Raised attribute_error)"

fun load_all :: "(json \<Rightarrow> 'a load) \<Rightarrow> json list \<Rightarrow> 'a list load" where
  "load_all f [] = Got []"
| "load_all f (x # xs) = load_then (f x) (\<lambda>y. load_then (load_all f xs) (\<lambda>ys. Got (y # ys)))"

text \<open>\<open>for d in data.get(key, [])\<close>: numbers and \<open>None\<close> cannot be iterated; the items of a text and the
  keys of an object are texts, which have no \<open>items\<close>.\<close>

definition iterate :: "(json \<Rightarrow> 'a load) \<Rightarrow> json \<Rightarrow> 'a list load" where
  "iterate f v = (case v of JArr xs \<Rightarrow> load_all f xs
     | JStr s \<Rightarrow> if s = [] then Got [] else Raised attribute_error
     | JObj d \<Rightarrow> if d = [] then Got [] else Raised attribute_error
     | _ \<Rightarrow> Raised type_error)"

text \<open>\<open>except (OSError, ValueError, TypeError)\<close> around the reading; the rest is not guarded.\<close>

definition load_from_cache :: "(json \<Rightarrow> string) \<Rightarrow> gw_state \<Rightarrow> bool load \<times> gw_state" where
  "load_from_cache shw st =
     (if \<not> st_has_path st then (Got False, st)
      else case st_file st of
        NoFile \<Rightarrow> (Got False, st)
      | BadFile \<Rightarrow> (Got False, st)
      | CacheFile (JObj data) \<Rightarrow>
          (case load_then (iterate device_of_json (oget_default data ''devices'' (JArr []))) (\<lambda>ds.
                load_then (iterate signal_of_json (oget_default data ''signals'' (JArr []))) (\<lambda>ss. Got (ds, ss))) of
             Raised x \<Rightarrow> (if type_or_value_error x then Got False else Raised x, st)
           | Untyped \<Rightarrow> (Untyped, st)
           | Got (ds, ss) \<Rightarrow>
               (let c = oget data ''cached_at_unix'';
                    age = (if c = JNull then Inr None else case py_float c of
                            Inl x \<Rightarrow> if type_or_value_error x then Inr None else Inl x
                          | Inr f \<Rightarrow> Inr (Some f))
                in case age of Inl x \<Rightarrow> (Raised x, st)
                   | Inr t \<Rightarrow> (Got True,
                       st\<lparr>st_devices := ds, st_signals := ss,
                          st_active := truthy (oget_default data ''is_active'' (JBool True)),
                          st_name := py_str shw (py_or (oget data ''gateway_name'') (JStr [])),
                          st_version := py_str shw (py_or (oget data ''config_version'') (JStr [])),
                          st_loaded_at := t\<rparr>)))
      | CacheFile _ \<Rightarrow> (Raised attribute_error, st))"

section \<open>Scheduling and age\<close>

definition mark_read :: "string \<Rightarrow> clock \<Rightarrow> gw_state \<Rightarrow> gw_state" where
  "mark_read code ts st = st\<lparr>st_last_read := (st_last_read st)(code \<mapsto> ts)\<rparr>"

definition is_due :: "clock \<Rightarrow> gw_state \<Rightarrow> device_config \<Rightarrow> bool" where
  "is_due now st d =
     (now - (case st_last_read st (d_code d) of None \<Rightarrow> 0 | Some t \<Rightarrow> t) \<ge> of_int (max 1 (d_poll_interval d)))"

definition due_devices :: "clock \<Rightarrow> gw_state \<Rightarrow> device_config list" where
  "due_devices now st = filter (is_due now st) (st_devices st)"

definition age_of :: "clock \<Rightarrow> pyfloat \<Rightarrow> pyfloat" where
  \<comment> \<open>\<open>max(0.0, time.time() - t)\<close>\<close>
  "age_of now t = (let a = fadd (Fin now) (fneg t) in if flt (Fin 0) a then a else Fin 0)"

definition cache_age :: "clock \<Rightarrow> gw_state \<Rightarrow> pyfloat option" where
  "cache_age now st = map_option (age_of now) (st_loaded_at st)"

definition is_cache_stale :: "clock \<Rightarrow> gw_state \<Rightarrow> bool" where
  "is_cache_stale now st = (case cache_age now st of None \<Rightarrow> False | Some a \<Rightarrow> flt (Fin (st_max_age st)) a)"

text \<open>\<open>snapshot()\<close>, as far as \<open>/health\<close> reads it.\<close>

record state_snapshot =
  sn_name :: string
  sn_version :: string
  sn_devices :: "string list"
  sn_signals :: nat
  sn_active :: bool
  sn_age :: "pyfloat option"
  sn_stale :: bool
  sn_refresh_error :: "string option"
  sn_since_ok :: "clock option"

definition snapshot :: "clock \<Rightarrow> gw_state \<Rightarrow> state_snapshot" where
  "snapshot now st = \<lparr>sn_name = st_name st, sn_version = st_version st,
     sn_devices = map d_code (st_devices st), sn_signals = length (st_signals st),
     sn_active = st_active st, sn_age = cache_age now st,
     sn_stale = (case cache_age now st of None \<Rightarrow> False | Some a \<Rightarrow> flt (Fin (st_max_age st)) a),
     sn_refresh_error = st_refresh_error st,
     sn_since_ok = map_option (\<lambda>t. max 0 (now - t)) (st_refresh_ok st)\<rparr>"


section \<open>The cache round trip\<close>

lemma load_then_simps [simp]:
  "load_then (Got v) f = f v" "load_then (Raised x) f = Raised x" "load_then Untyped f = Untyped"
  by (simp_all add: load_then_def)

lemma device_round_trip: "device_of_json (device_json d) = Got d"
  by (simp add: device_of_json_def device_json_def missing_def get_str_def get_int_def get_opt_int_def opt_json_def
      split: option.split)

lemma signal_round_trip: "signal_of_json (signal_json s) = Got s"
  by (simp add: signal_of_json_def signal_json_def missing_def get_str_def get_int_def get_opt_str_def opt_json_def
      get_float_def get_bool_def split: option.split)

lemma load_all_map: "(\<And>x. f (g x) = Got x) \<Longrightarrow> load_all f (map g xs) = Got xs"
  by (induction xs) simp_all

lemma load_snapshot:
  assumes "st_has_path st" "st_file st = CacheFile (snapshot_json now g)"
  shows "load_from_cache shw st = (Got True, st\<lparr>st_devices := g_devices g, st_signals := g_signals g,
    st_active := g_active g, st_name := g_name g, st_version := g_version g, st_loaded_at := Some (Fin now)\<rparr>)"
  using assms
  by (simp add: load_from_cache_def snapshot_json_def oget_def oget_default_def iterate_def py_or_def Let_def
      load_all_map [OF device_round_trip] load_all_map [OF signal_round_trip])

text \<open>C14: Restart without the backend: after an \<open>update\<close> that changed the version and whose file write
  succeeded, a new process that loads the cache has the same devices and signals, name, version and
  activity flag, and knows the time of that update, so that the age of the configuration goes on
  counting.\<close>

theorem restart_from_cache:
  assumes "st_has_path st" and "state_update True now g st = (True, st1)"
    and "load_from_cache shw (state_init True hours (st_file st1)) = (r, st2)"
  shows "r = Got True \<and> st_devices st2 = st_devices st1 \<and> st_signals st2 = st_signals st1 \<and>
    st_name st2 = st_name st1 \<and> st_version st2 = st_version st1 \<and> st_active st2 = st_active st1 \<and>
    st_loaded_at st2 = Some (Fin now)"
proof -
  have f: "st_file st1 = CacheFile (snapshot_json now g)"
    and e: "st_devices st1 = g_devices g" "st_signals st1 = g_signals g" "st_name st1 = g_name g"
      "st_version st1 = g_version g" "st_active st1 = g_active g"
    using assms(1,2) by (auto simp: state_update_def Let_def persist_def note_nonce_def split: if_splits)
  have "st_has_path (state_init True hours (st_file st1))"
    "st_file (state_init True hours (st_file st1)) = CacheFile (snapshot_json now g)"
    by (simp_all add: state_init_def f)
  from load_snapshot [OF this] assms(3) e show ?thesis by auto
qed

definition sample_device :: device_config where
  "sample_device = default_device ''D1'' ''Feeder 1'' ''10.0.0.5''"

definition sample_config :: gateway_config where
  "sample_config = \<lparr>g_code = ''GW1'', g_name = ''North'', g_batch_interval = 5, g_max_devices = 200, g_active = True,
     g_version = ''v1'', g_devices = [sample_device], g_signals = [], g_nonce = 3\<rparr>"

theorem restart_from_cache_witness:
  "st_devices (snd (load_from_cache (\<lambda>v. []) (state_init True 24
     (st_file (snd (state_update True 100 sample_config (state_init True 24 NoFile))))))) = [sample_device]"
proof -
  let ?u = "state_update True 100 sample_config (state_init True 24 NoFile)"
  have u: "?u = (True, snd ?u)" "st_devices (snd ?u) = [sample_device]"
    by (auto simp: state_update_def state_init_def sample_config_def Let_def persist_def note_nonce_def)
  have "st_has_path (state_init True 24 NoFile)" by (simp add: state_init_def)
  from restart_from_cache [OF this u(1) surjective_pairing, of "\<lambda>v. []" 24] show ?thesis by (simp add: u(2))
qed

section \<open>The refresh request\<close>

text \<open>Updates without a poll cycle in between.\<close>

definition updates :: "(bool \<times> clock \<times> gateway_config) list \<Rightarrow> gw_state \<Rightarrow> gw_state" where
  "updates us st = fold (\<lambda>(w, now, g) s. snd (state_update w now g s)) us st"

fun rises :: "int \<Rightarrow> int list \<Rightarrow> bool" where
  \<comment> \<open>some nonce is above the one before it\<close>
  "rises n [] = False"
| "rises n (m # ms) = (m > n \<or> rises m ms)"

lemma update_nonce:
  "st_nonce (snd (state_update w now g st)) = g_nonce g \<and>
   st_refresh_pending (snd (state_update w now g st)) = (st_refresh_pending st \<or> g_nonce g > st_nonce st)"
  by (auto simp: state_update_def Let_def persist_def note_nonce_def)

lemma updates_pending:
  "st_refresh_pending (updates us st) =
    (st_refresh_pending st \<or> rises (st_nonce st) (map (\<lambda>(w, now, g). g_nonce g) us))"
proof (induction us arbitrary: st)
  case (Cons u us)
  obtain w now g where u: "u = (w, now, g)" by (cases u)
  show ?case
    using Cons.IH [of "snd (state_update w now g st)"] update_nonce [of w now g st]
    by (auto simp: updates_def u)
qed (simp add: updates_def)

text \<open>C21: An operator's refresh request reaches the poller exactly once: the next cycle takes it if and
  only if some configuration since the last cycle carried a nonce above the one before it, however
  many did, and the cycle after takes nothing; a nonce that falls back only resets the comparison.\<close>

theorem refresh_taken_once:
  assumes "\<not> st_refresh_pending st" and "take_refresh_request (updates us st) = (b, st1)"
  shows "(b \<longleftrightarrow> rises (st_nonce st) (map (\<lambda>(w, now, g). g_nonce g) us)) \<and>
    fst (take_refresh_request st1) = False"
  using assms updates_pending [of us st] by (auto simp: take_refresh_request_def split: if_splits)

theorem refresh_taken_once_witness:
  "fst (take_refresh_request (updates [(True, 100, sample_config), (True, 130, sample_config)]
     (state_init True 24 NoFile)))"
  using refresh_taken_once [OF _ surjective_pairing, of "state_init True 24 NoFile"
      "[(True, 100, sample_config), (True, 130, sample_config)]"]
  by (simp add: state_init_def sample_config_def)

text \<open>The nonce is not part of the cache file: a process restarted from the cache takes the next
  configuration with any positive nonce, even the one it had already acted on, as a new refresh
  request.\<close>

theorem restart_repeats_refresh:
  assumes "load_from_cache shw (state_init True hours file) = (r, st1)" and "0 < g_nonce g"
  shows "fst (take_refresh_request (snd (state_update w now g st1)))"
proof -
  have "st_nonce st1 = 0"
    using assms(1) by (auto simp: load_from_cache_def state_init_def Let_def
        split: cache_file.splits json.splits load.splits prod.splits sum.splits if_splits)
  then show ?thesis
    using update_nonce [of w now g st1] assms(2) by (simp add: take_refresh_request_def)
qed

theorem restart_repeats_refresh_witness:
  "fst (take_refresh_request (snd (state_update True 200 sample_config
     (snd (load_from_cache (\<lambda>v. []) (state_init True 24 NoFile))))))"
  by (rule restart_repeats_refresh [OF surjective_pairing]) (simp add: sample_config_def)

section \<open>Scheduling\<close>

definition marks :: "(string \<times> clock) list \<Rightarrow> gw_state \<Rightarrow> gw_state" where
  "marks ms st = fold (\<lambda>(c, t) s. mark_read c t s) ms st"

lemma marks_simps [simp]: "marks [] st = st" "marks (m # ms) st = marks ms (mark_read (fst m) (snd m) st)"
  by (simp_all add: marks_def case_prod_beta)

lemma marks_frame [simp]: "st_devices (marks ms st) = st_devices st"
  by (induction ms arbitrary: st) (simp_all add: mark_read_def)

lemma marks_last:
  "st_last_read (marks ms st) = st_last_read st ++ map_of (rev ms)"
  by (induction ms arbitrary: st) (auto simp: mark_read_def)

text \<open>The schedule: after a cycle at time \<open>t\<close> that marked the devices it read, the devices due at \<open>t'\<close>
  are, in configuration order, those of the marked ones whose interval (at least one second) has
  passed since \<open>t\<close>, and the others as before; reading again within the interval never happens.\<close>

theorem due_after_marking:
  assumes "\<forall>m \<in> set ms. snd m = t"
  shows "due_devices t' (marks ms st) = filter (\<lambda>d. if d_code d \<in> fst ` set ms
      then t' - t \<ge> of_int (max 1 (d_poll_interval d)) else is_due t' st d) (st_devices st)"
proof -
  have "st_last_read (marks ms st) (d_code d) =
      (if d_code d \<in> fst ` set ms then Some t else st_last_read st (d_code d))" for d
  proof (cases "d_code d \<in> fst ` set ms")
    case True
    then obtain v where "map_of (rev ms) (d_code d) = Some v"
      by (metis dom_map_of_conv_image_fst domD set_rev)
    moreover then have "v = t" using assms by (fastforce dest!: map_of_SomeD)
    ultimately show ?thesis using True by (simp add: marks_last map_add_def)
  next
    case False
    then have "map_of (rev ms) (d_code d) = None" by (simp add: map_of_eq_None_iff)
    then show ?thesis using False by (simp add: marks_last map_add_def)
  qed
  note L = this
  have "is_due t' (marks ms st) d = (if d_code d \<in> fst ` set ms
      then t' - t \<ge> of_int (max 1 (d_poll_interval d)) else is_due t' st d)" for d
    unfolding is_due_def L by simp
  then show ?thesis unfolding due_devices_def marks_frame by (intro filter_cong) simp_all
qed

theorem due_after_marking_witness:
  "due_devices 104 (marks [(''D1'', 100)] (snd (state_update True 90 sample_config (state_init True 24 NoFile)))) = []"
  using due_after_marking [of "[(''D1'', 100)]" 100 104 "snd (state_update True 90 sample_config (state_init True 24 NoFile))"]
  by (simp add: state_update_def state_init_def sample_config_def sample_device_def default_device_def Let_def
      persist_def note_nonce_def)

text \<open>Read times never outlive their device: after any sequence of updates and marks, an update
  keeps exactly the read times of the devices in the configuration now in force.\<close>

theorem update_prunes_read_times:
  "dom (st_last_read (snd (state_update w now g st))) = dom (st_last_read st) \<inter> codes (st_devices (snd (state_update w now g st)))"
  by (auto simp: state_update_def Let_def persist_def note_nonce_def codes_def)

section \<open>A file that is not an object\<close>

lemma load_false: "load_from_cache shw st = (Got False, st') \<Longrightarrow> st' = st"
  by (auto simp: load_from_cache_def Let_def
      split: cache_file.splits json.splits load.splits prod.splits sum.splits if_splits)

text \<open>\<open>load_from_cache\<close> answers False on a missing or unreadable file and on most malformed ones, and
  then changes nothing; but a file whose JSON is not an object, or whose device list holds something
  that is not an object, makes it raise \<open>AttributeError\<close>, which nobody catches.\<close>

theorem cache_errors:
  "(fst (load_from_cache shw st) = Got False \<longrightarrow> snd (load_from_cache shw st) = st) \<and>
   (st_has_path st \<and> (st_file st = CacheFile (JArr xs) \<or> st_file st = CacheFile (JObj [(''devices'', JArr [JInt 1])]))
     \<longrightarrow> load_from_cache shw st = (Raised attribute_error, st))"
proof (intro conjI impI)
  assume "fst (load_from_cache shw st) = Got False"
  then have "load_from_cache shw st = (Got False, snd (load_from_cache shw st))" by (metis prod.collapse)
  then show "snd (load_from_cache shw st) = st" by (rule load_false)
next
  assume "st_has_path st \<and>
    (st_file st = CacheFile (JArr xs) \<or> st_file st = CacheFile (JObj [(''devices'', JArr [JInt 1])]))"
  then show "load_from_cache shw st = (Raised attribute_error, st)"
    by (elim conjE disjE) (simp_all add: load_from_cache_def oget_default_def iterate_def device_of_json_def)
qed

theorem cache_errors_witness:
  "load_from_cache (\<lambda>v. []) (state_init True 24 (CacheFile (JArr []))) =
     (Raised attribute_error, state_init True 24 (CacheFile (JArr [])))"
  using cache_errors [of "\<lambda>v. []" "state_init True 24 (CacheFile (JArr []))" "[]"] by (simp add: state_init_def)

end
