(* ===== verification/Adapter.thy ===== *)
theory Adapter
  imports Config_Types
begin

text \<open>
  \<open>adapters/base.py\<close> and \<open>adapters/mock.py\<close>: what a reader returns for a device, the interface of the
  readers as the poller uses it, and the mock reader. \<open>DNP3\<close> points are named by object group and index.
\<close>

section \<open>Readings\<close>

record signal_reading =
  sr_key :: string
  sr_source :: string
  sr_type :: string
  sr_raw :: pyfloat
  sr_scaled :: pyfloat
  sr_quality :: string
  sr_string :: "string option"

type_synonym point = "int \<times> int"

definition point_of :: "signal_config \<Rightarrow> point" where
  "point_of s = (s_group s, s_index s)"

definition blank_reading :: "signal_config \<Rightarrow> string \<Rightarrow> signal_reading" where
  \<comment> \<open>a reading without a value\<close>
  "blank_reading s q = \<lparr>sr_key = s_key s, sr_source = s_source s, sr_type = s_type s, sr_raw = Fin 0,
     sr_scaled = Fin 0, sr_quality = q, sr_string = None\<rparr>"

definition scale_value :: "signal_config \<Rightarrow> pyfloat \<Rightarrow> nat \<Rightarrow> pyfloat" where
  \<comment> \<open>\<open>round(raw * s.scale + s.offset, n)\<close>\<close>
  "scale_value s raw n = py_round (fadd (fmul raw (s_scale s)) (s_offset s)) n"

definition value_reading :: "signal_config \<Rightarrow> pyfloat \<Rightarrow> string option \<Rightarrow> nat \<Rightarrow> signal_reading" where
  "value_reading s raw txt n = \<lparr>sr_key = s_key s, sr_source = s_source s, sr_type = s_type s, sr_raw = raw,
     sr_scaled = scale_value s raw n, sr_quality = ''good'', sr_string = txt\<rparr>"

lemma reading_keys [simp]:
  "sr_key (blank_reading s q) = s_key s" "sr_key (value_reading s raw txt n) = s_key s"
  "sr_quality (blank_reading s q) = q" "sr_quality (value_reading s raw txt n) = ''good''"
  "sr_source (blank_reading s q) = s_source s" "sr_source (value_reading s raw txt n) = s_source s"
  "sr_type (blank_reading s q) = s_type s" "sr_type (value_reading s raw txt n) = s_type s"
  by (simp_all add: blank_reading_def value_reading_def)

definition qualities :: "string list" where
  "qualities = [''good'', ''offline'', ''invalid'', ''comm_lost'', ''restart'', ''no_change'']"

text \<open>What a reader promises about one answer: a reading per signal, in order, of a known quality.\<close>

definition answers :: "signal_config list \<Rightarrow> signal_reading list \<Rightarrow> bool" where
  "answers ss rs \<longleftrightarrow>
     map (\<lambda>r. (sr_key r, sr_source r, sr_type r)) rs = map (\<lambda>s. (s_key s, s_source s, s_type s)) ss \<and>
     list_all (\<lambda>r. sr_quality r \<in> set qualities) rs"

lemma answers_Nil [simp]: "answers [] []"
  by (simp add: answers_def)

lemma answers_map:
  assumes "\<And>s. s \<in> set ss \<Longrightarrow> sr_key (f s) = s_key s \<and> sr_source (f s) = s_source s \<and> sr_type (f s) = s_type s \<and>
    sr_quality (f s) \<in> set qualities"
  shows "answers ss (map f ss)"
  using assms by (auto simp: answers_def list_all_iff)

lemma answers_Cons:
  "answers (s # ss) (r # rs) \<longleftrightarrow> sr_key r = s_key s \<and> sr_source r = s_source s \<and> sr_type r = s_type s \<and>
     sr_quality r \<in> set qualities \<and> answers ss rs"
  unfolding answers_def list.map list.pred_inject list.inject prod.inject by blast

lemma answers_length: "answers ss rs \<Longrightarrow> length rs = length ss"
  unfolding answers_def by (drule conjunct1, drule arg_cong [of _ _ length]) simp

section \<open>The reader interface\<close>

text \<open>
  \<open>rd e d ss r\<close> is \<open>read_device\<close>, \<open>forget active r\<close> is \<open>forget_devices\<close>; \<open>live r\<close> are the device codes the
  reader holds connections for. A reader answers every signal or raises, opens at most the connection
  of the device asked for, and after \<open>forget\<close> holds connections of active devices only.
\<close>

locale telemetry_reader =
  fixes rd :: "'e \<Rightarrow> device_config \<Rightarrow> signal_config list \<Rightarrow> 'r \<Rightarrow> signal_reading list res \<times> 'r"
    and forget :: "string set \<Rightarrow> 'r \<Rightarrow> nat \<times> 'r"
    and live :: "'r \<Rightarrow> string set"
  assumes rd_answers: "rd e d ss r = (Inr rs, r') \<Longrightarrow> answers ss rs"
    and rd_live: "rd e d ss r = (x, r') \<Longrightarrow> live r' \<subseteq> insert (d_code d) (live r)"
    and forget_live: "forget act r = (n, r') \<Longrightarrow> live r' = live r \<inter> act"
begin

lemma forget_then_read:
  assumes "forget act r = (n, r1)" "rd e d ss r1 = (x, r2)" "d_code d \<in> act"
  shows "live r2 \<subseteq> act"
  using assms forget_live rd_live by blast

end

section \<open>The mock reader\<close>

text \<open>
  The random generator is the argument: the unit draw and the integer draw made for the i-th signal.
\<close>

record mock_draw =
  md_unit :: rat
  md_int :: int

definition uniform :: "rat \<Rightarrow> rat \<Rightarrow> rat \<Rightarrow> pyfloat" where
  "uniform u lo hi = fadd (Fin lo) (fmul (Fin (hi - lo)) (Fin u))"

definition mock_ranges :: "(string list \<times> rat \<times> rat) list" where
  "mock_ranges =
     [([''actual_current'', ''average_current''], 0, 1500), ([''fault_current''], 0, 8000),
      ([''min_current'', ''minimum_current''], 0, 200), ([''max_current'', ''maximum_current''], 500, 2500),
      ([''trip_level'', ''trip_current''], 400, 800), ([''last_good_known_current''], 50, 1200),
      ([''fault_duration''], 30, 400),
      ([''actual_voltage'', ''minimum_voltage'', ''maximum_voltage'', ''nominal_voltage''], 10000, 11500),
      ([''battery_voltage''], 320, 420), ([''conductor_temperature''], 2000, 8500),
      ([''device_temperature''], - 500, 4500), ([''phase_angle''], - 1800, 1800),
      ([''pitch_angle''], - 4500, 4500), ([''modem_rssi'', ''rssi_satellite''], - 120, - 60),
      ([''latitude'', ''longitude''], 0, 60), ([''reporting_period''], 15, 15),
      ([''test_point_level''], 0, 100), ([''instantaneous_factor''], 1, 10)]"

definition mock_value :: "mock_draw \<Rightarrow> signal_config \<Rightarrow> pyfloat" where
  "mock_value d s = (let k = py_lower (s_key s) in
     if s_type s = ''binary'' \<or> s_type s = ''binary_output'' then (if md_unit d < 4 / 100 then Fin 1 else Fin 0)
     else if s_type s = ''counter'' then Fin (of_int (md_int d))
     else if s_type s = ''string'' then Fin 0
     else case find (\<lambda>(ps, lo, hi). list_ex (\<lambda>p. py_in p k) ps) mock_ranges of
         Some (ps, lo, hi) \<Rightarrow> uniform (md_unit d) lo hi
       | None \<Rightarrow> uniform (md_unit d) 0 100)"

definition mock_generate :: "mock_draw \<Rightarrow> signal_config \<Rightarrow> signal_reading" where
  "mock_generate d s = value_reading s (mock_value d s) None 4"

definition mock_read ::
  "mock_draw list \<Rightarrow> device_config \<Rightarrow> signal_config list \<Rightarrow> unit \<Rightarrow> signal_reading list res \<times> unit" where
  "mock_read draws d ss r =
     (Inr (map (\<lambda>(i, s). mock_generate (if i < length draws then draws ! i else \<lparr>md_unit = 0, md_int = 0\<rparr>) s)
       (enumerate 0 ss)), r)"

definition mock_forget :: "string set \<Rightarrow> unit \<Rightarrow> nat \<times> unit" where
  \<comment> \<open>the default of the base class: nothing to forget\<close>
  "mock_forget act r = (0, r)"

definition mock_live :: "unit \<Rightarrow> string set" where
  "mock_live r = {}"

lemma mock_answers: "mock_read draws d ss r = (Inr rs, r') \<Longrightarrow> answers ss rs"
proof -
  assume "mock_read draws d ss r = (Inr rs, r')"
  then have rs: "rs = map (\<lambda>(i, s). mock_generate
      (if i < length draws then draws ! i else \<lparr>md_unit = 0, md_int = 0\<rparr>) s) (enumerate 0 ss)"
    by (simp add: mock_read_def)
  have "map (\<lambda>x. h (snd x)) (enumerate n ss) = map h ss" for h :: "signal_config \<Rightarrow> 'x" and n
    by (metis (no_types) list.map_comp map_snd_enumerate comp_apply map_eq_conv)
  then show ?thesis
    by (simp add: rs answers_def list_all_iff case_prod_beta mock_generate_def qualities_def o_def)
qed

interpretation mock_reader: telemetry_reader mock_read mock_forget mock_live
  by unfold_locales (auto simp: mock_forget_def mock_live_def dest: mock_answers)

end
