(* ===== verification/Messaging.thy ===== *)
theory Messaging
  imports Py_Values
begin

text \<open>
  What the messaging components exchange: the message a publisher is called with, and the two
  interfaces of the layer. \<open>broker\<close> is the contract \<open>publish(payload, *, message_id,
  correlation_id, headers)\<close> that \<open>JetStreamPublisher\<close> and \<open>RabbitPublisher\<close> meet and
  \<open>ResilientPublisher\<close> relies on; \<open>message_store\<close> is the contract of the outbox that
  \<open>ResilientPublisher\<close> and \<open>OutboxRetrier\<close> rely on.
\<close>

section \<open>Messages\<close>

text \<open>
  Header values the gateway passes are texts or \<open>None\<close>. An empty dict is falsy in Python, and both
  the outbox and the publishers treat it as no headers; \<open>norm_msg\<close> is that identification.
\<close>

type_synonym hdrs = "(string \<times> string option) list"

record msg =
  m_id :: string
  m_corr :: "string option"
  m_headers :: "hdrs option"
  m_payload :: obj

definition norm_headers :: "hdrs option \<Rightarrow> hdrs option" where
  \<comment> \<open>\<open>headers if headers else None\<close>\<close>
  "norm_headers h = (case h of Some (kv # kvs) \<Rightarrow> Some (kv # kvs) | _ \<Rightarrow> None)"

definition norm_msg :: "msg \<Rightarrow> msg" where
  "norm_msg m = m\<lparr>m_headers := norm_headers (m_headers m)\<rparr>"

lemma norm_headers_idem [simp]: "norm_headers (norm_headers h) = norm_headers h"
  by (auto simp: norm_headers_def split: option.splits list.splits)

lemma norm_msg_idem [simp]: "norm_msg (norm_msg m) = norm_msg m"
  by (simp add: norm_msg_def)

lemma norm_msg_fields [simp]:
  "m_id (norm_msg m) = m_id m" "m_corr (norm_msg m) = m_corr m"
  "m_payload (norm_msg m) = m_payload m" "m_headers (norm_msg m) = norm_headers (m_headers m)"
  by (simp_all add: norm_msg_def)

definition sample_msg :: msg where
  "sample_msg = \<lparr>m_id = ''m1'', m_corr = None, m_headers = None, m_payload = []\<rparr>"

section \<open>The broker interface\<close>

text \<open>
  \<open>pub e m b\<close> is one call of \<open>publish\<close>: \<open>e\<close> is what the network and the server do during the call,
  \<open>b\<close> the publisher's state, \<open>acc b\<close> the messages the server has stored so far. A call that returns
  means the server stored the message; a call that raises promises nothing about this message, but
  nothing stored before is lost.
\<close>

locale broker =
  fixes pub :: "'e \<Rightarrow> msg \<Rightarrow> 'b \<Rightarrow> unit res \<times> 'b"
    and acc :: "'b \<Rightarrow> msg set"
  assumes pub_ok: "pub e m b = (Inr u, b') \<Longrightarrow> acc b' = insert (norm_msg m) (acc b)"
    and pub_err: "pub e m b = (Inl x, b') \<Longrightarrow> acc b \<subseteq> acc b' \<and> acc b' \<subseteq> insert (norm_msg m) (acc b)"
begin

lemma pub_grows: "pub e m b = (r, b') \<Longrightarrow> acc b \<subseteq> acc b'"
  using pub_ok pub_err by (cases r) blast+

lemma pub_at_most: "pub e m b = (r, b') \<Longrightarrow> acc b' \<subseteq> insert (norm_msg m) (acc b)"
  using pub_ok pub_err by (cases r) blast+

lemma pub_accepted: "pub e m b = (Inr u, b') \<Longrightarrow> norm_msg m \<in> acc b'"
  using pub_ok by blast

end

section \<open>The message store interface\<close>

text \<open>
  \<open>held s\<close> are the messages that survive a restart, pending or dead-lettered; \<open>pend s i\<close> is the
  pending message with row id \<open>i\<close>. \<open>good e\<close> says that a failing call leaves no half-done
  transaction behind, \<open>used s i\<close> that row id \<open>i\<close> has been given out. A call that returns has made
  its effect durable, a call that raises has changed nothing durable, a call touches no row but the
  one it names, and an id is never given to a second message.
\<close>

locale message_store =
  fixes good :: "'e \<Rightarrow> bool"
    and inv :: "'s \<Rightarrow> bool"
    and held :: "'s \<Rightarrow> msg set"
    and pend :: "'s \<Rightarrow> int \<Rightarrow> msg option"
    and used :: "'s \<Rightarrow> int \<Rightarrow> bool"
    and enq :: "'e \<Rightarrow> msg \<Rightarrow> string option \<Rightarrow> 's \<Rightarrow> int res \<times> 's"
    and del :: "'e \<Rightarrow> int \<Rightarrow> 's \<Rightarrow> unit res \<times> 's"
    and mark :: "'e \<Rightarrow> int \<Rightarrow> string \<Rightarrow> 's \<Rightarrow> unit res \<times> 's"
    and kill :: "'e \<Rightarrow> int \<Rightarrow> string \<Rightarrow> 's \<Rightarrow> bool res \<times> 's"
  assumes enq_inv: "good e \<Longrightarrow> inv s \<Longrightarrow> enq e m err s = (r, s') \<Longrightarrow> inv s'"
    and del_inv: "good e \<Longrightarrow> inv s \<Longrightarrow> del e i s = (r', s') \<Longrightarrow> inv s'"
    and mark_inv: "good e \<Longrightarrow> inv s \<Longrightarrow> mark e i t s = (r', s') \<Longrightarrow> inv s'"
    and kill_inv: "good e \<Longrightarrow> inv s \<Longrightarrow> kill e i t s = (r2, s') \<Longrightarrow> inv s'"
    and enq_ok: "good e \<Longrightarrow> inv s \<Longrightarrow> enq e m err s = (Inr i, s') \<Longrightarrow>
      held s' = insert (norm_msg m) (held s)"
    and enq_err: "good e \<Longrightarrow> inv s \<Longrightarrow> enq e m err s = (Inl x, s') \<Longrightarrow> held s' = held s"
    and del_held: "good e \<Longrightarrow> inv s \<Longrightarrow> del e i s = (r', s') \<Longrightarrow>
      held s \<subseteq> held s' \<union> set_option (pend s i) \<and> held s' \<subseteq> held s"
    and mark_held: "good e \<Longrightarrow> inv s \<Longrightarrow> mark e i t s = (r', s') \<Longrightarrow> held s' = held s"
    and kill_held: "good e \<Longrightarrow> inv s \<Longrightarrow> kill e i t s = (r2, s') \<Longrightarrow> held s' = held s"
    and enq_pend: "good e \<Longrightarrow> inv s \<Longrightarrow> enq e m err s = (r, s') \<Longrightarrow> used s j \<Longrightarrow>
      used s' j \<and> set_option (pend s' j) \<subseteq> set_option (pend s j)"
    and del_pend: "good e \<Longrightarrow> inv s \<Longrightarrow> del e i s = (r', s') \<Longrightarrow> used s j \<Longrightarrow>
      used s' j \<and> set_option (pend s' j) \<subseteq> set_option (pend s j)"
    and mark_pend: "good e \<Longrightarrow> inv s \<Longrightarrow> mark e i t s = (r', s') \<Longrightarrow> used s j \<Longrightarrow>
      used s' j \<and> set_option (pend s' j) \<subseteq> set_option (pend s j)"
    and kill_pend: "good e \<Longrightarrow> inv s \<Longrightarrow> kill e i t s = (r2, s') \<Longrightarrow> used s j \<Longrightarrow>
      used s' j \<and> set_option (pend s' j) \<subseteq> set_option (pend s j)"
begin

text \<open>A client that fetched a row knows its id and its message for good.\<close>

lemma knows_row:
  assumes "used s i \<and> set_option (pend s i) \<subseteq> {m}" "good e" "inv s"
  shows "enq e m' err s = (r, s') \<Longrightarrow> used s' i \<and> set_option (pend s' i) \<subseteq> {m}"
    and "del e j s = (r', s') \<Longrightarrow> used s' i \<and> set_option (pend s' i) \<subseteq> {m}"
    and "mark e j t s = (r', s') \<Longrightarrow> used s' i \<and> set_option (pend s' i) \<subseteq> {m}"
    and "kill e j t s = (r2, s') \<Longrightarrow> used s' i \<and> set_option (pend s' i) \<subseteq> {m}"
  using assms enq_pend [of e s m' err r s' i] del_pend [of e s j r' s' i]
    mark_pend [of e s j t r' s' i] kill_pend [of e s j t r2 s' i] by auto

lemma enq_keeps: "good e \<Longrightarrow> inv s \<Longrightarrow> enq e m err s = (r, s') \<Longrightarrow> held s \<subseteq> held s'"
  using enq_ok enq_err by (cases r) blast+

lemma enq_at_most:
  "good e \<Longrightarrow> inv s \<Longrightarrow> enq e m err s = (r, s') \<Longrightarrow> held s' \<subseteq> insert (norm_msg m) (held s)"
  using enq_ok enq_err by (cases r) blast+

end

end
