(* ===== verification/Outbox.thy ===== *)
theory Outbox
  imports Messaging "HOL-Library.Multiset"
begin

text \<open>
  \<open>messaging/outbox.py\<close>, class \<open>Outbox\<close>: the SQLite queue of messages the broker did not take.

  \<open>tables\<close> is the content of the two SQLite tables, with the \<open>AUTOINCREMENT\<close> counters of
  \<open>sqlite_sequence\<close>. The connection sees \<open>work\<close>; \<open>disk\<close> is the last committed state, which is what
  a restarted process reads. A database call may fail: \<open>DbFail k rb t\<close> says that \<open>k\<close> of the
  statements of the call took effect before SQLite raised an error with text \<open>t\<close>, and whether
  SQLite rolled the open transaction back (\<open>k\<close> at least the number of statements: the \<open>COMMIT\<close>
  failed). JSON columns are kept as the values they encode. Every operation runs under
  \<open>self._lock\<close>, hence is one step.
\<close>

section \<open>Tables and transactions\<close>

record row =
  row_id :: int
  row_mid :: string
  row_corr :: "string option"
  row_headers :: "hdrs option"
  row_payload :: obj
  row_enq_at :: clock
  row_retry :: nat
  row_err :: "string option"

record dead_row =
  dl_id :: int
  dl_mid :: string
  dl_corr :: "string option"
  dl_headers :: "hdrs option"
  dl_payload :: obj
  dl_enq_at :: clock
  dl_moved_at :: clock
  dl_retry :: nat
  dl_err :: "string option"

record tables =
  t_rows :: "row list"
  t_dead :: "dead_row list"
  t_seq :: int
  t_dead_seq :: int

record outbox =
  work :: tables
  disk :: tables
  pending_estimate :: int
  max_pending :: int

definition empty_tables :: tables where
  "empty_tables = \<lparr>t_rows = [], t_dead = [], t_seq = 0, t_dead_seq = 0\<rparr>"

datatype db_fault = DbOk | DbFail nat bool string

definition sqlite_error :: "string \<Rightarrow> pyexc" where
  "sqlite_error t = PyExc ''OperationalError'' t"

definition rollback :: "outbox \<Rightarrow> outbox" where
  "rollback ob = ob\<lparr>work := disk ob\<rparr>"

text \<open>The statements of one call followed by \<open>commit()\<close>; \<open>Some\<close> is the exception it raised.\<close>

definition db_write ::
  "db_fault \<Rightarrow> (tables \<Rightarrow> tables) list \<Rightarrow> outbox \<Rightarrow> pyexc option \<times> outbox" where
  "db_write f stmts ob = (case f of
       DbOk \<Rightarrow> (let w = fold (\<lambda>s t. s t) stmts (work ob)
               in (None, ob\<lparr>work := w, disk := w\<rparr>))
     | DbFail k rb t \<Rightarrow>
         (Some (sqlite_error t),
          if rb then rollback ob
          else ob\<lparr>work := fold (\<lambda>s t. s t) (take k stmts) (work ob)\<rparr>))"

section \<open>Operations\<close>

text \<open>
  \<open>__init__\<close>: opening the file \<open>d\<close> (the DDL creates missing tables). A failing \<open>COUNT\<close> leaves the
  estimate at zero.
\<close>

definition outbox_init :: "bool \<Rightarrow> int \<Rightarrow> tables \<Rightarrow> outbox" where
  "outbox_init count_ok limit d =
     \<lparr>work = d, disk = d,
      pending_estimate = (if count_ok then int (length (t_rows d)) else 0),
      max_pending = max 1000 limit\<rparr>"

definition outbox_full_error :: "outbox \<Rightarrow> pyexc" where
  "outbox_full_error ob = PyExc ''OutboxFullError''
     (''outbox dolu (pending~='' @ int_str (pending_estimate ob) @ '', limit='' @
      int_str (max_pending ob) @ ''); broker (NATS JetStream) uzun '' @
      ''suredir erisilemiyor olabilir'')"

definition mk_row :: "int \<Rightarrow> clock \<Rightarrow> msg \<Rightarrow> string option \<Rightarrow> row" where
  "mk_row i now m err =
     \<lparr>row_id = i, row_mid = m_id m, row_corr = m_corr m, row_headers = norm_headers (m_headers m),
      row_payload = m_payload m, row_enq_at = now, row_retry = 0, row_err = err\<rparr>"

definition insert_row :: "clock \<Rightarrow> msg \<Rightarrow> string option \<Rightarrow> tables \<Rightarrow> tables" where
  "insert_row now m err t =
     t\<lparr>t_rows := t_rows t @ [mk_row (t_seq t + 1) now m err], t_seq := t_seq t + 1\<rparr>"

definition enqueue ::
  "db_fault \<Rightarrow> clock \<Rightarrow> msg \<Rightarrow> string option \<Rightarrow> outbox \<Rightarrow> int res \<times> outbox" where
  "enqueue f now m err ob =
     (if pending_estimate ob \<ge> max_pending ob then (Inl (outbox_full_error ob), ob)
      else case db_write f [insert_row now m err] ob of
          (Some x, ob') \<Rightarrow> (Inl x, ob')
        | (None, ob') \<Rightarrow>
            (Inr (t_seq (work ob')), ob'\<lparr>pending_estimate := pending_estimate ob' + 1\<rparr>))"

text \<open>\<open>SELECT ... ORDER BY id ASC LIMIT ?\<close>; SQLite reads a negative limit as none.\<close>

definition fetch_batch :: "db_fault \<Rightarrow> int \<Rightarrow> outbox \<Rightarrow> row list res" where
  "fetch_batch f limit ob = (case f of
       DbFail k rb t \<Rightarrow> Inl (sqlite_error t)
     | DbOk \<Rightarrow> (let rs = sort_key row_id (t_rows (work ob))
               in Inr (if limit < 0 then rs else take (nat limit) rs)))"

definition delete_row :: "int \<Rightarrow> tables \<Rightarrow> tables" where
  "delete_row i t = t\<lparr>t_rows := filter (\<lambda>r. row_id r \<noteq> i) (t_rows t)\<rparr>"

definition row_count :: "int \<Rightarrow> tables \<Rightarrow> int" where
  "row_count i t = int (length (filter (\<lambda>r. row_id r = i) (t_rows t)))"

definition drop_estimate :: "int \<Rightarrow> outbox \<Rightarrow> outbox" where
  "drop_estimate n ob =
     (if n > 0 then ob\<lparr>pending_estimate := max 0 (pending_estimate ob - n)\<rparr> else ob)"

definition delete :: "db_fault \<Rightarrow> int \<Rightarrow> outbox \<Rightarrow> unit res \<times> outbox" where
  "delete f i ob = (case db_write f [delete_row i] ob of
       (Some x, ob') \<Rightarrow> (Inl x, ob')
     | (None, ob') \<Rightarrow> (Inr (), drop_estimate (row_count i (work ob)) ob'))"

definition bump_row :: "int \<Rightarrow> string \<Rightarrow> tables \<Rightarrow> tables" where
  "bump_row i err t = t\<lparr>t_rows := map (\<lambda>r. if row_id r = i
       then r\<lparr>row_retry := Suc (row_retry r), row_err := Some (take 2000 err)\<rparr> else r) (t_rows t)\<rparr>"

definition mark_retry :: "db_fault \<Rightarrow> int \<Rightarrow> string \<Rightarrow> outbox \<Rightarrow> unit res \<times> outbox" where
  "mark_retry f i err ob = (case db_write f [bump_row i err] ob of
       (Some x, ob') \<Rightarrow> (Inl x, ob')
     | (None, ob') \<Rightarrow> (Inr (), ob'))"

definition mk_dead :: "int \<Rightarrow> clock \<Rightarrow> string \<Rightarrow> row \<Rightarrow> dead_row" where
  "mk_dead i now err r =
     \<lparr>dl_id = i, dl_mid = row_mid r, dl_corr = row_corr r, dl_headers = row_headers r,
      dl_payload = row_payload r, dl_enq_at = row_enq_at r, dl_moved_at = now,
      dl_retry = row_retry r, dl_err = Some (take 2000 err)\<rparr>"

definition insert_dead :: "clock \<Rightarrow> string \<Rightarrow> row \<Rightarrow> tables \<Rightarrow> tables" where
  "insert_dead now err r t =
     t\<lparr>t_dead := t_dead t @ [mk_dead (t_dead_seq t + 1) now err r],
       t_dead_seq := t_dead_seq t + 1\<rparr>"

definition move_to_dead_letter ::
  "db_fault \<Rightarrow> clock \<Rightarrow> int \<Rightarrow> string \<Rightarrow> outbox \<Rightarrow> bool res \<times> outbox" where
  "move_to_dead_letter f now i err ob =
     (case find (\<lambda>r. row_id r = i) (t_rows (work ob)) of
        None \<Rightarrow> (case f of DbOk \<Rightarrow> (Inr False, ob)
                  | DbFail k rb t \<Rightarrow> (Inl (sqlite_error t), if rb then rollback ob else ob))
      | Some r \<Rightarrow> (case db_write f [insert_dead now err r, delete_row i] ob of
            (Some x, ob') \<Rightarrow> (Inl x, ob')
          | (None, ob') \<Rightarrow> (Inr True, drop_estimate (row_count i (work ob)) ob')))"

definition pending_count :: "outbox \<Rightarrow> int" where
  "pending_count ob = pending_estimate ob"

definition pending_count_exact :: "db_fault \<Rightarrow> outbox \<Rightarrow> int res" where
  "pending_count_exact f ob = (case f of DbOk \<Rightarrow> Inr (int (length (t_rows (work ob))))
     | DbFail k rb t \<Rightarrow> Inl (sqlite_error t))"

definition dead_letter_count :: "db_fault \<Rightarrow> outbox \<Rightarrow> int res" where
  "dead_letter_count f ob = (case f of DbOk \<Rightarrow> Inr (int (length (t_dead (work ob))))
     | DbFail k rb t \<Rightarrow> Inl (sqlite_error t))"

text \<open>
  \<open>close()\<close> drops the connection (an open transaction is rolled back); the next call reopens it.
  A crash of the process has the same effect on the file, and the new process counts again.
\<close>

definition outbox_close :: "outbox \<Rightarrow> outbox" where
  "outbox_close ob = rollback ob"

definition outbox_restart :: "outbox \<Rightarrow> outbox" where
  "outbox_restart ob = outbox_init True (max_pending ob) (disk ob)"

section \<open>What the rows mean\<close>

definition row_msg :: "row \<Rightarrow> msg" where
  \<comment> \<open>what \<open>publish_outbox_row\<close> publishes for a fetched row\<close>
  "row_msg r = \<lparr>m_id = row_mid r, m_corr = row_corr r, m_headers = row_headers r,
     m_payload = row_payload r\<rparr>"

definition dead_msg :: "dead_row \<Rightarrow> msg" where
  "dead_msg r = \<lparr>m_id = dl_mid r, m_corr = dl_corr r, m_headers = dl_headers r,
     m_payload = dl_payload r\<rparr>"

definition tab_msgs :: "tables \<Rightarrow> msg set" where
  "tab_msgs t = row_msg ` set (t_rows t) \<union> dead_msg ` set (t_dead t)"

definition tab_ok :: "tables \<Rightarrow> bool" where
  "tab_ok t \<longleftrightarrow> sorted_wrt (<) (map row_id (t_rows t)) \<and> (\<forall>r \<in> set (t_rows t). row_id r \<le> t_seq t)"

definition ob_inv :: "outbox \<Rightarrow> bool" where
  "ob_inv ob \<longleftrightarrow> tab_ok (work ob) \<and> tab_ok (disk ob) \<and> 0 \<le> pending_estimate ob \<and> 1000 \<le> max_pending ob"

definition settled :: "outbox \<Rightarrow> bool" where
  \<comment> \<open>no open transaction\<close>
  "settled ob \<longleftrightarrow> work ob = disk ob"

fun clean_fault :: "db_fault \<Rightarrow> bool" where
  \<comment> \<open>a failing call that leaves no half-done transaction behind\<close>
  "clean_fault DbOk = True"
| "clean_fault (DbFail k rb t) = (k = 0 \<or> rb)"

named_theorems ob_ops \<open>definitions of the outbox operations\<close>

declare enqueue_def [ob_ops] delete_def [ob_ops] mark_retry_def [ob_ops]
  move_to_dead_letter_def [ob_ops] db_write_def [ob_ops] rollback_def [ob_ops]
  drop_estimate_def [ob_ops]

lemma row_msg_mk_row [simp]: "row_msg (mk_row i now m err) = norm_msg m"
  by (simp add: row_msg_def mk_row_def norm_msg_def)

lemma row_id_mk_row [simp]: "row_id (mk_row i now m err) = i"
  by (simp add: mk_row_def)

lemma dead_msg_mk_dead [simp]: "dead_msg (mk_dead i now err r) = row_msg r"
  by (simp add: dead_msg_def mk_dead_def row_msg_def)

section \<open>The invariant, under every fault\<close>

lemma tab_ok_empty [simp]: "tab_ok empty_tables"
  by (simp add: tab_ok_def empty_tables_def)

lemma tab_ok_insert_row [simp]: "tab_ok t \<Longrightarrow> tab_ok (insert_row now m err t)"
  by (fastforce simp: tab_ok_def insert_row_def sorted_wrt_append)

lemma tab_ok_delete_row [simp]: "tab_ok t \<Longrightarrow> tab_ok (delete_row i t)"
  by (auto simp: tab_ok_def delete_row_def sorted_wrt_less_filter)

lemma bump_row_ids [simp]: "map row_id (t_rows (bump_row i err t)) = map row_id (t_rows t)"
  by (simp add: bump_row_def)

lemma bump_row_msgs [simp]: "map row_msg (t_rows (bump_row i err t)) = map row_msg (t_rows t)"
  by (simp add: bump_row_def row_msg_def)

lemma bump_row_frame [simp]:
  "t_dead (bump_row i err t) = t_dead t" "t_seq (bump_row i err t) = t_seq t"
  "t_dead_seq (bump_row i err t) = t_dead_seq t"
  by (simp_all add: bump_row_def)

lemma tab_ok_bump_row [simp]: "tab_ok t \<Longrightarrow> tab_ok (bump_row i err t)"
proof -
  assume ok: "tab_ok t"
  have "row_id ` set (t_rows (bump_row i err t)) = row_id ` set (t_rows t)"
    by (metis bump_row_ids set_map)
  with ok show ?thesis
    unfolding tab_ok_def bump_row_ids bump_row_frame by (metis (no_types, lifting) imageE imageI)
qed

lemma tab_ok_insert_dead [simp]: "tab_ok t \<Longrightarrow> tab_ok (insert_dead now err r t)"
  by (simp add: tab_ok_def insert_dead_def)

lemma tab_ok_fold:
  "\<forall>s \<in> set stmts. \<forall>t. tab_ok t \<longrightarrow> tab_ok (s t) \<Longrightarrow> tab_ok t \<Longrightarrow>
   tab_ok (fold (\<lambda>s t. s t) stmts t)"
  by (induction stmts arbitrary: t) auto

lemma db_write_inv:
  assumes "\<forall>s \<in> set stmts. \<forall>t. tab_ok t \<longrightarrow> tab_ok (s t)" "ob_inv ob"
    "db_write f stmts ob = (r, ob')"
  shows "ob_inv ob' \<and> pending_estimate ob' = pending_estimate ob \<and> max_pending ob' = max_pending ob"
proof -
  have "tab_ok (fold (\<lambda>s t. s t) (take k stmts) (work ob))" for k
    using assms(1,2) by (intro tab_ok_fold) (auto simp: ob_inv_def dest: in_set_takeD)
  moreover have "tab_ok (fold (\<lambda>s t. s t) stmts (work ob))"
    using assms(1,2) by (intro tab_ok_fold) (auto simp: ob_inv_def)
  ultimately show ?thesis
    using assms(2,3) by (auto simp: db_write_def ob_inv_def rollback_def Let_def split: db_fault.splits)
qed

lemma drop_estimate_inv [simp]: "ob_inv ob \<Longrightarrow> ob_inv (drop_estimate n ob)"
  by (simp add: ob_inv_def drop_estimate_def)

lemma outbox_init_inv: "tab_ok d \<Longrightarrow> ob_inv (outbox_init b limit d)"
  by (simp add: ob_inv_def outbox_init_def)

lemma enqueue_inv: "ob_inv ob \<Longrightarrow> enqueue f now m err ob = (r, ob') \<Longrightarrow> ob_inv ob'"
proof -
  assume inv: "ob_inv ob" and e: "enqueue f now m err ob = (r, ob')"
  obtain x w where w: "db_write f [insert_row now m err] ob = (x, w)" by fastforce
  have "ob_inv w" using db_write_inv [OF _ inv w] by simp
  with inv e w show ?thesis
    by (auto simp: enqueue_def ob_inv_def split: if_splits option.splits)
qed

lemma delete_inv: "ob_inv ob \<Longrightarrow> delete f i ob = (r, ob') \<Longrightarrow> ob_inv ob'"
proof -
  assume inv: "ob_inv ob" and e: "delete f i ob = (r, ob')"
  obtain x w where w: "db_write f [delete_row i] ob = (x, w)" by fastforce
  have "ob_inv w" using db_write_inv [OF _ inv w] by simp
  with e w show ?thesis by (auto simp: delete_def split: option.splits)
qed

lemma mark_retry_inv: "ob_inv ob \<Longrightarrow> mark_retry f i err ob = (r, ob') \<Longrightarrow> ob_inv ob'"
proof -
  assume inv: "ob_inv ob" and e: "mark_retry f i err ob = (r, ob')"
  obtain x w where w: "db_write f [bump_row i err] ob = (x, w)" by fastforce
  have "ob_inv w" using db_write_inv [OF _ inv w] by simp
  with e w show ?thesis by (auto simp: mark_retry_def split: option.splits)
qed

lemma move_inv: "ob_inv ob \<Longrightarrow> move_to_dead_letter f now i err ob = (r, ob') \<Longrightarrow> ob_inv ob'"
proof -
  assume inv: "ob_inv ob" and e: "move_to_dead_letter f now i err ob = (r, ob')"
  show ?thesis
  proof (cases "find (\<lambda>r. row_id r = i) (t_rows (work ob))")
    case None
    with inv e show ?thesis
      by (auto simp: move_to_dead_letter_def ob_inv_def rollback_def split: db_fault.splits if_splits)
  next
    case (Some q)
    obtain x w where w: "db_write f [insert_dead now err q, delete_row i] ob = (x, w)" by fastforce
    have "ob_inv w" using db_write_inv [OF _ inv w] by simp
    with e w Some show ?thesis
      by (auto simp: move_to_dead_letter_def split: option.splits)
  qed
qed

text \<open>An outbox opened on a new file, and one holding one message, for the instances below.\<close>

definition sample_outbox :: outbox where
  "sample_outbox = outbox_init True 5 empty_tables"

definition sample_stored :: outbox where
  "sample_stored = snd (enqueue DbOk 7 sample_msg None sample_outbox)"

lemma sample_outbox_ok: "ob_inv sample_outbox"
  by (simp add: sample_outbox_def outbox_init_inv)

lemma sample_stored_ok: "ob_inv sample_stored"
  unfolding sample_stored_def by (rule enqueue_inv [OF sample_outbox_ok surjective_pairing])

section \<open>Durability and capacity\<close>

lemma db_write_ok:
  "db_write f stmts ob = (None, ob') \<Longrightarrow>
   work ob' = fold (\<lambda>s t. s t) stmts (work ob) \<and> disk ob' = work ob' \<and>
   pending_estimate ob' = pending_estimate ob \<and> max_pending ob' = max_pending ob"
  by (auto simp: db_write_def Let_def split: db_fault.splits)

lemma db_write_clean_err:
  "db_write f stmts ob = (Some x, ob') \<Longrightarrow> clean_fault f \<Longrightarrow> settled ob \<Longrightarrow> ob' = ob"
  by (auto simp: db_write_def rollback_def settled_def Let_def split: db_fault.splits if_splits)

lemma db_write_ok_iff: "fst (db_write f stmts ob) = None \<longleftrightarrow> f = DbOk"
  by (auto simp: db_write_def Let_def split: db_fault.splits)

lemma fresh_id:
  "tab_ok t \<Longrightarrow> r \<in> set (t_rows t) \<Longrightarrow> row_id r < t_seq t + 1"
  by (auto simp: tab_ok_def)

text \<open>C10: An \<open>enqueue\<close> that returns a row id has committed the message: the row is the last one of the
  file, under an id no other row has, whatever database faults happened before, and a process that
  restarts on the file finds it.\<close>

theorem enqueue_durable:
  assumes "ob_inv ob" and "enqueue f now m err ob = (Inr i, ob')"
  shows "t_rows (disk ob') = t_rows (work ob) @ [mk_row i now m err] \<and>
    (\<forall>r \<in> set (t_rows (work ob)). row_id r < i) \<and>
    t_rows (work (outbox_restart ob')) = t_rows (work ob')"
proof -
  obtain w where w: "db_write f [insert_row now m err] ob = (None, w)"
    and i: "i = t_seq (work w)" and ob': "ob' = w\<lparr>pending_estimate := pending_estimate w + 1\<rparr>"
    using assms(2) by (auto simp: enqueue_def split: if_splits option.splits prod.splits)
  note ww = db_write_ok [OF w]
  have i1: "i = t_seq (work ob) + 1"
    using ww i by (simp add: insert_row_def)
  have "t_rows (disk ob') = t_rows (work ob) @ [mk_row i now m err]"
    using ww i1 by (simp add: ob' insert_row_def)
  moreover have "\<forall>r \<in> set (t_rows (work ob)). row_id r < i"
    using assms(1) fresh_id i1 by (auto simp: ob_inv_def)
  moreover have "t_rows (work (outbox_restart ob')) = t_rows (work ob')"
    using ww by (simp add: ob' outbox_restart_def outbox_init_def)
  ultimately show ?thesis by blast
qed

theorem enqueue_durable_witness:
  "t_rows (disk sample_stored) = [mk_row 1 7 sample_msg None]"
proof -
  have "enqueue DbOk 7 sample_msg None sample_outbox = (Inr 1, sample_stored)"
    by (simp add: sample_stored_def sample_outbox_def enqueue_def outbox_init_def db_write_def
        empty_tables_def insert_row_def Let_def)
  from enqueue_durable [OF sample_outbox_ok this] show ?thesis
    by (simp add: sample_outbox_def outbox_init_def empty_tables_def)
qed

text \<open>\<open>enqueue\<close> raises \<open>OutboxFullError\<close> exactly when the estimate has reached the limit, and
  then leaves the outbox as it was.\<close>

theorem enqueue_full_iff:
  "(\<exists>x. enqueue f now m err ob = (Inl x, ob) \<and> exc_class x = ''OutboxFullError'') \<longleftrightarrow>
   max_pending ob \<le> pending_estimate ob"
proof
  assume "\<exists>x. enqueue f now m err ob = (Inl x, ob) \<and> exc_class x = ''OutboxFullError''"
  then obtain x where x: "enqueue f now m err ob = (Inl x, ob)" "exc_class x = ''OutboxFullError''"
    by blast
  show "max_pending ob \<le> pending_estimate ob"
  proof (rule ccontr)
    assume "\<not> max_pending ob \<le> pending_estimate ob"
    with x show False
      by (auto simp: enqueue_def db_write_def sqlite_error_def Let_def
            split: if_splits option.splits prod.splits db_fault.splits)
  qed
next
  assume "max_pending ob \<le> pending_estimate ob"
  then show "\<exists>x. enqueue f now m err ob = (Inl x, ob) \<and> exc_class x = ''OutboxFullError''"
    by (simp add: enqueue_def outbox_full_error_def)
qed

section \<open>The queue the outbox implements\<close>

text \<open>The abstract queue: row ids with their messages, oldest first.\<close>

definition ob_queue :: "outbox \<Rightarrow> (int \<times> msg) list" where
  "ob_queue ob = map (\<lambda>r. (row_id r, row_msg r)) (t_rows (work ob))"

definition counted :: "outbox \<Rightarrow> bool" where
  "counted ob \<longleftrightarrow> pending_estimate ob = int (length (t_rows (work ob)))"

lemma row_count_01:
  assumes "tab_ok t"
  shows "row_count i t = (if i \<in> row_id ` set (t_rows t) then 1 else 0)"
proof (cases "i \<in> row_id ` set (t_rows t)")
  case True
  then have "filter (\<lambda>r. row_id r = i) (t_rows t) \<noteq> []"
    by (auto simp: filter_empty_conv)
  moreover have "length (filter (\<lambda>r. row_id r = i) (t_rows t)) \<le> 1"
    using assms by (intro length_filter_id_le1 sorted_wrt_less_distinct) (simp add: tab_ok_def)
  ultimately have "length (filter (\<lambda>r. row_id r = i) (t_rows t)) = 1"
    by (metis One_nat_def Suc_leI le_antisym length_greater_0_conv)
  with True show ?thesis by (simp add: row_count_def)
next
  case False
  then have "filter (\<lambda>r. row_id r = i) (t_rows t) = []"
    by (auto simp: filter_empty_conv)
  with False show ?thesis by (simp add: row_count_def)
qed

lemma length_delete_row:
  "int (length (t_rows (delete_row i t))) = int (length (t_rows t)) - row_count i t"
  using sum_length_filter_compl [of "\<lambda>r. row_id r = i" "t_rows t"]
  by (simp add: delete_row_def row_count_def)

lemma ob_queue_take: "ob_inv ob \<Longrightarrow> fetch_batch DbOk n ob = Inr rs \<Longrightarrow> 0 \<le> n \<Longrightarrow>
  rs = take (nat n) (t_rows (work ob))"
  by (simp add: fetch_batch_def Let_def ob_inv_def tab_ok_def sort_key_sorted_id)

text \<open>C9: As long as the database answers, the outbox is a FIFO queue: \<open>enqueue\<close> appends the message
  under a new largest id, \<open>fetch_batch\<close> returns the oldest entries in order, \<open>delete\<close> removes exactly
  the named entry, \<open>mark_retry\<close> keeps the queue, and the O(1) counter stays the exact length.\<close>

theorem outbox_refines_queue:
  assumes inv: "ob_inv ob" and cnt: "counted ob" and room: "pending_estimate ob < max_pending ob"
  shows "(\<exists>i ob'. enqueue DbOk now m err ob = (Inr i, ob') \<and> counted ob' \<and>
      ob_queue ob' = ob_queue ob @ [(i, norm_msg m)]) \<and>
    (\<exists>rs. fetch_batch DbOk (int n) ob = Inr rs \<and>
      map (\<lambda>r. (row_id r, row_msg r)) rs = take n (ob_queue ob)) \<and>
    (\<exists>ob'. delete DbOk j ob = (Inr (), ob') \<and> counted ob' \<and>
      ob_queue ob' = filter (\<lambda>(k, _). k \<noteq> j) (ob_queue ob)) \<and>
    (\<exists>ob'. mark_retry DbOk j err' ob = (Inr (), ob') \<and> counted ob' \<and> ob_queue ob' = ob_queue ob)"
proof (intro conjI)
  show "\<exists>i ob'. enqueue DbOk now m err ob = (Inr i, ob') \<and> counted ob' \<and>
      ob_queue ob' = ob_queue ob @ [(i, norm_msg m)]"
    using cnt room
    by (simp add: enqueue_def db_write_def Let_def insert_row_def ob_queue_def counted_def)
  show "\<exists>rs. fetch_batch DbOk (int n) ob = Inr rs \<and>
      map (\<lambda>r. (row_id r, row_msg r)) rs = take n (ob_queue ob)"
    using ob_queue_take [OF inv, of "int n"] by (simp add: fetch_batch_def Let_def ob_queue_def take_map)
  have "counted (drop_estimate (row_count j (work ob))
      (ob\<lparr>work := delete_row j (work ob), disk := delete_row j (work ob)\<rparr>))"
    using cnt length_delete_row [of j "work ob"] row_count_01 [of "work ob" j] inv
    by (auto simp: counted_def drop_estimate_def ob_inv_def)
  then show "\<exists>ob'. delete DbOk j ob = (Inr (), ob') \<and> counted ob' \<and>
      ob_queue ob' = filter (\<lambda>(k, _). k \<noteq> j) (ob_queue ob)"
    by (simp add: delete_def db_write_def Let_def ob_queue_def drop_estimate_def delete_row_def
        filter_map o_def case_prod_unfold)
  have "ob_queue (ob\<lparr>work := bump_row j err' (work ob), disk := bump_row j err' (work ob)\<rparr>) = ob_queue ob"
    by (auto simp: ob_queue_def bump_row_def row_msg_def)
  moreover have "length (t_rows (bump_row j err' (work ob))) = length (t_rows (work ob))"
    by (simp add: bump_row_def)
  ultimately show "\<exists>ob'. mark_retry DbOk j err' ob = (Inr (), ob') \<and> counted ob' \<and> ob_queue ob' = ob_queue ob"
    using cnt by (simp add: mark_retry_def db_write_def Let_def counted_def)
qed

theorem outbox_refines_queue_witness:
  "\<exists>i ob'. enqueue DbOk 7 sample_msg None sample_outbox = (Inr i, ob') \<and>
     ob_queue ob' = [(i, norm_msg sample_msg)]"
proof -
  have "counted sample_outbox" "pending_estimate sample_outbox < max_pending sample_outbox"
      "ob_queue sample_outbox = []"
    by (simp_all add: sample_outbox_def counted_def outbox_init_def empty_tables_def ob_queue_def)
  then show ?thesis
    using outbox_refines_queue [OF sample_outbox_ok, of 7 sample_msg None 0 0 "[]"] by auto
qed

section \<open>How far the O(1) counter can drift\<close>

text \<open>
  The calls of the poller and of the retrier thread, in the order they take the lock.
\<close>

datatype ob_op =
    OpEnqueue db_fault clock msg "string option"
  | OpDelete db_fault int
  | OpRetry db_fault int string
  | OpDead db_fault clock int string
  | OpClose

fun ob_step :: "ob_op \<Rightarrow> outbox \<Rightarrow> outbox" where
  "ob_step (OpEnqueue f now m err) ob = snd (enqueue f now m err ob)"
| "ob_step (OpDelete f i) ob = snd (delete f i ob)"
| "ob_step (OpRetry f i err) ob = snd (mark_retry f i err ob)"
| "ob_step (OpDead f now i err) ob = snd (move_to_dead_letter f now i err ob)"
| "ob_step OpClose ob = outbox_close ob"

fun op_fault :: "ob_op \<Rightarrow> db_fault" where
  "op_fault (OpEnqueue f now m err) = f"
| "op_fault (OpDelete f i) = f"
| "op_fault (OpRetry f i err) = f"
| "op_fault (OpDead f now i err) = f"
| "op_fault OpClose = DbOk"

definition failures :: "ob_op list \<Rightarrow> int" where
  "failures ops = int (length (filter (\<lambda>c. op_fault c \<noteq> DbOk) ops))"

definition n_rows :: "tables \<Rightarrow> int" where
  "n_rows t = int (length (t_rows t))"

definition drift :: "outbox \<Rightarrow> int" where
  "drift ob = \<bar>pending_estimate ob - n_rows (disk ob)\<bar> + \<bar>n_rows (work ob) - n_rows (disk ob)\<bar>"

lemma ob_step_inv: "ob_inv ob \<Longrightarrow> ob_inv (ob_step c ob)"
  by (cases c)
    (simp_all add: enqueue_inv [OF _ surjective_pairing] delete_inv [OF _ surjective_pairing]
      mark_retry_inv [OF _ surjective_pairing] move_inv [OF _ surjective_pairing] outbox_close_def,
      simp add: ob_inv_def rollback_def)

lemma n_rows_simps [simp]:
  "n_rows (insert_row now m err t) = n_rows t + 1"
  "n_rows (bump_row i e t) = n_rows t"
  "n_rows (insert_dead now e r t) = n_rows t"
  "n_rows (delete_row i t) = n_rows t - row_count i t"
  by (simp_all add: n_rows_def insert_row_def bump_row_def insert_dead_def length_delete_row)

lemma drift_failed:
  assumes "\<And>k. \<bar>n_rows (fold (\<lambda>s t. s t) (take k stmts) (work ob)) - n_rows (work ob)\<bar> \<le> 1"
    and "db_write f stmts ob = (Some x, ob')"
  shows "drift ob' \<le> drift ob + 1"
proof -
  obtain k rb t where f: "f = DbFail k rb t"
    using assms(2) by (cases f) (auto simp: db_write_def Let_def)
  show ?thesis
    using assms(1) [of k] assms(2)
    by (cases rb) (auto simp: f db_write_def drift_def rollback_def)
qed

lemma drift_committed:
  assumes "disk ob' = work ob'"
    and "\<bar>pending_estimate ob' - n_rows (work ob')\<bar> \<le> \<bar>pending_estimate ob - n_rows (work ob)\<bar>"
  shows "drift ob' \<le> drift ob"
  using assms by (simp add: drift_def)

lemma db_write_failed_fault: "db_write f stmts ob = (Some x, ob') \<Longrightarrow> f \<noteq> DbOk"
  by (auto simp: db_write_def Let_def)

lemma take_one: "take k [s] = (if k = 0 then [] else [s])"
  by (cases k) simp_all

lemma take_two: "take k [s, s'] = (if k = 0 then [] else if k = 1 then [s] else [s, s'])"
  by (cases k) (auto simp: take_one)

lemma drop_estimate_close:
  "0 \<le> pending_estimate ob \<Longrightarrow> 0 \<le> w - n \<Longrightarrow> 0 \<le> n \<Longrightarrow> n \<le> 1 \<Longrightarrow>
   \<bar>pending_estimate (drop_estimate n ob) - (w - n)\<bar> \<le> \<bar>pending_estimate ob - w\<bar>"
  by (auto simp: drop_estimate_def)

lemma drop_estimate_frame [simp]:
  "work (drop_estimate n ob) = work ob" "disk (drop_estimate n ob) = disk ob"
  "max_pending (drop_estimate n ob) = max_pending ob"
  by (simp_all add: drop_estimate_def)

lemma row_count_bounds: "tab_ok t \<Longrightarrow> 0 \<le> row_count i t \<and> row_count i t \<le> 1 \<and> row_count i t \<le> n_rows t"
  by (auto simp: row_count_01 n_rows_def neq_Nil_conv Suc_le_eq length_greater_0_conv simp del: length_greater_0_conv)

lemma drift_enqueue:
  assumes "ob_inv ob" "enqueue f now m err ob = (r, ob')"
  shows "drift ob' \<le> drift ob + (if f = DbOk then 0 else 1)"
proof -
  obtain x w where w: "db_write f [insert_row now m err] ob = (x, w)" by fastforce
  show ?thesis
  proof (cases x)
    case None
    with w assms(2) show ?thesis
      using db_write_ok [of f "[insert_row now m err]" ob w]
      by (auto simp: enqueue_def drift_def split: if_splits)
  next
    case (Some y)
    have "drift w \<le> drift ob + 1"
      using w Some by (intro drift_failed) (auto simp: take_one)
    with w Some assms(2) db_write_failed_fault [of f "[insert_row now m err]" ob] show ?thesis
      by (auto simp: enqueue_def split: if_splits)
  qed
qed

lemma drift_delete:
  assumes "ob_inv ob" "delete f i ob = (r, ob')"
  shows "drift ob' \<le> drift ob + (if f = DbOk then 0 else 1)"
proof -
  obtain x w where w: "db_write f [delete_row i] ob = (x, w)" by fastforce
  have rc: "0 \<le> row_count i (work ob) \<and> row_count i (work ob) \<le> 1 \<and> row_count i (work ob) \<le> n_rows (work ob)"
    using assms(1) by (intro row_count_bounds) (simp add: ob_inv_def)
  show ?thesis
  proof (cases x)
    case None
    note ww = db_write_ok [OF w [unfolded None]]
    have "drift (drop_estimate (row_count i (work ob)) w) \<le> drift ob"
      using ww rc assms(1) drop_estimate_close [of w "n_rows (work ob)" "row_count i (work ob)"]
      by (intro drift_committed) (auto simp: ob_inv_def)
    with w None assms(2) show ?thesis by (auto simp: delete_def)
  next
    case (Some y)
    have "drift w \<le> drift ob + 1"
      using w Some rc by (intro drift_failed) (auto simp: take_one)
    with w Some assms(2) db_write_failed_fault [of f "[delete_row i]" ob] show ?thesis
      by (auto simp: delete_def)
  qed
qed

lemma drift_mark_retry:
  assumes "mark_retry f i err ob = (r, ob')"
  shows "drift ob' \<le> drift ob + (if f = DbOk then 0 else 1)"
proof -
  obtain x w where w: "db_write f [bump_row i err] ob = (x, w)" by fastforce
  show ?thesis
  proof (cases x)
    case None
    with w assms show ?thesis
      using db_write_ok [of f "[bump_row i err]" ob w]
      by (auto simp: mark_retry_def drift_def)
  next
    case (Some y)
    have "drift w \<le> drift ob + 1"
      using w Some by (intro drift_failed) (auto simp: take_one)
    with w Some assms db_write_failed_fault [of f "[bump_row i err]" ob] show ?thesis
      by (auto simp: mark_retry_def)
  qed
qed

lemma drift_move:
  assumes "ob_inv ob" "move_to_dead_letter f now i err ob = (r, ob')"
  shows "drift ob' \<le> drift ob + (if f = DbOk then 0 else 1)"
proof (cases "find (\<lambda>r. row_id r = i) (t_rows (work ob))")
  case None
  with assms show ?thesis
    by (auto simp: move_to_dead_letter_def drift_def rollback_def split: db_fault.splits if_splits)
next
  case (Some q)
  let ?stmts = "[insert_dead now err q, delete_row i]"
  obtain x w where w: "db_write f ?stmts ob = (x, w)" by fastforce
  have rcd: "row_count i (insert_dead now err q t) = row_count i t" for t
    by (simp add: row_count_def insert_dead_def)
  have rc: "0 \<le> row_count i (work ob) \<and> row_count i (work ob) \<le> 1 \<and> row_count i (work ob) \<le> n_rows (work ob)"
    using assms(1) by (intro row_count_bounds) (simp add: ob_inv_def)
  show ?thesis
  proof (cases x)
    case None
    note ww = db_write_ok [OF w [unfolded None]]
    have "drift (drop_estimate (row_count i (work ob)) w) \<le> drift ob"
      using ww rc assms(1) drop_estimate_close [of w "n_rows (work ob)" "row_count i (work ob)"]
      by (intro drift_committed) (auto simp: ob_inv_def rcd)
    with w None Some assms(2) show ?thesis by (auto simp: move_to_dead_letter_def)
  next
    case (Some y)
    have "drift w \<le> drift ob + 1"
      using w Some rc by (intro drift_failed) (auto simp: take_two rcd)
    with w Some \<open>find _ _ = Some q\<close> assms(2) db_write_failed_fault [of f ?stmts ob] show ?thesis
      by (auto simp: move_to_dead_letter_def)
  qed
qed

lemma drift_step:
  assumes "ob_inv ob"
  shows "drift (ob_step c ob) \<le> drift ob + (if op_fault c = DbOk then 0 else 1)"
proof (cases c)
  case (OpEnqueue f now m err)
  then show ?thesis using drift_enqueue [OF assms, of f now m err] by (cases "enqueue f now m err ob") simp
next
  case (OpDelete f i)
  then show ?thesis using drift_delete [OF assms, of f i] by (cases "delete f i ob") simp
next
  case (OpRetry f i err)
  then show ?thesis using drift_mark_retry [of f i err ob] by (cases "mark_retry f i err ob") simp
next
  case (OpDead f now i err)
  then show ?thesis using drift_move [OF assms, of f now i err] by (cases "move_to_dead_letter f now i err ob") simp
next
  case OpClose
  then show ?thesis by (simp add: outbox_close_def rollback_def drift_def)
qed

lemma drift_run:
  "ob_inv ob \<Longrightarrow> drift (fold ob_step ops ob) \<le> drift ob + failures ops"
proof (induction ops arbitrary: ob)
  case (Cons c ops)
  then show ?case
    using drift_step [OF Cons.prems, of c] Cons.IH [OF ob_step_inv [OF Cons.prems, of c]]
    by (auto simp: failures_def)
qed (simp add: failures_def)

text \<open>C32: The in-memory counter that replaces \<open>SELECT COUNT(*)\<close> is off by at most the number of
  database calls that failed since the file was opened, whatever the calls and whatever the failures
  left in the open transaction; with no failure it is exact.\<close>

theorem pending_estimate_drift:
  assumes "tab_ok d"
  shows "\<bar>pending_count (fold ob_step ops (outbox_init True limit d))
     - n_rows (work (fold ob_step ops (outbox_init True limit d)))\<bar> \<le> failures ops"
proof -
  let ?ob = "fold ob_step ops (outbox_init True limit d)"
  have "drift ?ob \<le> drift (outbox_init True limit d) + failures ops"
    using assms by (intro drift_run outbox_init_inv)
  also have "drift (outbox_init True limit d) = 0"
    by (simp add: drift_def outbox_init_def n_rows_def)
  finally show ?thesis by (simp add: drift_def pending_count_def)
qed

theorem pending_estimate_drift_witness:
  "\<bar>pending_count (fold ob_step [OpEnqueue (DbFail 1 False ''disk full'') 7 sample_msg None]
      (outbox_init True 5 empty_tables))
    - n_rows (work (fold ob_step [OpEnqueue (DbFail 1 False ''disk full'') 7 sample_msg None]
      (outbox_init True 5 empty_tables)))\<bar> \<le> 1"
  using pending_estimate_drift [of empty_tables "[OpEnqueue (DbFail 1 False ''disk full'') 7 sample_msg None]" 5]
  by (simp add: failures_def)

section \<open>Dead letters\<close>

lemma mset_delete_row:
  assumes "tab_ok t" "r \<in> set (t_rows t)"
  shows "mset (t_rows (delete_row (row_id r) t)) + {#r#} = mset (t_rows t)"
proof -
  have "distinct (map row_id (t_rows t))"
    using assms(1) by (auto simp: tab_ok_def intro: sorted_wrt_less_distinct)
  then have "filter (\<lambda>q. row_id q = row_id r) (t_rows t) = [r]"
    using assms(2) by (rule filter_by_key)
  then have "filter_mset (\<lambda>q. row_id q = row_id r) (mset (t_rows t)) = {#r#}"
    by (metis mset_filter mset_single_iff)
  moreover have "mset (t_rows t) = filter_mset (\<lambda>q. row_id q = row_id r) (mset (t_rows t))
      + filter_mset (\<lambda>q. row_id q \<noteq> row_id r) (mset (t_rows t))"
    by (rule multiset_partition)
  ultimately show ?thesis by (simp add: delete_row_def mset_filter)
qed

text \<open>Moving a message to the dead letters neither loses nor copies a message: the row leaves the
  queue, its content is the last dead letter with the retry counter it had and the error cut to 2000
  characters, and the messages of queue and dead letters together are the same as before.\<close>

theorem dead_letter_conserves:
  assumes "ob_inv ob" and "move_to_dead_letter f now i err ob = (Inr True, ob')"
  shows "\<exists>r \<in> set (t_rows (work ob)). row_id r = i \<and>
    t_dead (disk ob') = t_dead (work ob) @ [mk_dead (t_dead_seq (work ob) + 1) now err r] \<and>
    i \<notin> row_id ` set (t_rows (disk ob')) \<and>
    mset (map row_msg (t_rows (disk ob'))) + mset (map dead_msg (t_dead (disk ob'))) =
      mset (map row_msg (t_rows (work ob))) + mset (map dead_msg (t_dead (work ob)))"
proof -
  obtain r w where r: "find (\<lambda>r. row_id r = i) (t_rows (work ob)) = Some r"
    and w: "db_write f [insert_dead now err r, delete_row i] ob = (None, w)"
    and ob': "ob' = drop_estimate (row_count i (work ob)) w"
    using assms(2) by (auto simp: move_to_dead_letter_def split: option.splits db_fault.splits prod.splits)
  note rr = find_SomeD [OF r] and ww = db_write_ok [OF w]
  have rows: "t_rows (disk ob') = t_rows (delete_row i (work ob))"
    and dead: "t_dead (disk ob') = t_dead (work ob) @ [mk_dead (t_dead_seq (work ob) + 1) now err r]"
    using ww by (simp_all add: ob' delete_row_def insert_dead_def)
  have "mset (t_rows (delete_row (row_id r) (work ob))) + {#r#} = mset (t_rows (work ob))"
    using assms(1) rr by (intro mset_delete_row) (auto simp: ob_inv_def)
  then have "image_mset row_msg (mset (t_rows (work ob)))
      = image_mset row_msg (mset (t_rows (delete_row i (work ob)))) + {#row_msg r#}"
    using rr by (metis image_mset_single image_mset_union)
  with rows dead have "mset (map row_msg (t_rows (disk ob'))) + mset (map dead_msg (t_dead (disk ob'))) =
      mset (map row_msg (t_rows (work ob))) + mset (map dead_msg (t_dead (work ob)))"
    by simp
  moreover have "i \<notin> row_id ` set (t_rows (disk ob'))"
    unfolding rows by (auto simp: delete_row_def)
  ultimately show ?thesis using rr dead by blast
qed

theorem dead_letter_conserves_witness:
  "\<exists>ob'. move_to_dead_letter DbOk 9 1 ''poison'' sample_stored = (Inr True, ob') \<and>
     1 \<notin> row_id ` set (t_rows (disk ob'))"
proof -
  obtain ob' where e: "move_to_dead_letter DbOk 9 1 ''poison'' sample_stored = (Inr True, ob')"
    by (simp add: move_to_dead_letter_def sample_stored_def sample_outbox_def enqueue_def outbox_init_def
        db_write_def empty_tables_def insert_row_def Let_def)
  from dead_letter_conserves [OF sample_stored_ok e] e show ?thesis by blast
qed

section \<open>The outbox as a message store\<close>

text \<open>
  The calls with their environment (the database's answer and the clock) in the shape of the
  \<open>message_store\<close> interface.
\<close>

type_synonym db_env = "db_fault \<times> clock"

definition store_good :: "db_env \<Rightarrow> bool" where
  "store_good e \<longleftrightarrow> clean_fault (fst e)"

definition store_inv :: "outbox \<Rightarrow> bool" where
  "store_inv ob \<longleftrightarrow> ob_inv ob \<and> settled ob"

definition store_held :: "outbox \<Rightarrow> msg set" where
  "store_held ob = tab_msgs (disk ob)"

definition store_pend :: "outbox \<Rightarrow> int \<Rightarrow> msg option" where
  "store_pend ob i = map_option row_msg (find (\<lambda>r. row_id r = i) (t_rows (disk ob)))"

definition store_used :: "outbox \<Rightarrow> int \<Rightarrow> bool" where
  "store_used ob i \<longleftrightarrow> i \<le> t_seq (disk ob)"

definition store_enq :: "db_env \<Rightarrow> msg \<Rightarrow> string option \<Rightarrow> outbox \<Rightarrow> int res \<times> outbox" where
  "store_enq e m err ob = enqueue (fst e) (snd e) m err ob"

definition store_del :: "db_env \<Rightarrow> int \<Rightarrow> outbox \<Rightarrow> unit res \<times> outbox" where
  "store_del e i ob = delete (fst e) i ob"

definition store_mark :: "db_env \<Rightarrow> int \<Rightarrow> string \<Rightarrow> outbox \<Rightarrow> unit res \<times> outbox" where
  "store_mark e i err ob = mark_retry (fst e) i err ob"

definition store_kill :: "db_env \<Rightarrow> int \<Rightarrow> string \<Rightarrow> outbox \<Rightarrow> bool res \<times> outbox" where
  "store_kill e i err ob = move_to_dead_letter (fst e) (snd e) i err ob"

lemmas store_defs = store_good_def store_inv_def store_held_def store_pend_def store_used_def store_enq_def
  store_del_def store_mark_def store_kill_def

lemma db_write_settled:
  "db_write f stmts ob = (r, ob') \<Longrightarrow> clean_fault f \<Longrightarrow> settled ob \<Longrightarrow> settled ob'"
  by (auto simp: db_write_def rollback_def settled_def Let_def split: db_fault.splits if_splits)

lemma settled_estimate [simp]:
  "settled (ob\<lparr>pending_estimate := n\<rparr>) = settled ob" "settled (drop_estimate n ob) = settled ob"
  by (simp_all add: settled_def)

lemma enqueue_clean:
  assumes "clean_fault f" "settled ob" "enqueue f now m err ob = (r, ob')"
  shows "settled ob' \<and> (case r of Inl x \<Rightarrow> ob' = ob
     | Inr i \<Rightarrow> disk ob' = insert_row now m err (disk ob))"
proof -
  obtain x w where w: "db_write f [insert_row now m err] ob = (x, w)" by fastforce
  show ?thesis
    using assms w db_write_settled [OF w] db_write_ok [of f "[insert_row now m err]" ob w]
      db_write_clean_err [of f "[insert_row now m err]" ob _ w]
    by (cases x) (auto simp: enqueue_def settled_def split: if_splits)
qed

lemma delete_clean:
  assumes "clean_fault f" "settled ob" "delete f i ob = (r, ob')"
  shows "settled ob' \<and> (case r of Inl x \<Rightarrow> ob' = ob | Inr _ \<Rightarrow> disk ob' = delete_row i (disk ob))"
proof -
  obtain x w where w: "db_write f [delete_row i] ob = (x, w)" by fastforce
  show ?thesis
    using assms w db_write_settled [OF w] db_write_ok [of f "[delete_row i]" ob w]
      db_write_clean_err [of f "[delete_row i]" ob _ w]
    by (cases x) (auto simp: delete_def settled_def)
qed

lemma mark_retry_clean:
  assumes "clean_fault f" "settled ob" "mark_retry f i err ob = (r, ob')"
  shows "settled ob' \<and> (case r of Inl x \<Rightarrow> ob' = ob | Inr _ \<Rightarrow> disk ob' = bump_row i err (disk ob))"
proof -
  obtain x w where w: "db_write f [bump_row i err] ob = (x, w)" by fastforce
  show ?thesis
    using assms w db_write_settled [OF w] db_write_ok [of f "[bump_row i err]" ob w]
      db_write_clean_err [of f "[bump_row i err]" ob _ w]
    by (cases x) (auto simp: mark_retry_def settled_def)
qed

lemma move_clean:
  assumes "clean_fault f" "settled ob" "move_to_dead_letter f now i err ob = (r, ob')"
  shows "settled ob' \<and> (case r of Inl x \<Rightarrow> ob' = ob | Inr False \<Rightarrow> ob' = ob
     | Inr True \<Rightarrow> \<exists>q. find (\<lambda>r. row_id r = i) (t_rows (disk ob)) = Some q \<and>
         disk ob' = delete_row i (insert_dead now err q (disk ob)))"
proof (cases "find (\<lambda>r. row_id r = i) (t_rows (work ob))")
  case None
  with assms show ?thesis
    by (auto simp: move_to_dead_letter_def rollback_def settled_def split: db_fault.splits if_splits)
next
  case (Some q)
  let ?st = "[insert_dead now err q, delete_row i]"
  obtain x w where w: "db_write f ?st ob = (x, w)" by fastforce
  show ?thesis
    using assms Some w db_write_settled [OF w] db_write_ok [of f ?st ob w]
      db_write_clean_err [of f ?st ob _ w]
    by (cases x) (auto simp: move_to_dead_letter_def settled_def)
qed

lemma bump_row_msg_set: "row_msg ` set (t_rows (bump_row i err t)) = row_msg ` set (t_rows t)"
  by (metis bump_row_msgs set_map)

lemma tab_msgs_simps [simp]:
  "tab_msgs (insert_row now m err t) = insert (norm_msg m) (tab_msgs t)"
  "tab_msgs (bump_row i e t) = tab_msgs t"
  by (auto simp: tab_msgs_def insert_row_def bump_row_msg_set)

lemma tab_msgs_delete:
  "tab_ok t \<Longrightarrow> tab_msgs t \<subseteq> tab_msgs (delete_row i t) \<union>
     set_option (map_option row_msg (find (\<lambda>r. row_id r = i) (t_rows t)))"
proof
  fix m
  assume ok: "tab_ok t" and m: "m \<in> tab_msgs t"
  show "m \<in> tab_msgs (delete_row i t) \<union>
     set_option (map_option row_msg (find (\<lambda>r. row_id r = i) (t_rows t)))"
  proof (cases "\<exists>r \<in> set (t_rows t). m = row_msg r \<and> row_id r = i")
    case True
    then obtain r where "r \<in> set (t_rows t)" "m = row_msg r" "row_id r = i" by blast
    moreover have "distinct (map row_id (t_rows t))"
      using ok by (auto simp: tab_ok_def intro: sorted_wrt_less_distinct)
    ultimately show ?thesis by (auto simp: find_by_key_Some)
  next
    case False
    with m show ?thesis by (auto simp: tab_msgs_def delete_row_def)
  qed
qed

lemma tab_msgs_delete_subset: "tab_msgs (delete_row i t) \<subseteq> tab_msgs t"
  by (auto simp: tab_msgs_def delete_row_def)

lemma tab_msgs_move:
  assumes "tab_ok t" "find (\<lambda>r. row_id r = i) (t_rows t) = Some q"
  shows "tab_msgs (delete_row i (insert_dead now err q t)) = tab_msgs t"
proof -
  have q: "q \<in> set (t_rows t)" "row_id q = i" using find_SomeD [OF assms(2)] by auto
  have "distinct (map row_id (t_rows t))"
    using assms(1) by (auto simp: tab_ok_def intro: sorted_wrt_less_distinct)
  then have u: "r = q" if "r \<in> set (t_rows t)" "row_id r = i" for r
    using that find_by_key_Some [of row_id "t_rows t" r] assms(2) by simp
  have "row_msg ` set (t_rows t) \<subseteq> insert (row_msg q) (row_msg ` {r \<in> set (t_rows t). row_id r \<noteq> i})"
    using u by blast
  moreover have "row_msg q \<in> row_msg ` set (t_rows t)" using q by blast
  ultimately show ?thesis
    by (auto simp: tab_msgs_def delete_row_def insert_dead_def)
qed

lemma pend_insert:
  "j \<le> t_seq t \<Longrightarrow>
   find (\<lambda>r. row_id r = j) (t_rows (insert_row now m err t)) = find (\<lambda>r. row_id r = j) (t_rows t)"
  by (simp add: insert_row_def find_app split: option.split)

lemma pend_delete:
  "tab_ok t \<Longrightarrow> set_option (find (\<lambda>r. row_id r = j) (t_rows (delete_row i t)))
     \<subseteq> set_option (find (\<lambda>r. row_id r = j) (t_rows t))"
  unfolding delete_row_def
  by (simp, rule find_filter_subset) (auto simp: tab_ok_def intro: sorted_wrt_less_distinct)

lemma pend_bump:
  "map_option row_msg (find (\<lambda>r. row_id r = j) (t_rows (bump_row i e t)))
     = map_option row_msg (find (\<lambda>r. row_id r = j) (t_rows t))"
proof -
  define f where "f r = (if row_id r = i
    then r\<lparr>row_retry := Suc (row_retry r), row_err := Some (take 2000 e)\<rparr> else r)" for r :: row
  have "row_id (f r) = row_id r" "row_msg (f r) = row_msg r" for r
    by (simp_all add: f_def row_msg_def)
  moreover have "t_rows (bump_row i e t) = map f (t_rows t)"
    by (simp add: bump_row_def f_def)
  ultimately show ?thesis
    by (simp add: find_map option.map_comp o_def)
qed

lemma t_seq_simps [simp]:
  "t_seq (insert_row now m err t) = t_seq t + 1" "t_seq (delete_row i t) = t_seq t"
  "t_seq (insert_dead now e q t) = t_seq t"
  by (simp_all add: insert_row_def delete_row_def insert_dead_def)

lemma t_rows_insert_dead [simp]: "t_rows (insert_dead now e q t) = t_rows t"
  by (simp add: insert_dead_def)

interpretation outbox_store: message_store store_good store_inv store_held store_pend
  store_used store_enq store_del store_mark store_kill
proof (unfold_locales, goal_cases)
  case (1 e s m err r s')
  then show ?case using enqueue_inv enqueue_clean by (auto simp: store_defs)
next
  case (2 e s i r' s')
  then show ?case using delete_inv delete_clean by (auto simp: store_defs)
next
  case (3 e s i t r' s')
  then show ?case using mark_retry_inv mark_retry_clean by (auto simp: store_defs)
next
  case (4 e s i t r2 s')
  then show ?case using move_inv move_clean by (auto simp: store_defs)
next
  case (5 e s m err i s')
  then show ?case using enqueue_clean [of "fst e" s] by (fastforce simp: store_defs)
next
  case (6 e s m err x s')
  then show ?case using enqueue_clean [of "fst e" s] by (fastforce simp: store_defs)
next
  case (7 e s i r' s')
  then show ?case
    using delete_clean [of "fst e" s i r' s'] tab_msgs_delete [of "disk s" i]
      tab_msgs_delete_subset [of i "disk s"]
    by (cases r') (auto simp: store_defs ob_inv_def)
next
  case (8 e s i t r' s')
  then show ?case
    using mark_retry_clean [of "fst e" s i t r' s'] by (cases r') (auto simp: store_defs)
next
  case (9 e s i t r2 s')
  then show ?case
    using move_clean [of "fst e" s "snd e" i t r2 s'] tab_msgs_move [of "disk s" i]
    by (cases r2) (auto simp: store_defs ob_inv_def split: bool.splits)
next
  case (10 e s m err r s' j)
  then show ?case
    using enqueue_clean [of "fst e" s "snd e" m err r s']
    by (cases r) (auto simp: store_defs pend_insert)
next
  case (11 e s i r' s' j)
  then have "tab_ok (disk s)" by (simp add: store_defs ob_inv_def)
  with 11 show ?case
    using delete_clean [of "fst e" s i r' s'] pend_delete [of "disk s" j i]
    by (cases r') (auto simp: store_defs option.set_map)
next
  case (12 e s i t r' s' j)
  then show ?case
    using mark_retry_clean [of "fst e" s i t r' s'] by (cases r') (auto simp: store_defs pend_bump)
next
  case (13 e s i t r2 s' j)
  then have ok: "tab_ok (insert_dead (snd e) t q (disk s))" for q by (simp add: store_defs ob_inv_def)
  show ?case
  proof (cases r2)
    case (Inr b)
    then show ?thesis
      using 13 move_clean [of "fst e" s "snd e" i t r2 s'] pend_delete [OF ok, of j i]
      by (cases b) (fastforce simp: store_defs option.set_map)+
  next
    case (Inl x)
    then show ?thesis
      using 13 move_clean [of "fst e" s "snd e" i t r2 s'] by (auto simp: store_defs)
  qed
qed

end
