(* ===== verification/JetStream.thy ===== *)
theory JetStream
  imports Messaging
begin

text \<open>
  \<open>messaging/jetstream_publisher.py\<close>: the primary publisher. The NATS client and server are not
  part of the program: what they do during a call is the argument \<open>e\<close> of \<open>js_publish\<close>, and when
  they connect, drop or close is the environment's choice of step in \<open>js_step\<close>. \<open>js_stored\<close> records
  what the server has stored: the message with the subject, headers and body sent on the wire.
\<close>

section \<open>State\<close>

record wire =
  w_subject :: string
  w_headers :: "string \<rightharpoonup> string"
  w_body :: obj

record jetstream =
  js_subject :: string
  js_loop :: bool          \<comment> \<open>\<open>_loop is not None\<close>\<close>
  js_nc :: bool            \<comment> \<open>\<open>_nc is not None\<close>\<close>
  js_js :: bool            \<comment> \<open>\<open>_js is not None\<close>\<close>
  js_task :: bool          \<comment> \<open>\<open>_background_reconnect\<close> is running\<close>
  js_backoff :: rat
  js_ready :: bool
  js_closed :: bool
  js_failures :: nat
  js_successes :: nat
  js_stored :: "(msg \<times> wire) list"

text \<open>\<open>create\<close> and \<open>__init__\<close>: without the \<open>nats\<close> package there is no publisher;
  the loop is there when \<open>create\<close> returns (\<open>js_start\<close> below sets it).\<close>

definition js_create :: "bool \<Rightarrow> string \<Rightarrow> string \<Rightarrow> jetstream option" where
  "js_create nats_available subject_prefix gateway_code =
     (if \<not> nats_available then None
      else Some \<lparr>js_subject = py_rstrip_by (\<lambda>c. c = CHR ''.'') subject_prefix @ ''.'' @ gateway_code,
        js_loop = True, js_nc = False, js_js = False, js_task = False, js_backoff = 2,
        js_ready = False, js_closed = False, js_failures = 0, js_successes = 0, js_stored = []\<rparr>)"

section \<open>Publishing\<close>

text \<open>
  The header dict: the dedup id, the correlation id when it is not empty, then the caller's headers
  (a key of the caller overrides; a \<open>None\<close> value is skipped).
\<close>

definition js_headers :: "msg \<Rightarrow> (string \<rightharpoonup> string)" where
  "js_headers m =
     (let h0 = [''Nats-Msg-Id'' \<mapsto> m_id m];
          h1 = (case m_corr m of Some c \<Rightarrow> if c \<noteq> [] then h0(''X-Correlation-Id'' \<mapsto> c) else h0 | None \<Rightarrow> h0)
      in case m_headers m of None \<Rightarrow> h1
         | Some kvs \<Rightarrow> fold (\<lambda>(k, v) h. case v of None \<Rightarrow> h | Some t \<Rightarrow> h(k \<mapsto> t)) kvs h1)"

definition js_wire :: "string \<Rightarrow> msg \<Rightarrow> wire" where
  "js_wire subj m = \<lparr>w_subject = subj, w_headers = js_headers m, w_body = m_payload m\<rparr>"

text \<open>
  The server's answer within \<open>publish_timeout\<close>: an ack, or an error or timeout after which the
  server may nevertheless have stored the message.
\<close>

datatype js_reply = JsAck | JsRaise string bool

definition not_ready_error :: pyexc where
  "not_ready_error = PyExc ''JetStreamNotReadyError'' ''publisher not ready (NATS connection unavailable)''"

definition publish_error :: "string \<Rightarrow> pyexc" where
  "publish_error t = PyExc ''JetStreamPublishError'' t"

definition js_publish :: "js_reply \<Rightarrow> msg \<Rightarrow> jetstream \<Rightarrow> unit res \<times> jetstream" where
  "js_publish e m js =
     (if \<not> js_ready js \<or> \<not> js_loop js \<or> \<not> js_js js
      then (Inl not_ready_error, js\<lparr>js_failures := Suc (js_failures js)\<rparr>)
      else let sent = js_stored js @ [(norm_msg m, js_wire (js_subject js) m)] in
        case e of
          JsAck \<Rightarrow> (Inr (), js\<lparr>js_stored := sent, js_successes := Suc (js_successes js)\<rparr>)
        | JsRaise t stored \<Rightarrow>
            (Inl (publish_error t),
             js\<lparr>js_stored := (if stored then sent else js_stored js),
                js_failures := Suc (js_failures js)\<rparr>))"

definition js_accepted :: "jetstream \<Rightarrow> msg set" where
  "js_accepted js = fst ` set (js_stored js)"

definition js_is_ready :: "jetstream \<Rightarrow> bool" where
  "js_is_ready js = js_ready js"

definition js_counters_snapshot :: "jetstream \<Rightarrow> nat \<times> nat" where
  "js_counters_snapshot js = (js_failures js, js_successes js)"

section \<open>Connection life cycle\<close>

text \<open>
  One connection attempt: it fails, it succeeds, or it connects and \<open>nc.jetstream()\<close> raises.
\<close>

datatype connect_result = ConnOk | ConnFail | ConnHalf

definition js_connected :: "jetstream \<Rightarrow> jetstream" where
  "js_connected js = js\<lparr>js_nc := True, js_js := True, js_ready := True\<rparr>"

text \<open>\<open>_connect_safe\<close>: on failure the background task is started.\<close>

definition js_connect_safe :: "connect_result \<Rightarrow> jetstream \<Rightarrow> jetstream" where
  "js_connect_safe r js = (case r of
       ConnOk \<Rightarrow> js_connected js
     | ConnFail \<Rightarrow> js\<lparr>js_task := True, js_backoff := 2\<rparr>
     | ConnHalf \<Rightarrow> js\<lparr>js_nc := True, js_task := True, js_backoff := 2\<rparr>)"

text \<open>
  \<open>_start\<close>: the loop runs on its own thread and the first attempt is awaited for the timeout only;
  \<open>None\<close> is an attempt that did not end in that time (the warning is all that comes of it).
\<close>

definition js_start :: "connect_result option \<Rightarrow> jetstream \<Rightarrow> jetstream" where
  "js_start attempt js = (let js1 = js\<lparr>js_loop := True\<rparr>
     in case attempt of None \<Rightarrow> js1 | Some r \<Rightarrow> js_connect_safe r js1)"

text \<open>One round of \<open>_background_reconnect\<close> after its sleep.\<close>

definition js_reconnect_round :: "connect_result \<Rightarrow> jetstream \<Rightarrow> jetstream" where
  "js_reconnect_round r js = (case r of
       ConnOk \<Rightarrow> (js_connected js)\<lparr>js_task := False\<rparr>
     | ConnFail \<Rightarrow> js\<lparr>js_backoff := min (js_backoff js * (3 / 2)) 30\<rparr>
     | ConnHalf \<Rightarrow> js\<lparr>js_nc := True, js_backoff := min (js_backoff js * (3 / 2)) 30\<rparr>)"

definition js_on_reconnected :: "jetstream \<Rightarrow> jetstream" where
  "js_on_reconnected js = js\<lparr>js_ready := True\<rparr>"

definition js_on_disconnected :: "jetstream \<Rightarrow> jetstream" where
  "js_on_disconnected js = js\<lparr>js_ready := False\<rparr>"

definition js_on_closed :: "jetstream \<Rightarrow> jetstream" where
  "js_on_closed js = js\<lparr>js_ready := False\<rparr>"

definition js_shutdown_loop :: "jetstream \<Rightarrow> jetstream" where
  "js_shutdown_loop js =
     (if \<not> js_loop js then js
      else js\<lparr>js_loop := False, js_nc := False, js_js := False, js_ready := False\<rparr>)"

text \<open>\<open>close\<close>: mark closed, cancel the reconnect task, drain or close the connection, stop the loop.\<close>

definition js_close :: "jetstream \<Rightarrow> jetstream" where
  "js_close js =
     (if js_closed js then js
      else let js1 = js\<lparr>js_closed := True\<rparr>
           in if \<not> js_loop js then js1 else js_shutdown_loop (js1\<lparr>js_task := False\<rparr>))"

text \<open>
  What can happen, and when: callbacks and coroutines run on the loop, so they need it; the
  callbacks belong to an established connection (\<open>_js\<close> set, since \<open>nats.connect\<close> returned before);
  the background task stops once \<open>_closed\<close> is set.
\<close>

inductive js_step :: "jetstream \<Rightarrow> jetstream \<Rightarrow> bool" where
  js_call: "js_step js (snd (js_publish e m js))"
| js_connect: "js_loop js \<Longrightarrow> \<not> js_nc js \<Longrightarrow> \<not> js_task js \<Longrightarrow> js_step js (js_connect_safe r js)"
| js_retry: "js_loop js \<Longrightarrow> js_task js \<Longrightarrow> \<not> js_closed js \<Longrightarrow> js_step js (js_reconnect_round r js)"
| js_up: "js_loop js \<Longrightarrow> js_js js \<Longrightarrow> js_step js (js_on_reconnected js)"
| js_down: "js_loop js \<Longrightarrow> js_step js (js_on_disconnected js)"
| js_gone: "js_loop js \<Longrightarrow> js_step js (js_on_closed js)"
| js_stop: "js_step js (js_close js)"

inductive js_reachable :: "jetstream \<Rightarrow> bool" where
  js_start: "js_create True p c = Some js \<Longrightarrow> js_reachable js"
| js_next: "js_reachable js \<Longrightarrow> js_step js js' \<Longrightarrow> js_reachable js'"

inductive_cases js_step_cases [elim]: "js_step js js'"

definition js_inv :: "jetstream \<Rightarrow> bool" where
  "js_inv js \<longleftrightarrow> (js_ready js \<longrightarrow> js_js js \<and> js_loop js) \<and> (js_closed js \<longrightarrow> \<not> js_loop js) \<and>
     2 \<le> js_backoff js \<and> js_backoff js \<le> 30"

named_theorems js_defs \<open>the operations of the JetStream publisher\<close>

declare js_publish_def [js_defs] js_connect_safe_def [js_defs] js_reconnect_round_def [js_defs]
  js_connected_def [js_defs] js_on_reconnected_def [js_defs] js_on_disconnected_def [js_defs]
  js_on_closed_def [js_defs] js_close_def [js_defs] js_shutdown_loop_def [js_defs]

lemma js_step_inv: "js_step js js' \<Longrightarrow> js_inv js \<Longrightarrow> js_inv js'"
  by (induction rule: js_step.induct)
    (auto simp: js_inv_def js_defs Let_def min_def split: js_reply.splits connect_result.splits)

lemma js_reachable_inv: "js_reachable js \<Longrightarrow> js_inv js"
proof (induction rule: js_reachable.induct)
  case (js_start p c js)
  then show ?case by (auto simp: js_create_def js_inv_def)
next
  case (js_next js js')
  then show ?case by (blast intro: js_step_inv)
qed

definition sample_js :: jetstream where
  "sample_js = \<lparr>js_subject = ''telemetry.GW1'', js_loop = True, js_nc = True, js_js = True, js_task = False,
     js_backoff = 2, js_ready = True, js_closed = False, js_failures = 0, js_successes = 0, js_stored = []\<rparr>"

lemma sample_js_reachable: "js_reachable sample_js"
proof -
  obtain js where js: "js_create True ''telemetry'' ''GW1'' = Some js"
    by (simp add: js_create_def)
  then have "js_step js (js_connect_safe ConnOk js)"
    by (intro js_connect) (auto simp: js_create_def)
  moreover have "js_connect_safe ConnOk js = sample_js"
    using js by (auto simp: js_create_def js_connect_safe_def js_connected_def sample_js_def py_rstrip_by_def)
  ultimately show ?thesis using js_next [OF js_start [OF js]] by simp
qed

text \<open>C31: In every reachable state \<open>is_ready\<close> decides what \<open>publish\<close> does: when it is false (never
  connected, disconnected, closed) the call raises the transient \<open>JetStreamNotReadyError\<close> and sends
  nothing; when it is true the message goes on the wire, and the call returns exactly when the server
  acknowledged it. The reconnect pause stays between 2 and 30 seconds.\<close>

theorem js_publish_by_readiness:
  assumes "js_reachable js"
  shows "(\<not> js_is_ready js \<longrightarrow> js_publish e m js =
        (Inl not_ready_error, js\<lparr>js_failures := Suc (js_failures js)\<rparr>)) \<and>
    (js_is_ready js \<longrightarrow> (fst (js_publish e m js) = Inr () \<longleftrightarrow> e = JsAck) \<and>
        (e = JsAck \<longrightarrow> last (js_stored (snd (js_publish e m js))) =
           (norm_msg m, js_wire (js_subject js) m))) \<and>
    2 \<le> js_backoff js \<and> js_backoff js \<le> 30"
  using js_reachable_inv [OF assms]
  by (auto simp: js_inv_def js_is_ready_def js_publish_def Let_def split: js_reply.splits)

theorem js_publish_by_readiness_witness:
  "fst (js_publish JsAck sample_msg sample_js) = Inr ()"
  using js_publish_by_readiness [OF sample_js_reachable, of JsAck sample_msg]
  by (simp add: js_is_ready_def sample_js_def)

lemma js_closed_step: "js_step js js' \<Longrightarrow> js_inv js \<Longrightarrow> js_closed js \<Longrightarrow>
    js_closed js' \<and> js_stored js' = js_stored js"
  by (induction rule: js_step.induct) (auto simp: js_inv_def js_defs)

lemma js_closed_steps:
  assumes "js_step\<^sup>*\<^sup>* js js'" "js_inv js" "js_closed js"
  shows "js_inv js' \<and> js_closed js' \<and> js_stored js' = js_stored js"
  using assms by (induction rule: rtranclp_induct) (auto dest: js_closed_step js_step_inv)

text \<open>A closed publisher stays closed: no later callback or call makes it ready or sends a
  message.\<close>

theorem js_close_final:
  assumes "js_reachable js" and "js_step\<^sup>*\<^sup>* (js_close js) js'"
  shows "\<not> js_is_ready js' \<and> js_stored js' = js_stored js \<and>
    fst (js_publish e m js') = Inl not_ready_error"
proof -
  have "js_inv (js_close js)"
    using js_reachable_inv [OF assms(1)] by (rule js_step_inv [OF js_stop])
  moreover have "js_closed (js_close js)" "js_stored (js_close js) = js_stored js"
    by (auto simp: js_defs Let_def)
  ultimately have "js_inv js' \<and> js_closed js' \<and> js_stored js' = js_stored js"
    using js_closed_steps [OF assms(2)] by simp
  then show ?thesis
    by (auto simp: js_inv_def js_is_ready_def js_publish_def)
qed

theorem js_close_final_witness:
  "fst (js_publish JsAck sample_msg (snd (js_publish JsAck sample_msg (js_close sample_js)))) =
     Inl not_ready_error"
  using js_close_final [OF sample_js_reachable r_into_rtranclp [of js_step, OF js_call [of _ JsAck sample_msg]], of JsAck sample_msg]
  by simp

section \<open>The dedup id\<close>

lemma fold_headers_other:
  "k \<notin> fst ` set kvs \<Longrightarrow>
   fold (\<lambda>(k, v) h. case v of None \<Rightarrow> h | Some t \<Rightarrow> h(k \<mapsto> t)) kvs h k = h k"
  by (induction kvs arbitrary: h) (auto split: option.splits)

text \<open>Every message goes out under its own \<open>message_id\<close> as \<open>Nats-Msg-Id\<close>, which is what makes a
  second delivery by the retrier harmless, as long as the caller's headers do not use that key; and
  a message and its copy read back from the outbox are the same on the wire.\<close>

theorem js_dedup_id:
  assumes "\<forall>kvs. m_headers m = Some kvs \<longrightarrow> ''Nats-Msg-Id'' \<notin> fst ` set kvs"
  shows "js_headers m ''Nats-Msg-Id'' = Some (m_id m) \<and> js_wire s (norm_msg m) = js_wire s m"
  using assms
  by (auto simp: js_headers_def js_wire_def norm_msg_def norm_headers_def fold_headers_other Let_def
      split: option.splits list.splits)

theorem js_dedup_id_witness:
  "js_headers sample_msg ''Nats-Msg-Id'' = Some ''m1''"
  using js_dedup_id [of sample_msg "''telemetry.GW1''"] by (simp add: sample_msg_def)

section \<open>The broker contract\<close>

interpretation js_broker: broker js_publish js_accepted
  by (unfold_locales)
    (auto simp: js_publish_def js_accepted_def Let_def split: if_splits js_reply.splits)

end
