(* ===== verification/Rabbit.thy ===== *)
theory Rabbit
  imports Messaging
begin

text \<open>
  \<open>messaging/rabbit_publisher.py\<close>, the legacy publisher kept for rollback. The AMQP library is not
  part of the program: which step of a call raises, and the class the exception falls into, is the
  argument \<open>e\<close>. A link object is absent (\<open>None\<close>), open, or closed by the peer (\<open>is_closed\<close>).
\<close>

datatype link = Absent | Up | Down

text \<open>
  The exception classes \<open>publish\<close> tells apart: \<open>_MESSAGE_LEVEL_ERRORS\<close>,
  \<open>_CONNECTION_LEVEL_ERRORS\<close>, any other \<open>AMQPError\<close>, and exceptions it does not catch.
\<close>

datatype amqp_kind = MessageLevel | ConnectionLevel | OtherAmqp | NotCaught

record rabbit =
  rb_conn :: link
  rb_chan :: link
  rb_sent :: "msg list"

definition rabbit_init :: rabbit where
  "rabbit_init = \<lparr>rb_conn = Absent, rb_chan = Absent, rb_sent = []\<rparr>"

record rabbit_env =
  re_connect :: "(amqp_kind \<times> pyexc) option"   \<comment> \<open>opening the connection raises\<close>
  re_channel :: "(amqp_kind \<times> pyexc) option"   \<comment> \<open>\<open>channel()\<close>, \<open>exchange_declare\<close>, \<open>confirm_delivery\<close>\<close>
  re_publish :: "(amqp_kind \<times> pyexc) option"   \<comment> \<open>\<open>basic_publish\<close> with confirms\<close>
  re_stored :: bool                            \<comment> \<open>after a raise: the broker stored the message\<close>

definition ensure_channel ::
  "rabbit_env \<Rightarrow> rabbit \<Rightarrow> (amqp_kind \<times> pyexc) option \<times> rabbit" where
  "ensure_channel e rb =
     (let r1 = (if rb_conn rb \<noteq> Up
          then (case re_connect e of
              Some x \<Rightarrow> (Some x, rb)
            | None \<Rightarrow> (None, rb\<lparr>rb_conn := Up, rb_chan := Absent\<rparr>))
          else (None, rb))
      in case r1 of
          (Some x, rb1) \<Rightarrow> (Some x, rb1)
        | (None, rb1) \<Rightarrow>
            if rb_chan rb1 \<noteq> Up
            then (case re_channel e of
                Some x \<Rightarrow> (Some x, rb1)
              | None \<Rightarrow> (None, rb1\<lparr>rb_chan := Up\<rparr>))
            else (None, rb1))"

definition force_close :: "rabbit \<Rightarrow> rabbit" where
  "force_close rb = rb\<lparr>rb_conn := Absent, rb_chan := Absent\<rparr>"

definition rabbit_except :: "amqp_kind \<times> pyexc \<Rightarrow> rabbit \<Rightarrow> unit res \<times> rabbit" where
  "rabbit_except kx rb = (Inl (snd kx),
     case fst kx of MessageLevel \<Rightarrow> rb | ConnectionLevel \<Rightarrow> force_close rb
       | OtherAmqp \<Rightarrow> force_close rb | NotCaught \<Rightarrow> rb)"

definition rabbit_publish :: "rabbit_env \<Rightarrow> msg \<Rightarrow> rabbit \<Rightarrow> unit res \<times> rabbit" where
  "rabbit_publish e m rb = (case ensure_channel e rb of
       (Some kx, rb1) \<Rightarrow> rabbit_except kx rb1
     | (None, rb1) \<Rightarrow> (case re_publish e of
           None \<Rightarrow> (Inr (), rb1\<lparr>rb_sent := rb_sent rb1 @ [norm_msg m]\<rparr>)
         | Some kx \<Rightarrow> rabbit_except kx
             (if re_stored e then rb1\<lparr>rb_sent := rb_sent rb1 @ [norm_msg m]\<rparr> else rb1)))"

definition rabbit_close :: "rabbit \<Rightarrow> rabbit" where
  "rabbit_close rb = force_close rb"

text \<open>The AMQP properties of a message: the correlation id falls back to the message id.\<close>

definition rabbit_correlation :: "msg \<Rightarrow> string" where
  "rabbit_correlation m = (case m_corr m of Some c \<Rightarrow> if c \<noteq> [] then c else m_id m | None \<Rightarrow> m_id m)"

definition rabbit_accepted :: "rabbit \<Rightarrow> msg set" where
  "rabbit_accepted rb = set (rb_sent rb)"

lemma ensure_channel_up:
  "ensure_channel e rb = (None, rb') \<Longrightarrow> rb_conn rb' = Up \<and> rb_chan rb' = Up \<and> rb_sent rb' = rb_sent rb"
  by (auto simp: ensure_channel_def Let_def split: if_splits option.splits)

lemma ensure_channel_sent: "ensure_channel e rb = (x, rb') \<Longrightarrow> rb_sent rb' = rb_sent rb"
  by (auto simp: ensure_channel_def Let_def split: if_splits option.splits)

lemma force_close_sent [simp]: "rb_sent (force_close rb) = rb_sent rb"
  by (simp add: force_close_def)

lemma rabbit_except_sent [simp]: "rb_sent (snd (rabbit_except kx rb)) = rb_sent rb"
  by (simp add: rabbit_except_def split: amqp_kind.splits)

text \<open>What a \<open>RabbitPublisher.publish\<close> leaves behind: after a confirmed publish, and after the
  broker rejected just this message, connection and channel are open and reused; after a connection
  or channel error, or an unknown AMQP error, both are dropped, so that the next publish reconnects.\<close>

theorem rabbit_publish_links:
  "(fst (rabbit_publish e m rb) = Inr () \<longrightarrow>
      rb_conn (snd (rabbit_publish e m rb)) = Up \<and> rb_chan (snd (rabbit_publish e m rb)) = Up) \<and>
   (re_connect e = None \<and> re_channel e = None \<longrightarrow> (case re_publish e of
        None \<Rightarrow> fst (rabbit_publish e m rb) = Inr ()
      | Some (k, x) \<Rightarrow> fst (rabbit_publish e m rb) = Inl x \<and>
          (k = MessageLevel \<longrightarrow> rb_chan (snd (rabbit_publish e m rb)) = Up) \<and>
          (k = ConnectionLevel \<or> k = OtherAmqp \<longrightarrow>
             rb_conn (snd (rabbit_publish e m rb)) = Absent \<and>
             rb_chan (snd (rabbit_publish e m rb)) = Absent)))"
proof (cases "ensure_channel e rb")
  case (Pair x rb1)
  show ?thesis
  proof (cases x)
    case None
    with Pair ensure_channel_up [of e rb rb1] show ?thesis
      by (auto simp: rabbit_publish_def rabbit_except_def force_close_def
          split: option.splits amqp_kind.splits)
  next
    case (Some kx)
    with Pair have "re_connect e \<noteq> None \<or> re_channel e \<noteq> None"
      by (auto simp: ensure_channel_def Let_def split: if_splits option.splits)
    with Some Pair show ?thesis
      by (auto simp: rabbit_publish_def rabbit_except_def)
  qed
qed

theorem rabbit_publish_links_witness:
  "rb_conn (snd (rabbit_publish \<lparr>re_connect = None, re_channel = None,
     re_publish = Some (ConnectionLevel, PyExc ''ConnectionClosed'' []), re_stored = False\<rparr>
     sample_msg rabbit_init)) = Absent"
  using rabbit_publish_links [of "\<lparr>re_connect = None, re_channel = None,
     re_publish = Some (ConnectionLevel, PyExc ''ConnectionClosed'' []), re_stored = False\<rparr>"
     sample_msg rabbit_init] by simp

interpretation rabbit_broker: broker rabbit_publish rabbit_accepted
proof (unfold_locales, goal_cases)
  case (1 e m b u b')
  then show ?case
    using ensure_channel_sent
    by (fastforce simp: rabbit_publish_def rabbit_except_def rabbit_accepted_def
        split: option.splits prod.splits)
next
  case (2 e m b x b')
  then have b': "b' = snd (rabbit_publish e m b)" by simp
  obtain y rb1 where y: "ensure_channel e b = (y, rb1)" by fastforce
  then show ?case
    using ensure_channel_sent [OF y]
    by (auto simp: b' rabbit_publish_def rabbit_accepted_def split: option.splits)
qed

section \<open>Connection parameters\<close>

text \<open>
  \<open>_connection_params\<close>: the parameters \<open>pika.URLParameters\<close> read from the URL are the argument \<open>p\<close>; a
  limit the URL does not name is replaced by the constructor's.
\<close>

record amqp_limits =
  al_heartbeat :: "int option"
  al_blocked :: "rat option"
  al_socket :: "rat option"

definition connection_params :: "string \<Rightarrow> amqp_limits \<Rightarrow> amqp_limits \<Rightarrow> amqp_limits" where
  "connection_params url own p =
     \<lparr>al_heartbeat = (if \<not> py_in ''heartbeat='' url then al_heartbeat own else al_heartbeat p),
      al_blocked = (if \<not> py_in ''blocked_connection_timeout='' url then al_blocked own else al_blocked p),
      al_socket = (if \<not> py_in ''socket_timeout='' url then al_socket own else al_socket p)\<rparr>"

text \<open>A URL that sets one limit after a prefix without parameters keeps that limit and only that one.\<close>

lemma connection_params_heartbeat:
  "sublist ''heartbeat='' url \<Longrightarrow> al_heartbeat (connection_params url own p) = al_heartbeat p"
  by (simp add: connection_params_def py_in_sublist)

lemma connection_params_plain:
  "\<not> sublist ''='' url \<Longrightarrow> connection_params url own p = own"
proof -
  assume a: "\<not> sublist ''='' url"
  have "\<not> py_in (k @ ''='') url" for k
    using a by (meson py_in_sublist sublist_append_leftI sublist_order.order_trans suffix_imp_sublist suffixI)
  from this [of "''heartbeat''"] this [of "''blocked_connection_timeout''"] this [of "''socket_timeout''"]
  show ?thesis by (simp add: connection_params_def)
qed

end
