(* ===== verification/Resilient.thy ===== *)
theory Resilient
  imports Outbox JetStream Rabbit
begin

text \<open>
  \<open>messaging/resilient_publisher.py\<close>: the publisher the poller talks to. It tries the broker and
  writes what the broker did not take to the outbox; when the outbox refuses too it trips the
  circuit breaker and raises. The broker's \<open>publish\<close> and the store's \<open>enqueue\<close> are arguments, as in
  the code, where both are injected; the secondary publisher is the answer it gives, if there is one.
\<close>

section \<open>State\<close>

record rp_state =
  rp_consecutive :: nat
  rp_full :: bool
  rp_full_since :: "clock option"
  rp_last_error :: "string option"
  rp_sec_failures :: nat
  rp_sec_successes :: nat

record ('b, 's) pub_sys =
  ps_broker :: 'b
  ps_store :: 's
  ps_rp :: rp_state

record ('be, 'se) pub_env =
  pe_broker :: 'be
  pe_store :: 'se
  pe_now :: clock
  pe_secondary :: "bool option"  \<comment> \<open>no secondary publisher, or whether its publish succeeded\<close>

definition rp_init :: rp_state where
  "rp_init = \<lparr>rp_consecutive = 0, rp_full = False, rp_full_since = None, rp_last_error = None,
     rp_sec_failures = 0, rp_sec_successes = 0\<rparr>"

section \<open>Operations\<close>

definition set_outbox_full :: "clock \<Rightarrow> string \<Rightarrow> rp_state \<Rightarrow> rp_state" where
  "set_outbox_full now err rp =
     rp\<lparr>rp_full_since := (if rp_full rp then rp_full_since rp else Some now),
        rp_full := True, rp_last_error := Some (take 500 err)\<rparr>"

definition clear_outbox_full :: "rp_state \<Rightarrow> rp_state" where
  "clear_outbox_full rp = rp\<lparr>rp_full := False, rp_full_since := None, rp_last_error := None\<rparr>"

definition publish_secondary_best_effort :: "bool option \<Rightarrow> rp_state \<Rightarrow> rp_state" where
  "publish_secondary_best_effort sec rp = (case sec of
       None \<Rightarrow> rp
     | Some True \<Rightarrow> rp\<lparr>rp_sec_successes := Suc (rp_sec_successes rp), rp_sec_failures := 0\<rparr>
     | Some False \<Rightarrow> rp\<lparr>rp_sec_failures := Suc (rp_sec_failures rp)\<rparr>)"

definition rp_publish ::
  "('be \<Rightarrow> msg \<Rightarrow> 'b \<Rightarrow> unit res \<times> 'b) \<Rightarrow> ('se \<Rightarrow> msg \<Rightarrow> string option \<Rightarrow> 's \<Rightarrow> int res \<times> 's) \<Rightarrow>
   ('be, 'se) pub_env \<Rightarrow> msg \<Rightarrow> ('b, 's) pub_sys \<Rightarrow> unit res \<times> ('b, 's) pub_sys" where
  "rp_publish bpub senq e m sys = (case bpub (pe_broker e) m (ps_broker sys) of
       (Inr _, b') \<Rightarrow>
         (let rp1 = (ps_rp sys)\<lparr>rp_consecutive := 0\<rparr>;
              rp2 = (if rp_full rp1 then clear_outbox_full rp1 else rp1)
          in (Inr (), sys\<lparr>ps_broker := b',
                ps_rp := publish_secondary_best_effort (pe_secondary e) rp2\<rparr>))
     | (Inl x, b') \<Rightarrow>
         (let rp1 = (ps_rp sys)\<lparr>rp_consecutive := Suc (rp_consecutive (ps_rp sys))\<rparr>
          in case senq (pe_store e) m (Some (exc_text x)) (ps_store sys) of
              (Inr i, s') \<Rightarrow> (Inr (), sys\<lparr>ps_broker := b', ps_store := s', ps_rp := rp1\<rparr>)
            | (Inl y, s') \<Rightarrow>
                (Inl y, sys\<lparr>ps_broker := b', ps_store := s',
                   ps_rp := set_outbox_full (pe_now e)
                     (if exc_class y = ''OutboxFullError'' then exc_text y
                      else ''outbox_io_error: '' @ exc_text y) rp1\<rparr>)))"

text \<open>\<open>publish_outbox_row\<close>, the retrier's hook: exceptions of the broker go to the retrier.\<close>

definition publish_outbox_row ::
  "('be \<Rightarrow> msg \<Rightarrow> 'b \<Rightarrow> unit res \<times> 'b) \<Rightarrow> ('be, 'se) pub_env \<Rightarrow> msg \<Rightarrow> ('b, 's) pub_sys \<Rightarrow>
   unit res \<times> ('b, 's) pub_sys" where
  "publish_outbox_row bpub e m sys = (case bpub (pe_broker e) m (ps_broker sys) of
       (Inl x, b') \<Rightarrow> (Inl x, sys\<lparr>ps_broker := b'\<rparr>)
     | (Inr _, b') \<Rightarrow>
         (let rp1 = (if rp_full (ps_rp sys) then clear_outbox_full (ps_rp sys) else ps_rp sys)
          in (Inr (), sys\<lparr>ps_broker := b',
                ps_rp := publish_secondary_best_effort (pe_secondary e) rp1\<rparr>)))"

definition rp_outbox_full :: "('b, 's) pub_sys \<Rightarrow> bool" where
  "rp_outbox_full sys = rp_full (ps_rp sys)"

text \<open>\<open>pending_count\<close>, \<open>dead_letter_count\<close>, \<open>outbox_max_pending\<close>: any error reads as \<open>- 1\<close>.\<close>

definition or_minus_one :: "int res \<Rightarrow> int" where
  "or_minus_one r = (case r of Inl _ \<Rightarrow> - 1 | Inr n \<Rightarrow> n)"

definition rp_pending_count :: "('b, outbox) pub_sys \<Rightarrow> int" where
  "rp_pending_count sys = pending_count (ps_store sys)"

definition rp_dead_letter_count :: "db_fault \<Rightarrow> ('b, outbox) pub_sys \<Rightarrow> int" where
  "rp_dead_letter_count f sys = or_minus_one (dead_letter_count f (ps_store sys))"

definition rp_outbox_max_pending :: "('b, outbox) pub_sys \<Rightarrow> int" where
  "rp_outbox_max_pending sys = max_pending (ps_store sys)"

named_theorems rp_defs \<open>the operations of the resilient publisher\<close>

declare rp_publish_def [rp_defs] publish_outbox_row_def [rp_defs] set_outbox_full_def [rp_defs]
  clear_outbox_full_def [rp_defs]

lemma secondary_frame [simp]:
  "rp_full (publish_secondary_best_effort s rp) = rp_full rp"
  "rp_full_since (publish_secondary_best_effort s rp) = rp_full_since rp"
  "rp_last_error (publish_secondary_best_effort s rp) = rp_last_error rp"
  "rp_consecutive (publish_secondary_best_effort s rp) = rp_consecutive rp"
  by (simp_all add: publish_secondary_best_effort_def split: option.splits bool.splits)

section \<open>At-least-once delivery, from the two contracts\<close>

locale resilient =
  broker pub acc +
  message_store good inv held pend used enq del mark kill
  for pub :: "'be \<Rightarrow> msg \<Rightarrow> 'b \<Rightarrow> unit res \<times> 'b" and acc
    and good :: "'se \<Rightarrow> bool" and inv :: "'s \<Rightarrow> bool" and held pend used enq del mark kill
begin

lemma publish_cases:
  assumes "rp_publish pub enq e m sys = (r, sys')"
  obtains (sent) b' where "r = Inr ()" "pub (pe_broker e) m (ps_broker sys) = (Inr (), b')"
      "ps_broker sys' = b'" "ps_store sys' = ps_store sys" "\<not> rp_full (ps_rp sys')"
      "rp_consecutive (ps_rp sys') = 0"
  | (stored) x b' i s' where "r = Inr ()" "pub (pe_broker e) m (ps_broker sys) = (Inl x, b')"
      "enq (pe_store e) m (Some (exc_text x)) (ps_store sys) = (Inr i, s')"
      "ps_broker sys' = b'" "ps_store sys' = s'" "rp_full (ps_rp sys') = rp_full (ps_rp sys)"
      "rp_consecutive (ps_rp sys') = Suc (rp_consecutive (ps_rp sys))"
  | (refused) x b' y s' where "r = Inl y" "pub (pe_broker e) m (ps_broker sys) = (Inl x, b')"
      "enq (pe_store e) m (Some (exc_text x)) (ps_store sys) = (Inl y, s')"
      "ps_broker sys' = b'" "ps_store sys' = s'" "rp_full (ps_rp sys')"
      "rp_consecutive (ps_rp sys') = Suc (rp_consecutive (ps_rp sys))"
  using assms
  by (auto simp: rp_defs Let_def split: prod.splits sum.splits if_splits)

lemma publish_inv:
  assumes "good (pe_store e)" "inv (ps_store sys)" "rp_publish pub enq e m sys = (r, sys')"
  shows "inv (ps_store sys')"
  using assms(3)
proof (cases rule: publish_cases)
  case sent
  then show ?thesis using assms by simp
qed (use assms enq_inv in blast)+

lemma publish_keeps:
  assumes "good (pe_store e)" "inv (ps_store sys)" "rp_publish pub enq e m sys = (r, sys')"
  shows "acc (ps_broker sys) \<subseteq> acc (ps_broker sys') \<and> held (ps_store sys) \<subseteq> held (ps_store sys')"
  using assms(3)
proof (cases rule: publish_cases)
  case sent
  then show ?thesis using pub_grows by auto
next
  case stored
  then show ?thesis using pub_grows enq_keeps [OF assms(1,2)] by blast
next
  case refused
  then show ?thesis using pub_grows enq_keeps [OF assms(1,2)] by blast
qed

lemma publish_safe:
  assumes "good (pe_store e)" "inv (ps_store sys)" "rp_publish pub enq e m sys = (Inr u, sys')"
  shows "norm_msg m \<in> acc (ps_broker sys') \<union> held (ps_store sys')"
  using assms(3)
proof (cases rule: publish_cases)
  case sent
  then show ?thesis using pub_accepted by auto
next
  case stored
  then show ?thesis using enq_ok [OF assms(1,2)] by blast
next
  case refused
  then show ?thesis by simp
qed

lemma publish_breaker:
  assumes "rp_publish pub enq e m sys = (r, sys')"
  shows "raised r \<Longrightarrow> rp_outbox_full sys'"
    and "fst (pub (pe_broker e) m (ps_broker sys)) = Inr () \<Longrightarrow> \<not> rp_outbox_full sys'"
  using assms by (cases rule: publish_cases; simp add: rp_outbox_full_def)+

lemma row_cases:
  assumes "publish_outbox_row pub e m sys = (r, sys')"
  shows "ps_store sys' = ps_store sys \<and> acc (ps_broker sys) \<subseteq> acc (ps_broker sys') \<and>
    (\<not> raised r \<longrightarrow> norm_msg m \<in> acc (ps_broker sys') \<and> \<not> rp_outbox_full sys')"
  using assms pub_grows pub_accepted
  by (fastforce simp: rp_defs rp_outbox_full_def Let_def split: prod.splits sum.splits if_splits)

end

interpretation js_pub: resilient js_publish js_accepted store_good store_inv store_held store_pend
  store_used store_enq store_del store_mark store_kill
  by unfold_locales

interpretation rabbit_pub: resilient rabbit_publish rabbit_accepted store_good store_inv store_held
  store_pend store_used store_enq store_del store_mark store_kill
  by unfold_locales


section \<open>Properties of the assembled publisher\<close>

definition sample_sys :: "(jetstream, outbox) pub_sys" where
  "sample_sys = \<lparr>ps_broker = sample_js, ps_store = sample_stored, ps_rp = rp_init\<rparr>"

definition sample_env :: "js_reply \<Rightarrow> db_fault \<Rightarrow> (js_reply, db_env) pub_env" where
  "sample_env b f = \<lparr>pe_broker = b, pe_store = (f, 8), pe_now = 8, pe_secondary = None\<rparr>"

lemma sample_stored_inv: "store_inv sample_stored"
  using sample_stored_ok
  by (simp add: store_inv_def settled_def sample_stored_def sample_outbox_def enqueue_def outbox_init_def
      db_write_def empty_tables_def Let_def)

text \<open>A publish over JetStream and the outbox that returns has put the message in the stream or
  committed it to the file; one that raises has tripped the circuit breaker, and its exception is
  the outbox's. Either way every earlier message is still there.\<close>

theorem publish_at_least_once:
  assumes "store_good (pe_store e)" and "store_inv (ps_store sys)"
    and "rp_publish js_publish store_enq e m sys = (r, sys')"
  shows "(case r of
      Inr _ \<Rightarrow> norm_msg m \<in> js_accepted (ps_broker sys') \<union> store_held (ps_store sys')
    | Inl y \<Rightarrow> rp_outbox_full sys' \<and>
        (\<exists>x. fst (js_publish (pe_broker e) m (ps_broker sys)) = Inl x \<and>
             fst (store_enq (pe_store e) m (Some (exc_text x)) (ps_store sys)) = Inl y)) \<and>
    js_accepted (ps_broker sys) \<subseteq> js_accepted (ps_broker sys') \<and>
    store_held (ps_store sys) \<subseteq> store_held (ps_store sys') \<and> store_inv (ps_store sys')"
proof -
  have "js_accepted (ps_broker sys) \<subseteq> js_accepted (ps_broker sys') \<and>
      store_held (ps_store sys) \<subseteq> store_held (ps_store sys')"
    using assms by (rule js_pub.publish_keeps)
  moreover have "store_inv (ps_store sys')"
    using assms by (rule js_pub.publish_inv)
  moreover have "norm_msg m \<in> js_accepted (ps_broker sys') \<union> store_held (ps_store sys')"
    if "r = Inr u" for u
    using js_pub.publish_safe assms that by blast
  moreover have "rp_outbox_full sys' \<and>
      (\<exists>x. fst (js_publish (pe_broker e) m (ps_broker sys)) = Inl x \<and>
             fst (store_enq (pe_store e) m (Some (exc_text x)) (ps_store sys)) = Inl y)"
    if "r = Inl y" for y
    using assms(3) that by (cases rule: js_pub.publish_cases) (auto simp: rp_outbox_full_def)
  ultimately show ?thesis by (auto split: sum.splits)
qed

theorem publish_at_least_once_witness:
  "rp_outbox_full (snd (rp_publish js_publish store_enq
     (sample_env (JsRaise ''timeout'' False) (DbFail 0 False ''disk I/O error'')) sample_msg sample_sys))"
proof -
  let ?e = "sample_env (JsRaise ''timeout'' False) (DbFail 0 False ''disk I/O error'')"
  have "store_good (pe_store ?e)" by (simp add: store_good_def sample_env_def)
  moreover have "store_inv (ps_store sample_sys)" by (simp add: sample_sys_def sample_stored_inv)
  moreover have "\<exists>y. fst (rp_publish js_publish store_enq ?e sample_msg sample_sys) = Inl y"
    by (simp add: rp_publish_def js_publish_def sample_sys_def sample_env_def sample_js_def Let_def store_enq_def
        sample_stored_def sample_outbox_def enqueue_def outbox_init_def db_write_def empty_tables_def)
  ultimately show ?thesis
    using publish_at_least_once [OF _ _ surjective_pairing, of ?e sample_sys sample_msg] by force
qed

text \<open>The circuit breaker: after a publish it is open exactly when the broker failed and the
  outbox failed too or it was open before; a broker success closes it and clears its error, and the
  time it opened is kept while it stays open.\<close>

theorem breaker_state:
  assumes "rp_publish js_publish store_enq e m sys = (r, sys')"
  shows "(rp_outbox_full sys' \<longleftrightarrow>
      raised (fst (js_publish (pe_broker e) m (ps_broker sys))) \<and> (raised r \<or> rp_outbox_full sys)) \<and>
    (rp_outbox_full sys \<and> rp_outbox_full sys' \<longrightarrow>
      rp_full_since (ps_rp sys') = rp_full_since (ps_rp sys)) \<and>
    (rp_outbox_full sys \<and> \<not> rp_outbox_full sys' \<longrightarrow>
      rp_full_since (ps_rp sys') = None \<and> rp_last_error (ps_rp sys') = None) \<and>
    (\<not> rp_outbox_full sys \<and> rp_outbox_full sys' \<longrightarrow> rp_full_since (ps_rp sys') = Some (pe_now e))"
  using assms
  by (auto simp: rp_defs rp_outbox_full_def Let_def split: prod.splits sum.splits if_splits)

theorem breaker_state_witness:
  "\<not> rp_outbox_full (snd (rp_publish js_publish store_enq (sample_env JsAck DbOk) sample_msg
     (sample_sys\<lparr>ps_rp := set_outbox_full 3 ''full'' rp_init\<rparr>)))"
  using breaker_state [OF surjective_pairing, of "sample_env JsAck DbOk" sample_msg
      "sample_sys\<lparr>ps_rp := set_outbox_full 3 ''full'' rp_init\<rparr>"]
  by (simp add: js_publish_def sample_sys_def sample_env_def sample_js_def Let_def)

end
