(* ===== verification/Poller.thy ===== *)
theory Poller
  imports Gw_State Adapter Resilient
begin

text \<open>
  \<open>poller.py\<close>: one poll cycle. The reader and the publisher are arguments, known by their interfaces
  \<open>telemetry_reader\<close> and \<open>publisher\<close>. Where the code counts published events the model keeps the list of
  the messages whose \<open>publish\<close> returned; the count is its length. Identifiers and time stamps are the
  environment's. In the parallel path the pool runs the tasks in an order the environment chooses, each
  as a whole, and decides which results arrive in time; a task that is too late may still have run.
\<close>

section \<open>The worker pool\<close>

text \<open>
  The module keeps one executor for all cycles: its size, and a number that tells executors apart
  (\<open>None\<close> before the first use and after \<open>_shutdown_pool\<close>); \<open>wp_max\<close> outlives the executor.
\<close>

record worker_pool =
  wp_pool :: "(nat \<times> int) option"
  wp_max :: int
  wp_made :: nat

definition pool_none :: worker_pool where
  "pool_none = \<lparr>wp_pool = None, wp_max = 0, wp_made = 0\<rparr>"

definition get_or_create_pool :: "int \<Rightarrow> worker_pool \<Rightarrow> worker_pool" where
  "get_or_create_pool workers p =
     (if wp_pool p = None \<or> workers > wp_max p
      then p\<lparr>wp_pool := Some (wp_made p, max 1 workers), wp_max := max 1 workers, wp_made := Suc (wp_made p)\<rparr>
      else p)"

definition shutdown_pool :: "worker_pool \<Rightarrow> worker_pool" where
  "shutdown_pool p = (if wp_pool p \<noteq> None then p\<lparr>wp_pool := None\<rparr> else p)"

definition pool_inv :: "worker_pool \<Rightarrow> bool" where
  "pool_inv p = (case wp_pool p of None \<Rightarrow> True | Some (i, n) \<Rightarrow> n = wp_max p \<and> 1 \<le> n \<and> i < wp_made p)"

lemma pool_inv_none: "pool_inv pool_none"
  by (simp add: pool_inv_def pool_none_def)

lemma pool_inv_get: "pool_inv p \<Longrightarrow> pool_inv (get_or_create_pool w p)"
  by (auto simp: pool_inv_def get_or_create_pool_def)

lemma pool_inv_shutdown: "pool_inv p \<Longrightarrow> pool_inv (shutdown_pool p)"
  by (auto simp: pool_inv_def shutdown_pool_def)

text \<open>A cycle gets an executor with a thread for each of its workers, and keeps the one it had when that is enough.\<close>

lemma get_or_create_pool_suffices:
  assumes "pool_inv p"
  shows "\<exists>i n. wp_pool (get_or_create_pool w p) = Some (i, n) \<and> w \<le> n \<and> 1 \<le> n"
  using assms by (cases "wp_pool p") (auto simp: pool_inv_def get_or_create_pool_def)

lemma get_or_create_pool_reuses:
  "wp_pool p = Some (i, n) \<Longrightarrow> pool_inv p \<Longrightarrow> w \<le> n \<Longrightarrow> get_or_create_pool w p = p"
  by (simp add: pool_inv_def get_or_create_pool_def)

lemma get_or_create_pool_twice:
  "pool_inv p \<Longrightarrow> v \<le> w \<Longrightarrow> get_or_create_pool v (get_or_create_pool w p) = get_or_create_pool w p"
  by (auto simp: pool_inv_def get_or_create_pool_def)

section \<open>One device\<close>

definition readable_types :: "string list" where
  "readable_types = [''analog'', ''binary'', ''counter'', ''analog_output'', ''string'']"

definition filter_readable_signals :: "signal_config list \<Rightarrow> signal_config list" where
  "filter_readable_signals ss = filter (\<lambda>s. s_type s \<in> set readable_types) ss"

record ('re, 'pe) poll_env =
  pl_read :: 're
  pl_corr :: string
  pl_iso :: string
  pl_ids :: "nat \<Rightarrow> string"
  pl_pub :: "nat \<Rightarrow> 'pe"

definition build_telemetry_payload ::
  "string \<Rightarrow> string \<Rightarrow> device_config \<Rightarrow> signal_reading \<Rightarrow> string \<Rightarrow> string \<Rightarrow> obj" where
  "build_telemetry_payload mid gw d r corr ts =
     [(''message_id'', JStr mid), (''correlation_id'', JStr corr), (''source_gateway'', JStr gw),
      (''device_code'', JStr (d_code d)), (''signal_key'', JStr (sr_key r)), (''signal_source'', JStr (sr_source r)),
      (''signal_data_type'', JStr (sr_type r)),
      (''value'', if sr_type r = ''string'' then JNull else JFloat (sr_scaled r)),
      (''value_string'', opt_json JStr (sr_string r)), (''quality'', JStr (sr_quality r)),
      (''source_timestamp'', JStr ts)]"

definition reading_msg :: "string \<Rightarrow> device_config \<Rightarrow> ('re, 'pe) poll_env \<Rightarrow> nat \<Rightarrow> signal_reading \<Rightarrow> msg" where
  "reading_msg gw d e i r =
     \<lparr>m_id = pl_ids e i, m_corr = Some (pl_corr e),
      m_headers = Some [(''source_gateway'', Some gw), (''device_code'', Some (d_code d)),
                        (''signal_key'', Some (sr_key r))],
      m_payload = build_telemetry_payload (pl_ids e i) gw d r (pl_corr e) (pl_iso e)\<rparr>"

text \<open>The loop over the readings; \<open>Inl\<close> is the \<open>OutboxFullError\<close> that stops the cycle.\<close>

fun publish_readings ::
  "('pe \<Rightarrow> msg \<Rightarrow> 'b \<Rightarrow> unit res \<times> 'b) \<Rightarrow> string \<Rightarrow> device_config \<Rightarrow> ('re, 'pe) poll_env \<Rightarrow> nat \<Rightarrow>
   signal_reading list \<Rightarrow> 'b \<Rightarrow> msg list res \<times> 'b" where
  "publish_readings pub gw d e i [] b = (Inr [], b)"
| "publish_readings pub gw d e i (r # rs) b =
     (if sr_quality r = ''no_change'' then publish_readings pub gw d e (Suc i) rs b
      else case pub (pl_pub e i) (reading_msg gw d e i r) b of
        (Inl x, b1) \<Rightarrow>
          if exc_class x = ''OutboxFullError'' then (Inl x, b1)
          else publish_readings pub gw d e (Suc i) rs b1
      | (Inr _, b1) \<Rightarrow>
          (case publish_readings pub gw d e (Suc i) rs b1 of
             (Inl x, b2) \<Rightarrow> (Inl x, b2)
           | (Inr ms, b2) \<Rightarrow> (Inr (reading_msg gw d e i r # ms), b2)))"

definition poll_device ::
  "('re \<Rightarrow> device_config \<Rightarrow> signal_config list \<Rightarrow> 'r \<Rightarrow> signal_reading list res \<times> 'r) \<Rightarrow>
   ('pe \<Rightarrow> msg \<Rightarrow> 'b \<Rightarrow> unit res \<times> 'b) \<Rightarrow> string \<Rightarrow> ('re, 'pe) poll_env \<Rightarrow> signal_config list \<Rightarrow>
   device_config \<Rightarrow> 'r \<times> 'b \<Rightarrow> msg list res \<times> 'r \<times> 'b" where
  "poll_device rd pub gw e ss d x = (case x of (r, b) \<Rightarrow>
     if ss = [] then (Inr [], r, b)
     else case rd (pl_read e) d ss r of
        (Inl _, r1) \<Rightarrow> (Inr [], r1, b)
      | (Inr rs, r1) \<Rightarrow> (case publish_readings pub gw d e 0 rs b of (ms, b1) \<Rightarrow> (ms, r1, b1)))"

section \<open>A cycle\<close>

datatype fate = InTime | TooLate bool   \<comment> \<open>too late: whether the task ran nevertheless\<close>

record ('re, 'pe) cycle =
  cy_dev :: "string \<Rightarrow> ('re, 'pe) poll_env"
  cy_stop :: "string \<Rightarrow> bool"
  cy_order :: "device_config list \<Rightarrow> device_config list"
  cy_fate :: "string \<Rightarrow> fate"

record ('r, 'b) world =
  wd_state :: gw_state
  wd_reader :: 'r
  wd_pub :: 'b

fun serial_loop ::
  "('re \<Rightarrow> device_config \<Rightarrow> signal_config list \<Rightarrow> 'r \<Rightarrow> signal_reading list res \<times> 'r) \<Rightarrow>
   ('pe \<Rightarrow> msg \<Rightarrow> 'b \<Rightarrow> unit res \<times> 'b) \<Rightarrow> string \<Rightarrow> ('re, 'pe) cycle \<Rightarrow> clock \<Rightarrow> signal_config list \<Rightarrow>
   device_config list \<Rightarrow> ('r, 'b) world \<Rightarrow> msg list \<times> ('r, 'b) world" where
  "serial_loop rd pub gw e now ss [] w = ([], w)"
| "serial_loop rd pub gw e now ss (d # ds) w =
     (if cy_stop e (d_code d) then ([], w)
      else case poll_device rd pub gw (cy_dev e (d_code d)) ss d (wd_reader w, wd_pub w) of
        (r, rd1, pb1) \<Rightarrow>
          (let w1 = w\<lparr>wd_state := mark_read (d_code d) now (wd_state w), wd_reader := rd1, wd_pub := pb1\<rparr>
           in case r of
              Inl _ \<Rightarrow> ([], w1)
            | Inr ms \<Rightarrow> (case serial_loop rd pub gw e now ss ds w1 of (ms2, w2) \<Rightarrow> (ms @ ms2, w2))))"

text \<open>The parallel path: run the tasks, collect the results that came in time, mark every device.\<close>

fun run_tasks ::
  "('re \<Rightarrow> device_config \<Rightarrow> signal_config list \<Rightarrow> 'r \<Rightarrow> signal_reading list res \<times> 'r) \<Rightarrow>
   ('pe \<Rightarrow> msg \<Rightarrow> 'b \<Rightarrow> unit res \<times> 'b) \<Rightarrow> string \<Rightarrow> ('re, 'pe) cycle \<Rightarrow> signal_config list \<Rightarrow>
   device_config list \<Rightarrow> 'r \<times> 'b \<Rightarrow> msg list \<times> 'r \<times> 'b" where
  "run_tasks rd pub gw e ss [] x = ([], x)"
| "run_tasks rd pub gw e ss (d # ds) x =
     (case cy_fate e (d_code d) of
        TooLate False \<Rightarrow> run_tasks rd pub gw e ss ds x
      | TooLate True \<Rightarrow>
          (case poll_device rd pub gw (cy_dev e (d_code d)) ss d x of (_, x1) \<Rightarrow> run_tasks rd pub gw e ss ds x1)
      | InTime \<Rightarrow>
          (case poll_device rd pub gw (cy_dev e (d_code d)) ss d x of
             (r, x1) \<Rightarrow> (case run_tasks rd pub gw e ss ds x1 of
                (ms2, x2) \<Rightarrow> ((case r of Inl _ \<Rightarrow> [] | Inr ms \<Rightarrow> ms) @ ms2, x2))))"

definition parallel_cycle ::
  "('re \<Rightarrow> device_config \<Rightarrow> signal_config list \<Rightarrow> 'r \<Rightarrow> signal_reading list res \<times> 'r) \<Rightarrow>
   ('pe \<Rightarrow> msg \<Rightarrow> 'b \<Rightarrow> unit res \<times> 'b) \<Rightarrow> string \<Rightarrow> ('re, 'pe) cycle \<Rightarrow> clock \<Rightarrow> signal_config list \<Rightarrow>
   device_config list \<Rightarrow> ('r, 'b) world \<Rightarrow> msg list \<times> ('r, 'b) world" where
  "parallel_cycle rd pub gw e now ss due w =
     (case run_tasks rd pub gw e ss (cy_order e due) (wd_reader w, wd_pub w) of
        (ms, rd1, pb1) \<Rightarrow> (ms,
          w\<lparr>wd_state := fold (\<lambda>d s. mark_read (d_code d) now s) (cy_order e due) (wd_state w),
            wd_reader := rd1, wd_pub := pb1\<rparr>))"

definition run_poll_cycle ::
  "('re \<Rightarrow> device_config \<Rightarrow> signal_config list \<Rightarrow> 'r \<Rightarrow> signal_reading list res \<times> 'r) \<Rightarrow>
   (string set \<Rightarrow> 'r \<Rightarrow> nat \<times> 'r) \<Rightarrow> ('pe \<Rightarrow> msg \<Rightarrow> 'b \<Rightarrow> unit res \<times> 'b) \<Rightarrow> ('b \<Rightarrow> bool) \<Rightarrow>
   string \<Rightarrow> ('re, 'pe) cycle \<Rightarrow> clock \<Rightarrow> int \<Rightarrow> ('r, 'b) world \<Rightarrow> msg list \<times> ('r, 'b) world" where
  "run_poll_cycle rd forget pub full gw e now max_parallel w =
     (let ss = filter_readable_signals (st_signals (wd_state w)) in
      if \<not> st_active (wd_state w) \<or> ss = [] then ([], w)
      else let w1 = w\<lparr>wd_reader := snd (forget (codes (st_devices (wd_state w))) (wd_reader w))\<rparr>;
               due = due_devices now (wd_state w)
           in if due = [] \<or> full (wd_pub w) then ([], w1)
              else if max_parallel \<le> 1 \<or> length due = 1 then serial_loop rd pub gw e now ss due w1
              else parallel_cycle rd pub gw e now ss due w1)"

section \<open>The publisher interface\<close>

text \<open>
  \<open>safe b\<close> are the messages that will reach the broker or are kept for inspection. A publish that
  returns makes its message safe, no publish makes a safe message unsafe, and one that raises leaves
  \<open>full\<close> set.
\<close>

locale publisher =
  fixes good :: "'pe \<Rightarrow> bool"
    and inv :: "'b \<Rightarrow> bool"
    and safe :: "'b \<Rightarrow> msg set"
    and full :: "'b \<Rightarrow> bool"
    and pub :: "'pe \<Rightarrow> msg \<Rightarrow> 'b \<Rightarrow> unit res \<times> 'b"
  assumes pub_inv: "good e \<Longrightarrow> inv b \<Longrightarrow> pub e m b = (r, b') \<Longrightarrow> inv b'"
    and pub_keeps: "good e \<Longrightarrow> inv b \<Longrightarrow> pub e m b = (r, b') \<Longrightarrow> safe b \<subseteq> safe b'"
    and pub_safe: "good e \<Longrightarrow> inv b \<Longrightarrow> pub e m b = (Inr u, b') \<Longrightarrow> norm_msg m \<in> safe b'"
    and pub_full: "pub e m b = (Inl x, b') \<Longrightarrow> full b'"
begin

lemma publish_readings_safe:
  assumes "\<forall>i. good (pl_pub e i)"
  shows "inv b \<Longrightarrow> publish_readings pub gw d e i rs b = (r, b') \<Longrightarrow>
    inv b' \<and> safe b \<subseteq> safe b' \<and> (\<forall>ms. r = Inr ms \<longrightarrow> norm_msg ` set ms \<subseteq> safe b') \<and> (raised r \<longrightarrow> full b')"
proof (induction rs arbitrary: i b r b')
  case (Cons q rs)
  show ?case
  proof (cases "sr_quality q = ''no_change''")
    case False
    obtain u b1 where p: "pub (pl_pub e i) (reading_msg gw d e i q) b = (u, b1)" by fastforce
    note g = assms[rule_format, of i]
    have b1: "inv b1" "safe b \<subseteq> safe b1" using pub_inv pub_keeps g Cons.prems(1) p by blast+
    show ?thesis
    proof (cases u)
      case (Inl x)
      show ?thesis
      proof (cases "exc_class x = ''OutboxFullError''")
        case True
        then show ?thesis using Cons.prems(2) False p Inl b1 pub_full by auto
      next
        case c: False
        then have "publish_readings pub gw d e (Suc i) rs b1 = (r, b')"
          using Cons.prems(2) False p Inl by simp
        then show ?thesis using Cons.IH [OF b1(1)] b1(2) by blast
      qed
    next
      case (Inr v)
      obtain r2 b2 where r2: "publish_readings pub gw d e (Suc i) rs b1 = (r2, b2)" by fastforce
      have s: "norm_msg (reading_msg gw d e i q) \<in> safe b1" using pub_safe g Cons.prems(1) p Inr by blast
      have "b' = b2" "r = (case r2 of Inl x \<Rightarrow> Inl x | Inr ms \<Rightarrow> Inr (reading_msg gw d e i q # ms))"
        using Cons.prems(2) False p Inr r2 by (auto split: sum.splits)
      then show ?thesis using Cons.IH [OF b1(1) r2] b1(2) s by (cases r2) auto
    qed
  next
    case True
    then show ?thesis using Cons.IH [OF Cons.prems(1)] Cons.prems(2) by simp
  qed
qed auto

end


text \<open>The resilient publisher over JetStream and the outbox is such a publisher.\<close>

definition js_pub_good :: "(js_reply, db_env) pub_env \<Rightarrow> bool" where
  "js_pub_good e = store_good (pe_store e)"

definition js_pub_inv :: "(jetstream, outbox) pub_sys \<Rightarrow> bool" where
  "js_pub_inv sys = store_inv (ps_store sys)"

definition js_pub_safe :: "(jetstream, outbox) pub_sys \<Rightarrow> msg set" where
  "js_pub_safe sys = js_accepted (ps_broker sys) \<union> store_held (ps_store sys)"

definition js_pub_publish ::
  "(js_reply, db_env) pub_env \<Rightarrow> msg \<Rightarrow> (jetstream, outbox) pub_sys \<Rightarrow> unit res \<times> (jetstream, outbox) pub_sys" where
  "js_pub_publish e m sys = rp_publish js_publish store_enq e m sys"

interpretation js_publisher: publisher js_pub_good js_pub_inv js_pub_safe rp_outbox_full js_pub_publish
proof (unfold_locales, goal_cases)
  case (1 e b m r b')
  then show ?case using js_pub.publish_inv by (simp add: js_pub_good_def js_pub_inv_def js_pub_publish_def)
next
  case (2 e b m r b')
  then show ?case using js_pub.publish_keeps [of e b m r b']
    by (auto simp: js_pub_good_def js_pub_inv_def js_pub_publish_def js_pub_safe_def)
next
  case (3 e b m u b')
  then show ?case using js_pub.publish_safe [of e b m u b']
    by (simp add: js_pub_good_def js_pub_inv_def js_pub_publish_def js_pub_safe_def)
next
  case (4 e m b x b')
  then show ?case using js_pub.publish_breaker(1) [of e m b "Inl x" b'] by (simp add: js_pub_publish_def)
qed

section \<open>A cycle over a reader and a publisher\<close>

definition event_of :: "string \<Rightarrow> signal_config list \<Rightarrow> device_config list \<Rightarrow> msg \<Rightarrow> bool" where
  "event_of gw ss ds m \<longleftrightarrow> (\<exists>d \<in> set ds. \<exists>s \<in> set ss.
     oget (m_payload m) ''message_id'' = JStr (m_id m) \<and> oget (m_payload m) ''source_gateway'' = JStr gw \<and>
     oget (m_payload m) ''device_code'' = JStr (d_code d) \<and> oget (m_payload m) ''signal_key'' = JStr (s_key s) \<and>
     oget (m_payload m) ''signal_source'' = JStr (s_source s) \<and>
     oget (m_payload m) ''signal_data_type'' = JStr (s_type s) \<and>
     oget (m_payload m) ''quality'' \<in> JStr ` (set qualities - {''no_change''}))"

lemma reading_event:
  assumes "d \<in> set ds" "s \<in> set ss" "sr_key r = s_key s" "sr_source r = s_source s" "sr_type r = s_type s"
    "sr_quality r \<in> set qualities" "sr_quality r \<noteq> ''no_change''"
  shows "event_of gw ss ds (reading_msg gw d e i r)"
  using assms by (auto simp: event_of_def reading_msg_def build_telemetry_payload_def oget_def intro!: bexI)

lemma publish_readings_events:
  "\<forall>r \<in> set rs. \<exists>s \<in> set ss. sr_key r = s_key s \<and> sr_source r = s_source s \<and> sr_type r = s_type s \<and>
     sr_quality r \<in> set qualities \<Longrightarrow> d \<in> set ds \<Longrightarrow>
   publish_readings pub gw d e i rs b = (Inr ms, b') \<Longrightarrow> \<forall>m \<in> set ms. event_of gw ss ds m"
proof (induction rs arbitrary: i b ms)
  case (Cons r rs)
  obtain s where s: "s \<in> set ss" "sr_key r = s_key s" "sr_source r = s_source s" "sr_type r = s_type s"
      "sr_quality r \<in> set qualities" using Cons.prems(1) by auto
  note ih = Cons.IH [OF _ Cons.prems(2)]
  show ?case
  proof (cases "sr_quality r = ''no_change''")
    case True
    then show ?thesis using ih Cons.prems(1,3) by auto
  next
    case False
    have ev: "event_of gw ss ds (reading_msg gw d e i r)"
      using reading_event [OF Cons.prems(2) s False] .
    show ?thesis
      using Cons.prems(1,3) False ih ev by (auto split: prod.splits sum.splits if_splits)
  qed
qed simp

lemma answers_signals:
  assumes "answers ss rs" "r \<in> set rs"
  shows "\<exists>s \<in> set ss. sr_key r = s_key s \<and> sr_source r = s_source s \<and> sr_type r = s_type s \<and>
    sr_quality r \<in> set qualities"
proof -
  have "(sr_key r, sr_source r, sr_type r) \<in> set (map (\<lambda>r. (sr_key r, sr_source r, sr_type r)) rs)"
    using assms(2) by force
  then have "(sr_key r, sr_source r, sr_type r) \<in> set (map (\<lambda>s. (s_key s, s_source s, s_type s)) ss)"
    using assms(1) unfolding answers_def by metis
  then show ?thesis using assms by (auto simp: answers_def list_all_iff)
qed

locale polling =
  telemetry_reader rd forget live +
  publisher good inv safe full pub
  for rd :: "'re \<Rightarrow> device_config \<Rightarrow> signal_config list \<Rightarrow> 'r \<Rightarrow> signal_reading list res \<times> 'r"
    and forget live
    and good :: "'pe \<Rightarrow> bool" and inv :: "'b \<Rightarrow> bool" and safe full pub
begin

lemma poll_device_facts:
  assumes "\<forall>i. good (pl_pub e i)" "inv b" "poll_device rd pub gw e ss d (r, b) = (x, r', b')" "d \<in> set ds"
  shows "inv b' \<and> safe b \<subseteq> safe b' \<and> live r' \<subseteq> insert (d_code d) (live r) \<and> (raised x \<longrightarrow> full b') \<and>
    (\<forall>ms. x = Inr ms \<longrightarrow> norm_msg ` set ms \<subseteq> safe b' \<and> (\<forall>m \<in> set ms. event_of gw ss ds m))"
proof (cases "ss = []")
  case False
  obtain y r1 where y: "rd (pl_read e) d ss r = (y, r1)" by fastforce
  note l = rd_live [OF y]
  show ?thesis
  proof (cases y)
    case (Inr rs)
    obtain z b1 where z: "publish_readings pub gw d e 0 rs b = (z, b1)" by fastforce
    have eq: "x = z" "r' = r1" "b' = b1" using assms(3) False y Inr z by (simp_all add: poll_device_def)
    have "answers ss rs" using rd_answers y Inr by blast
    then have "\<forall>r \<in> set rs. \<exists>s \<in> set ss. sr_key r = s_key s \<and> sr_source r = s_source s \<and> sr_type r = s_type s \<and>
     sr_quality r \<in> set qualities" using answers_signals by blast
    then have "\<forall>ms. z = Inr ms \<longrightarrow> (\<forall>m \<in> set ms. event_of gw ss ds m)"
      using publish_readings_events [OF _ assms(4), where ss = ss and rs = rs] z by metis
    then show ?thesis
      using publish_readings_safe [OF assms(1,2) z] l eq by blast
  next
    case (Inl u)
    then show ?thesis using assms(2,3) False y l by (auto simp: poll_device_def)
  qed
qed (use assms(2,3) in \<open>auto simp: poll_device_def\<close>)

definition outcome_ok ::
  "string \<Rightarrow> signal_config list \<Rightarrow> device_config list \<Rightarrow> 'r \<times> 'b \<Rightarrow> msg list \<Rightarrow> 'r \<times> 'b \<Rightarrow> bool" where
  "outcome_ok gw ss ds x ms y \<longleftrightarrow> inv (snd y) \<and> safe (snd x) \<subseteq> safe (snd y) \<and>
     live (fst y) \<subseteq> codes ds \<union> live (fst x) \<and> norm_msg ` set ms \<subseteq> safe (snd y) \<and> (\<forall>m \<in> set ms. event_of gw ss ds m)"

lemma outcome_trans:
  "outcome_ok gw ss ds x ms y \<Longrightarrow> outcome_ok gw ss ds y ms2 z \<Longrightarrow> outcome_ok gw ss ds x (ms @ ms2) z"
  unfolding outcome_ok_def by auto

lemma outcome_refl: "inv (snd x) \<Longrightarrow> outcome_ok gw ss ds x [] x"
  by (simp add: outcome_ok_def)

lemma poll_device_outcome:
  assumes "\<forall>i. good (pl_pub e i)" "inv (snd x)" "poll_device rd pub gw e ss d x = (r, y)" "d \<in> set ds"
  shows "outcome_ok gw ss ds x (case r of Inl _ \<Rightarrow> [] | Inr ms \<Rightarrow> ms) y"
proof -
  have "inv (snd y) \<and> safe (snd x) \<subseteq> safe (snd y) \<and> live (fst y) \<subseteq> insert (d_code d) (live (fst x)) \<and>
    (\<forall>ms. r = Inr ms \<longrightarrow> norm_msg ` set ms \<subseteq> safe (snd y) \<and> (\<forall>m \<in> set ms. event_of gw ss ds m))"
    using poll_device_facts [OF assms(1) _ _ assms(4), of "snd x" gw ss "fst x" r "fst y" "snd y"] assms(2,3) by simp
  moreover have "d_code d \<in> codes ds" using assms(4) by (simp add: codes_def)
  ultimately show ?thesis by (cases r) (auto simp: outcome_ok_def)
qed

lemma outcome_weaken: "outcome_ok gw ss ds x ms y \<Longrightarrow> outcome_ok gw ss ds x [] y"
  by (simp add: outcome_ok_def)

lemma serial_outcome:
  assumes "\<forall>c i. good (pl_pub (cy_dev e c) i)"
  shows "inv (wd_pub w) \<Longrightarrow> set ds \<subseteq> set all \<Longrightarrow> serial_loop rd pub gw e now ss ds w = (ms, w') \<Longrightarrow>
    outcome_ok gw ss all (wd_reader w, wd_pub w) ms (wd_reader w', wd_pub w')"
proof (induction ds arbitrary: w ms w')
  case (Cons d ds)
  show ?case
  proof (cases "cy_stop e (d_code d)")
    case False
    obtain r rd1 pb1 where p: "poll_device rd pub gw (cy_dev e (d_code d)) ss d (wd_reader w, wd_pub w) = (r, rd1, pb1)"
      by (metis prod_cases3)
    let ?w1 = "w\<lparr>wd_state := mark_read (d_code d) now (wd_state w), wd_reader := rd1, wd_pub := pb1\<rparr>"
    have o1: "outcome_ok gw ss all (wd_reader w, wd_pub w) (case r of Inl _ \<Rightarrow> [] | Inr ms \<Rightarrow> ms) (rd1, pb1)"
      using poll_device_outcome [OF _ _ p] assms Cons.prems(1,2) by auto
    then have i1: "inv pb1" by (simp add: outcome_ok_def)
    show ?thesis
    proof (cases r)
      case (Inl x)
      then show ?thesis using Cons.prems(3) False p o1 by (auto simp: Let_def)
    next
      case (Inr ms1)
      obtain ms2 w2 where s: "serial_loop rd pub gw e now ss ds ?w1 = (ms2, w2)" by fastforce
      have "outcome_ok gw ss all (wd_reader ?w1, wd_pub ?w1) ms2 (wd_reader w2, wd_pub w2)"
        using Cons.IH [OF _ _ s] Cons.prems(2) i1 by simp
      then show ?thesis
        using Cons.prems(3) False p Inr s outcome_trans [of gw ss all _ ms1 "(rd1, pb1)" ms2 "(wd_reader w2, wd_pub w2)"] o1
        by (auto simp: Let_def)
    qed
  qed (use Cons.prems in \<open>auto simp: outcome_refl\<close>)
qed (auto simp: outcome_refl)

lemma tasks_outcome:
  assumes "\<forall>c i. good (pl_pub (cy_dev e c) i)"
  shows "inv (snd x) \<Longrightarrow> set ds \<subseteq> set all \<Longrightarrow> run_tasks rd pub gw e ss ds x = (ms, y) \<Longrightarrow> outcome_ok gw ss all x ms y"
proof (induction ds arbitrary: x ms)
  case (Cons d ds)
  show ?case
  proof (cases "cy_fate e (d_code d) = TooLate False")
    case False
    obtain r x1 where p: "poll_device rd pub gw (cy_dev e (d_code d)) ss d x = (r, x1)" by (metis surj_pair)
    have o1: "outcome_ok gw ss all x (case r of Inl _ \<Rightarrow> [] | Inr ms \<Rightarrow> ms) x1"
      using poll_device_outcome [OF _ _ p] assms Cons.prems(1,2) by auto
    then have i1: "inv (snd x1)" by (simp add: outcome_ok_def)
    obtain ms2 where s: "run_tasks rd pub gw e ss ds x1 = (ms2, y)"
      using Cons.prems(3) p False by (auto split: fate.splits bool.splits prod.splits)
    have o2: "outcome_ok gw ss all x1 ms2 y" using Cons.IH [OF i1 _ s] Cons.prems(2) by simp
    show ?thesis
      using Cons.prems(3) p s False outcome_trans [OF o1 o2] outcome_trans [OF outcome_weaken [OF o1] o2]
      by (auto split: fate.splits bool.splits)
  qed (use Cons in auto)
qed (auto simp: outcome_refl)

lemma cycle_outcome:
  assumes "\<forall>c i. good (pl_pub (cy_dev e c) i)" "inv (wd_pub w)"
    "\<forall>ds. set (cy_order e ds) = set ds"
    "run_poll_cycle rd forget pub full gw e now mp w = (ms, w')"
  shows "inv (wd_pub w') \<and> safe (wd_pub w) \<subseteq> safe (wd_pub w') \<and> norm_msg ` set ms \<subseteq> safe (wd_pub w') \<and>
    (\<forall>m \<in> set ms. event_of gw (filter_readable_signals (st_signals (wd_state w))) (due_devices now (wd_state w)) m) \<and>
    (st_active (wd_state w) \<and> filter_readable_signals (st_signals (wd_state w)) \<noteq> [] \<longrightarrow>
       live (wd_reader w') \<subseteq> codes (st_devices (wd_state w)))"
proof -
  let ?ss = "filter_readable_signals (st_signals (wd_state w))" and ?due = "due_devices now (wd_state w)"
  let ?w1 = "w\<lparr>wd_reader := snd (forget (codes (st_devices (wd_state w))) (wd_reader w))\<rparr>"
  have l1: "live (wd_reader ?w1) \<subseteq> codes (st_devices (wd_state w))"
    using forget_live [OF surjective_pairing] by simp
  have due: "codes ?due \<subseteq> codes (st_devices (wd_state w))" by (auto simp: due_devices_def codes_def)
  have ok: ?thesis if "outcome_ok gw ?ss ?due (wd_reader ?w1, wd_pub ?w1) ms (wd_reader w', wd_pub w')"
    using that l1 due by (auto simp: outcome_ok_def)
  show ?thesis
  proof (cases "\<not> st_active (wd_state w) \<or> ?ss = []")
    case True
    then show ?thesis using assms(2,4) by (auto simp: run_poll_cycle_def Let_def)
  next
    case act: False
    show ?thesis
    proof (cases "?due = [] \<or> full (wd_pub w)")
      case True
      then have "ms = []" "w' = ?w1" using assms(4) act by (auto simp: run_poll_cycle_def Let_def)
      then show ?thesis using assms(2) l1 by simp
    next
      case go: False
      show ?thesis
      proof (cases "mp \<le> 1 \<or> length ?due = 1")
        case True
        then have "serial_loop rd pub gw e now ?ss ?due ?w1 = (ms, w')"
          using assms(4) act go by (auto simp: run_poll_cycle_def Let_def)
        from serial_outcome [OF assms(1) _ subset_refl this] show ?thesis using assms(2) by (intro ok) simp
      next
        case False
        then have p: "parallel_cycle rd pub gw e now ?ss ?due ?w1 = (ms, w')"
          using assms(4) act go by (auto simp: run_poll_cycle_def Let_def)
        obtain y where y: "run_tasks rd pub gw e ?ss (cy_order e ?due) (wd_reader ?w1, wd_pub ?w1) = (ms, y)"
          "wd_reader w' = fst y" "wd_pub w' = snd y"
          using p by (auto simp: parallel_cycle_def split: prod.splits)
        have "set (cy_order e ?due) \<subseteq> set ?due" using assms(3) by blast
        from tasks_outcome [OF assms(1) _ this y(1)] show ?thesis using assms(2) y by (intro ok) simp
      qed
    qed
  qed
qed

end

end
