(* ===== verification/Dnp3_Session.thy ===== *)
theory Dnp3_Session
  imports Adapter "HOL-Library.AList"
begin

text \<open>
  \<open>adapters/dnp3_master.py\<close>, the part around one outstation: read strategies, the direct reads by
  range, chunk and single index, the event driven reads with their cache, and the session
  (\<open>Dnp3DeviceSession\<close>). The \<open>dnp3py\<close> master is third-party code: its state \<open>'m\<close> and its calls are the
  fields of \<open>'m dnp3_env\<close>. A call answers or raises; \<open>is_connected\<close> that raises reads as False.
  The event cache and the time of the last baseline belong to the device and outlive the session
  (\<open>attach_cache\<close>), so the operations get them as an argument \<open>ev\<close> and return them.
\<close>

section \<open>Strategies and options\<close>

datatype read_strategy = Rs_Integrity | Rs_Class0 | Rs_Direct | Rs_Event_Driven

definition normalize_read_strategy :: "string \<Rightarrow> read_strategy" where
  "normalize_read_strategy v =
     (let s = py_lower (py_strip (if v = [] then ''event_driven'' else v)) in
      if s \<in> {''integrity'', ''full'', ''all''} then Rs_Integrity
      else if s \<in> {''class0'', ''class_0'', ''c0'', ''static''} then Rs_Class0
      else if s \<in> {''direct'', ''range'', ''by_index'', ''points''} then Rs_Direct
      else Rs_Event_Driven)"

record dnp3_opts =
  do_strategy :: read_strategy
  do_max_points :: int
  do_sparse_ratio :: int
  do_link_reset :: bool
  do_disable_unsol :: bool
  do_unsol_mask :: int
  do_baseline_interval :: int

definition dnp3_opts_init :: "string \<Rightarrow> int \<Rightarrow> int \<Rightarrow> bool \<Rightarrow> bool \<Rightarrow> int \<Rightarrow> int \<Rightarrow> dnp3_opts" where
  "dnp3_opts_init strategy max_points sparse reset disable umask baseline =
     \<lparr>do_strategy = normalize_read_strategy strategy, do_max_points = max 1 max_points,
      do_sparse_ratio = max 2 sparse, do_link_reset = reset, do_disable_unsol = disable,
      do_unsol_mask = max 0 (min 7 umask), do_baseline_interval = max 5 baseline\<rparr>"

section \<open>The master library\<close>

type_synonym point_obj = "int \<times> pyfloat"   \<comment> \<open>index and value\<close>

record poll =
  po_success :: bool
  po_binary_inputs :: "point_obj list"
  po_binary_outputs :: "point_obj list"
  po_analog_inputs :: "point_obj list"
  po_analog_outputs :: "point_obj list"
  po_counters :: "point_obj list"

record 'm dnp3_env =
  de_now :: clock
  de_open :: "'m res"                                       \<comment> \<open>\<open>DNP3Master(cfg)\<close>, \<open>open()\<close>\<close>
  de_reset :: "'m \<Rightarrow> unit res \<times> 'm"                         \<comment> \<open>\<open>_reset_link\<close>\<close>
  de_disable :: "int \<Rightarrow> 'm \<Rightarrow> bool res \<times> 'm"                \<comment> \<open>\<open>disable_unsolicited\<close>\<close>
  de_read :: "int \<Rightarrow> int \<Rightarrow> int \<Rightarrow> 'm \<Rightarrow> point_obj list res \<times> 'm"   \<comment> \<open>\<open>read_analog_inputs\<close>, ... by group\<close>
  de_class :: "int \<Rightarrow> 'm \<Rightarrow> poll res \<times> 'm"                  \<comment> \<open>\<open>read_class\<close>\<close>
  de_integrity :: "'m \<Rightarrow> poll res \<times> 'm"
  de_up :: "'m \<Rightarrow> bool"                                     \<comment> \<open>\<open>is_connected\<close>\<close>

definition is_dnp3_error :: "pyexc \<Rightarrow> bool" where
  "is_dnp3_error x \<longleftrightarrow> exc_class x = ''DNP3Error''"

definition adapter_error :: "string \<Rightarrow> pyexc" where
  "adapter_error t = PyExc ''Dnp3AdapterError'' t"

definition is_adapter_error :: "pyexc \<Rightarrow> bool" where
  "is_adapter_error x \<longleftrightarrow> exc_class x = ''Dnp3AdapterError''"

text \<open>\<open>_install_empty_frame_filter\<close>: frames without user data are skipped until the deadline; after it
  the next frame comes unfiltered. An arrival is the time the library's receive call took and what it
  returned (the length of the user data) or raised; \<open>None\<close> when the arrivals run out.\<close>

fun filtered_receive :: "clock \<Rightarrow> (clock \<times> nat res) list \<Rightarrow> nat res option" where
  "filtered_receive remaining [] = None"
| "filtered_receive remaining ((t, f) # fs) =
     (if remaining \<le> 0 then Some f
      else case f of
        Inl x \<Rightarrow> Some (Inl x)
      | Inr n \<Rightarrow> if n > 0 then Some (Inr n) else filtered_receive (remaining - t) fs)"

section \<open>Direct reads\<close>

definition point_raw :: "int \<Rightarrow> pyfloat \<Rightarrow> pyfloat" where
  "point_raw g v = (if g = 1 \<or> g = 10 then (if feq v (Fin 0) then Fin 0 else Fin 1) else v)"

definition direct_range_ok :: "int \<Rightarrow> bool" where
  "direct_range_ok g \<longleftrightarrow> g \<in> {1, 10, 20, 30, 40}"

definition effective_chunk :: "int \<Rightarrow> int \<Rightarrow> int" where
  "effective_chunk base g = (if g = 30 then min base 12 else base)"

definition find_index :: "point_obj list \<Rightarrow> int \<Rightarrow> point_obj option" where
  "find_index items i = find (\<lambda>it. fst it = i) items"

type_synonym value_cache = "(point \<times> pyfloat) list"

definition store_points :: "int \<Rightarrow> point_obj list \<Rightarrow> value_cache \<Rightarrow> value_cache" where
  "store_points g objs c = fold (\<lambda>(i, v). AList.update (g, i) (point_raw g v)) objs c"

text \<open>The fill functions return the exception that left them, if any.\<close>

fun fill_sequential ::
  "'m dnp3_env \<Rightarrow> int \<Rightarrow> int list \<Rightarrow> value_cache \<times> 'm \<Rightarrow> pyexc option \<times> value_cache \<times> 'm" where
  "fill_sequential e g [] x = (None, x)"
| "fill_sequential e g (i # is) (c, m) =
     (if \<not> direct_range_ok g then (None, c, m)
      else case de_read e g i i m of
        (Inl x, m1) \<Rightarrow> if is_dnp3_error x then fill_sequential e g is (c, m1) else (Some x, c, m1)
      | (Inr objs, m1) \<Rightarrow> fill_sequential e g is (store_points g objs c, m1))"

definition read_range_one :: "'m dnp3_env \<Rightarrow> int \<Rightarrow> int \<Rightarrow> int \<Rightarrow> 'm \<Rightarrow> point_obj list res \<times> 'm" where
  "read_range_one e g a b m = (if direct_range_ok g then de_read e g a b m else (Inr [], m))"

text \<open>The attempts at one chunk; \<open>Inl None\<close> is \<open>success = False\<close>, \<open>Inl (Some x)\<close> an exception that leaves.\<close>

fun chunk_attempts :: "nat \<Rightarrow> 'm dnp3_env \<Rightarrow> int \<Rightarrow> int \<Rightarrow> int \<Rightarrow> 'm \<Rightarrow> (pyexc option + point_obj list) \<times> 'm" where
  "chunk_attempts 0 e g a b m = (Inl None, m)"
| "chunk_attempts (Suc n) e g a b m = (case read_range_one e g a b m of
       (Inr objs, m1) \<Rightarrow> (Inr objs, m1)
     | (Inl x, m1) \<Rightarrow> if is_dnp3_error x then chunk_attempts n e g a b m1 else (Inl (Some x), m1))"

text \<open>The loop over the chunks. The session's chunk size is at least one (\<open>effective_chunk_pos\<close>).\<close>

function fill_chunks ::
  "'m dnp3_env \<Rightarrow> int \<Rightarrow> int \<Rightarrow> int \<Rightarrow> int list \<Rightarrow> int \<Rightarrow> value_cache \<times> 'm \<Rightarrow> pyexc option \<times> value_cache \<times> 'm" where
  "fill_chunks e g nmax hi idxs a (c, m) =
     (if a > hi \<or> nmax < 1 then (None, c, m)
      else let b = min (a + nmax - 1) hi in
        case chunk_attempts 2 e g a b m of
          (Inl (Some x), m1) \<Rightarrow> (Some x, c, m1)
        | (Inr objs, m1) \<Rightarrow>
            fill_chunks e g nmax hi idxs (b + 1) (store_points g (filter (\<lambda>ob. fst ob \<in> set idxs) objs) c, m1)
        | (Inl None, m1) \<Rightarrow>
            (case fill_sequential e g (filter (\<lambda>i. a \<le> i \<and> i \<le> b) idxs) (c, m1) of
               (Some x, c2, m2) \<Rightarrow> (Some x, c2, m2)
             | (None, c2, m2) \<Rightarrow> fill_chunks e g nmax hi idxs (b + 1) (c2, m2)))"
  by pat_completeness auto
termination
  by (relation "measure (\<lambda>(e, g, nmax, hi, idxs, a, x). nat (hi + 1 - a))") auto

definition groups_of :: "signal_config list \<Rightarrow> int list" where
  \<comment> \<open>the keys of \<open>by_group\<close> in insertion order\<close>
  "groups_of ss = rev (remdups (rev (map s_group ss)))"

definition indices_of :: "int \<Rightarrow> signal_config list \<Rightarrow> int list" where
  "indices_of g ss = sort (remdups (map s_index (filter (\<lambda>s. s_group s = g) ss)))"

definition too_sparse :: "dnp3_opts \<Rightarrow> int list \<Rightarrow> bool" where
  "too_sparse opts idxs \<longleftrightarrow> int (length idxs) * do_sparse_ratio opts < last idxs - hd idxs + 1"

definition direct_group ::
  "'m dnp3_env \<Rightarrow> dnp3_opts \<Rightarrow> int \<Rightarrow> int list \<Rightarrow> value_cache \<times> 'm \<Rightarrow> pyexc option \<times> value_cache \<times> 'm" where
  "direct_group e opts g idxs x = (case x of (c, m) \<Rightarrow>
     if \<not> direct_range_ok g \<or> too_sparse opts idxs then fill_sequential e g idxs (c, m)
     else if last idxs - hd idxs + 1 \<le> effective_chunk (do_max_points opts) g then
       (case read_range_one e g (hd idxs) (last idxs) m of
          (Inr objs, m1) \<Rightarrow> (None, store_points g objs c, m1)
        | (Inl y, m1) \<Rightarrow> if is_dnp3_error y then fill_sequential e g idxs (c, m1) else (Some y, c, m1))
     else fill_chunks e g (effective_chunk (do_max_points opts) g) (last idxs) idxs (hd idxs) (c, m))"

fun direct_groups ::
  "'m dnp3_env \<Rightarrow> dnp3_opts \<Rightarrow> signal_config list \<Rightarrow> int list \<Rightarrow> value_cache \<times> 'm \<Rightarrow>
   pyexc option \<times> value_cache \<times> 'm" where
  "direct_groups e opts ss [] x = (None, x)"
| "direct_groups e opts ss (g # gs) x =
     (if g = 110 then direct_groups e opts ss gs x
      else case direct_group e opts g (indices_of g ss) x of
        (Some y, x1) \<Rightarrow> (Some y, x1)
      | (None, x1) \<Rightarrow> direct_groups e opts ss gs x1)"

type_synonym batch = "(pyfloat \<times> string) list"

definition direct_answer :: "value_cache \<Rightarrow> signal_config \<Rightarrow> pyfloat \<times> string" where
  "direct_answer c s =
     (if s_group s = 110 then (Fin 0, ''good'')
      else case map_of c (point_of s) of
        None \<Rightarrow> (Fin 0, ''no_change'')
      | Some v \<Rightarrow> (v, ''good''))"

definition read_batch_direct ::
  "'m dnp3_env \<Rightarrow> dnp3_opts \<Rightarrow> signal_config list \<Rightarrow> 'm \<Rightarrow> batch res \<times> 'm" where
  "read_batch_direct e opts ss m = (case direct_groups e opts ss (groups_of ss) ([], m) of
       (Some x, c, m1) \<Rightarrow> (Inl x, m1)
     | (None, c, m1) \<Rightarrow> (Inr (map (direct_answer c) ss), m1))"


section \<open>Event driven reads\<close>

record event_cache =
  ev_values :: value_cache
  ev_baseline :: clock

definition ev_init :: event_cache where
  "ev_init = \<lparr>ev_values = [], ev_baseline = 0\<rparr>"

definition group_priority :: "int \<Rightarrow> int" where
  "group_priority g =
     (if g = 1 then 0 else if g = 30 then 1 else if g = 20 then 2 else if g = 10 then 3 else if g = 40 then 4 else 99)"

text \<open>\<open>_absorb_signals_via_direct\<close>; the flag says that the loop over the groups goes on.\<close>

definition absorb_group ::
  "'m dnp3_env \<Rightarrow> dnp3_opts \<Rightarrow> int \<Rightarrow> int list \<Rightarrow> value_cache \<times> 'm \<Rightarrow> bool \<times> pyexc option \<times> value_cache \<times> 'm" where
  "absorb_group e opts g idxs x = (case x of (c, m) \<Rightarrow>
     if \<not> direct_range_ok g \<or> too_sparse opts idxs then (True, fill_sequential e g idxs (c, m))
     else if last idxs - hd idxs + 1 \<le> effective_chunk (do_max_points opts) g then
       (case read_range_one e g (hd idxs) (last idxs) m of
          (Inr objs, m1) \<Rightarrow> (True, None, store_points g objs c, m1)
        | (Inl y, m1) \<Rightarrow>
            if is_dnp3_error y then
              (True, if de_up e m1 then fill_sequential e g idxs (c, m1) else (None, c, m1))
            else (False, None, c, m1))
     else (True, fill_chunks e g (effective_chunk (do_max_points opts) g) (last idxs) idxs (hd idxs) (c, m)))"

fun absorb_groups ::
  "'m dnp3_env \<Rightarrow> dnp3_opts \<Rightarrow> signal_config list \<Rightarrow> int list \<Rightarrow> value_cache \<times> 'm \<Rightarrow>
   pyexc option \<times> value_cache \<times> 'm" where
  "absorb_groups e opts ss [] x = (None, x)"
| "absorb_groups e opts ss (g # gs) x =
     (if g = 110 then absorb_groups e opts ss gs x
      else if \<not> de_up e (snd x) then (None, x)
      else case absorb_group e opts g (indices_of g ss) x of
        (go, Some y, x1) \<Rightarrow> (Some y, x1)
      | (go, None, x1) \<Rightarrow> if go then absorb_groups e opts ss gs x1 else (None, x1))"

definition absorb_signals ::
  "'m dnp3_env \<Rightarrow> dnp3_opts \<Rightarrow> signal_config list \<Rightarrow> value_cache \<times> 'm \<Rightarrow> pyexc option \<times> value_cache \<times> 'm" where
  "absorb_signals e opts ss x = absorb_groups e opts ss (sort_key group_priority (groups_of ss)) x"

definition put_point :: "int \<Rightarrow> point_obj \<Rightarrow> value_cache \<times> point set \<Rightarrow> value_cache \<times> point set" where
  "put_point g ob x = (case x of (c, ch) \<Rightarrow>
     let key = (g, fst ob); v = point_raw g (snd ob) in
     case map_of c key of
       Some prev \<Rightarrow> if feq prev v then (c, ch) else (AList.update key v c, insert key ch)
     | None \<Rightarrow> (AList.update key v c, insert key ch))"

definition poll_objects :: "poll \<Rightarrow> (int \<times> point_obj) list" where
  \<comment> \<open>the objects of a poll with their group, in the order they are put\<close>
  "poll_objects p = map (Pair 1) (po_binary_inputs p) @ map (Pair 10) (po_binary_outputs p) @
     map (Pair 30) (po_analog_inputs p) @ map (Pair 40) (po_analog_outputs p) @ map (Pair 20) (po_counters p)"

definition absorb_poll :: "poll \<Rightarrow> value_cache \<times> point set \<Rightarrow> value_cache \<times> point set" where
  "absorb_poll p x = fold (\<lambda>(g, ob). put_point g ob) (poll_objects p) x"

fun poll_with_retry :: "nat \<Rightarrow> ('m \<Rightarrow> poll res \<times> 'm) \<Rightarrow> 'm \<Rightarrow> poll option \<times> 'm" where
  "poll_with_retry 0 f m = (None, m)"
| "poll_with_retry (Suc n) f m = (case f m of
       (Inl x, m1) \<Rightarrow> poll_with_retry n f m1
     | (Inr p, m1) \<Rightarrow> if po_success p then (Some p, m1) else poll_with_retry n f m1)"

text \<open>The event classes 1, 2, 3: the cache, the changed points, whether some poll succeeded.\<close>

fun event_polls ::
  "'m dnp3_env \<Rightarrow> int list \<Rightarrow> (value_cache \<times> point set) \<times> bool \<Rightarrow> 'm \<Rightarrow> ((value_cache \<times> point set) \<times> bool) \<times> 'm" where
  "event_polls e [] x m = (x, m)"
| "event_polls e (cls # cs) (x, ok) m = (case poll_with_retry 2 (de_class e cls) m of
       (None, m1) \<Rightarrow> event_polls e cs (x, ok) m1
     | (Some p, m1) \<Rightarrow> event_polls e cs (absorb_poll p x, True) m1)"

definition materialize :: "bool \<Rightarrow> point set \<Rightarrow> value_cache \<Rightarrow> signal_config \<Rightarrow> pyfloat \<times> string" where
  "materialize force_good ch c s =
     (if s_group s = 110 then (Fin 0, if force_good then ''good'' else ''no_change'')
      else case map_of c (point_of s) of
        None \<Rightarrow> (Fin 0, ''invalid'')
      | Some v \<Rightarrow> (v, if force_good \<or> point_of s \<in> ch then ''good'' else ''no_change''))"

definition baseline_due :: "'m dnp3_env \<Rightarrow> dnp3_opts \<Rightarrow> event_cache \<Rightarrow> bool" where
  "baseline_due e opts ev \<longleftrightarrow>
     ev_values ev = [] \<or> de_now e - ev_baseline ev \<ge> of_int (do_baseline_interval opts)"

text \<open>The last component is the session's master afterwards, \<open>None\<close> after \<open>_mark_disconnected\<close>.\<close>

definition read_event_driven ::
  "'m dnp3_env \<Rightarrow> dnp3_opts \<Rightarrow> signal_config list \<Rightarrow> event_cache \<Rightarrow> 'm \<Rightarrow> batch res \<times> event_cache \<times> 'm option" where
  "read_event_driven e opts ss ev m =
     (if baseline_due e opts ev then
        (case absorb_signals e opts ss (ev_values ev, m) of
           (Some x, c, m1) \<Rightarrow> (Inl x, ev\<lparr>ev_values := c\<rparr>, Some m1)
         | (None, c, m1) \<Rightarrow>
             if c = [] then (Inr (map (\<lambda>s. (Fin 0, ''no_change'')) ss), ev\<lparr>ev_values := c\<rparr>, None)
             else (Inr (map (materialize True {} c) ss), \<lparr>ev_values = c, ev_baseline = de_now e\<rparr>, Some m1))
      else (case event_polls e [1, 2, 3] ((ev_values ev, {}), False) m of
         (((c, ch), ok), m1) \<Rightarrow>
           (Inr (if \<not> ok \<and> c = [] then map (\<lambda>s. (Fin 0, ''invalid'')) ss
                 else map (materialize False ch c) ss), ev\<lparr>ev_values := c\<rparr>, Some m1)))"

section \<open>Class 0 and integrity polls\<close>

definition poll_items :: "int \<Rightarrow> poll \<Rightarrow> point_obj list" where
  "poll_items g p = (if g = 30 then po_analog_inputs p else if g = 40 then po_analog_outputs p
     else if g = 1 then po_binary_inputs p else if g = 10 then po_binary_outputs p
     else if g = 20 then po_counters p else [])"

definition raw_from_poll :: "poll \<Rightarrow> signal_config \<Rightarrow> pyfloat res" where
  "raw_from_poll p s =
     (if s_group s = 110 then Inr (Fin 0)
      else if \<not> direct_range_ok (s_group s) then Inl (adapter_error ''desteklenmeyen object_group'')
      else case find_index (poll_items (s_group s) p) (s_index s) of
        None \<Rightarrow> Inl (adapter_error ''index yok'')
      | Some ob \<Rightarrow> Inr (point_raw (s_group s) (snd ob)))"

text \<open>When no object has the index asked for, the first one of the answer is taken.\<close>

definition read_direct :: "'m dnp3_env \<Rightarrow> signal_config \<Rightarrow> 'm \<Rightarrow> pyfloat res \<times> 'm" where
  "read_direct e s m =
     (if s_group s = 110 then (Inr (Fin 0), m)
      else if \<not> direct_range_ok (s_group s) then (Inl (adapter_error ''desteklenmeyen object_group''), m)
      else case de_read e (s_group s) (s_index s) (s_index s) m of
        (Inl x, m1) \<Rightarrow> (Inl (if is_dnp3_error x then adapter_error (exc_text x) else x), m1)
      | (Inr items, m1) \<Rightarrow>
          (case find_index items (s_index s) of
             Some ob \<Rightarrow> (Inr (point_raw (s_group s) (snd ob)), m1)
           | None \<Rightarrow> (case items of
                 [] \<Rightarrow> (Inl (adapter_error ''direkt okuma bosa''), m1)
               | ob # _ \<Rightarrow> (Inr (point_raw (s_group s) (snd ob)), m1))))"

definition raw_for_signal :: "'m dnp3_env \<Rightarrow> poll \<Rightarrow> signal_config \<Rightarrow> 'm \<Rightarrow> pyfloat res \<times> 'm" where
  "raw_for_signal e p s m = (case raw_from_poll p s of Inr v \<Rightarrow> (Inr v, m) | Inl _ \<Rightarrow> read_direct e s m)"

fun batch_from_poll :: "'m dnp3_env \<Rightarrow> poll \<Rightarrow> signal_config list \<Rightarrow> 'm \<Rightarrow> batch res \<times> 'm" where
  "batch_from_poll e p [] m = (Inr [], m)"
| "batch_from_poll e p (s # ss) m = (case raw_for_signal e p s m of
       (Inl x, m1) \<Rightarrow>
         if is_adapter_error x
         then (case batch_from_poll e p ss m1 of
                 (Inl y, m2) \<Rightarrow> (Inl y, m2) | (Inr out, m2) \<Rightarrow> (Inr ((Fin 0, ''no_change'') # out), m2))
         else (Inl x, m1)
     | (Inr v, m1) \<Rightarrow>
         (case batch_from_poll e p ss m1 of
            (Inl y, m2) \<Rightarrow> (Inl y, m2) | (Inr out, m2) \<Rightarrow> (Inr ((v, ''good'') # out), m2)))"

definition read_polled ::
  "'m dnp3_env \<Rightarrow> dnp3_opts \<Rightarrow> signal_config list \<Rightarrow> 'm \<Rightarrow> batch res \<times> 'm option" where
  "read_polled e opts ss m =
     (case poll_with_retry 2 (if do_strategy opts = Rs_Class0 then de_class e 0 else de_integrity e) m of
        (None, m1) \<Rightarrow> (Inr (map (\<lambda>s. (Fin 0, ''no_change'')) ss), None)
      | (Some p, m1) \<Rightarrow> (case batch_from_poll e p ss m1 of
            (Inl x, m2) \<Rightarrow> (Inl x, Some m2)
          | (Inr out, m2) \<Rightarrow> (Inr out, None)))"

section \<open>The session\<close>

record 'm session =
  se_device :: device_config
  se_local :: int
  se_port :: int
  se_master :: "'m option"

definition fingerprint :: "device_config \<Rightarrow> int \<Rightarrow> int \<Rightarrow> string \<times> string \<times> int \<times> int \<times> int" where
  "fingerprint d port local = (d_code d, py_strip (d_ip d), port, d_address d, local)"

definition session_init :: "device_config \<Rightarrow> int \<Rightarrow> int \<Rightarrow> 'm session" where
  "session_init d local port = \<lparr>se_device = d, se_local = local, se_port = port, se_master = None\<rparr>"

definition session_fingerprint :: "'m session \<Rightarrow> string \<times> string \<times> int \<times> int \<times> int" where
  "session_fingerprint s = fingerprint (se_device s) (se_port s) (se_local s)"

definition should_disable :: "dnp3_opts \<Rightarrow> bool" where
  "should_disable opts \<longleftrightarrow>
     do_disable_unsol opts \<and> do_unsol_mask opts > 0 \<and> do_strategy opts \<noteq> Rs_Event_Driven"

text \<open>A failed link reset and a failed \<open>disable_unsolicited\<close> are only logged.\<close>

definition session_connect :: "'m dnp3_env \<Rightarrow> dnp3_opts \<Rightarrow> 'm session \<Rightarrow> unit res \<times> 'm session" where
  "session_connect e opts s = (case se_master s of
       Some m \<Rightarrow> (Inr (), s)
     | None \<Rightarrow> (case de_open e of
           Inl x \<Rightarrow> (Inl (adapter_error (''DNP3 baglanti kurulamadi: '' @ exc_text x)), s)
         | Inr m \<Rightarrow>
             (let m1 = (if do_link_reset opts then snd (de_reset e m) else m);
                  m2 = (if should_disable opts then snd (de_disable e (do_unsol_mask opts) m1) else m1)
              in (Inr (), s\<lparr>se_master := Some m2\<rparr>))))"

definition session_close :: "'m session \<Rightarrow> 'm session" where
  "session_close s = s\<lparr>se_master := None\<rparr>"

definition master_connected :: "'m dnp3_env \<Rightarrow> 'm session \<Rightarrow> bool" where
  "master_connected e s = (case se_master s of None \<Rightarrow> False | Some m \<Rightarrow> de_up e m)"

definition read_batch ::
  "'m dnp3_env \<Rightarrow> dnp3_opts \<Rightarrow> signal_config list \<Rightarrow> event_cache \<Rightarrow> 'm session \<Rightarrow>
   batch res \<times> event_cache \<times> 'm session" where
  "read_batch e opts ss ev s = (case se_master s of
       None \<Rightarrow> (Inl (adapter_error ''device session closed''), ev, s)
     | Some m \<Rightarrow>
         if ss = [] then (Inr [], ev, s)
         else case do_strategy opts of
           Rs_Event_Driven \<Rightarrow> (case read_event_driven e opts ss ev m of
               (r, ev1, mo) \<Rightarrow> (r, ev1, s\<lparr>se_master := mo\<rparr>))
         | Rs_Direct \<Rightarrow> (case read_batch_direct e opts ss m of (r, m1) \<Rightarrow> (r, ev, s\<lparr>se_master := Some m1\<rparr>))
         | _ \<Rightarrow> (case read_polled e opts ss m of (r, mo) \<Rightarrow> (r, ev, s\<lparr>se_master := mo\<rparr>)))"

end
