(* ===== verification/Dnp3_Reads.thy ===== *)
theory Dnp3_Reads
  imports Dnp3_Session
begin

text \<open>
  What the reads of \<open>Dnp3DeviceSession\<close> return: direct reads in ranges, chunks and single indices agree
  with reading every point on its own; a baseline that read nothing; a consumer of the event driven
  reads stays in step with the cache.
\<close>

section \<open>An outstation and its library\<close>

text \<open>
  \<open>tab\<close> is the outstation's table of points. The library is honest if an answer to a range read holds
  exactly the table's points in that range; it may refuse ranges with a \<open>DNP3Error\<close>.
\<close>

definition honest_reads :: "'m dnp3_env \<Rightarrow> (point \<Rightarrow> pyfloat option) \<Rightarrow> bool" where
  "honest_reads e tab \<longleftrightarrow> (\<forall>g a b m objs m'. de_read e g a b m = (Inr objs, m') \<longrightarrow>
     (\<forall>ob \<in> set objs. tab (g, fst ob) = Some (snd ob)) \<and>
     (\<forall>i. a \<le> i \<and> i \<le> b \<and> tab (g, i) \<noteq> None \<longrightarrow> i \<in> fst ` set objs))"

definition singles_answer :: "'m dnp3_env \<Rightarrow> bool" where
  "singles_answer e \<longleftrightarrow> (\<forall>g i m. \<not> raised (fst (de_read e g i i m)))"

definition only_dnp3_errors :: "'m dnp3_env \<Rightarrow> bool" where
  "only_dnp3_errors e \<longleftrightarrow> (\<forall>g a b m x m'. de_read e g a b m = (Inl x, m') \<longrightarrow> is_dnp3_error x)"

definition holds_true :: "(point \<Rightarrow> pyfloat option) \<Rightarrow> value_cache \<Rightarrow> bool" where
  "holds_true tab c \<longleftrightarrow> (\<forall>k v. map_of c k = Some v \<longrightarrow>
     direct_range_ok (fst k) \<and> (\<exists>raw. tab k = Some raw \<and> v = point_raw (fst k) raw))"

definition covers :: "(point \<Rightarrow> pyfloat option) \<Rightarrow> int \<Rightarrow> int set \<Rightarrow> value_cache \<Rightarrow> bool" where
  "covers tab g I c \<longleftrightarrow> (\<forall>i \<in> I. direct_range_ok g \<and> tab (g, i) \<noteq> None \<longrightarrow> map_of c (g, i) \<noteq> None)"

lemma holds_true_Nil [simp]: "holds_true tab []"
  by (simp add: holds_true_def)

lemma covers_mono: "covers tab g I c \<Longrightarrow> dom (map_of c) \<subseteq> dom (map_of c') \<Longrightarrow> covers tab g I c'"
  unfolding covers_def by blast

lemma covers_Un: "covers tab g I c \<Longrightarrow> covers tab g J c \<Longrightarrow> covers tab g (I \<union> J) c"
  unfolding covers_def by blast

lemma covers_subset: "covers tab g J c \<Longrightarrow> I \<subseteq> J \<Longrightarrow> covers tab g I c"
  unfolding covers_def by blast

lemma effective_chunk_pos: "1 \<le> n \<Longrightarrow> 1 \<le> effective_chunk n g"
  by (simp add: effective_chunk_def)

section \<open>The fill functions\<close>

text \<open>\<open>grows tab c c'\<close>: truth is kept and no point is lost.\<close>

definition grows :: "(point \<Rightarrow> pyfloat option) \<Rightarrow> value_cache \<Rightarrow> value_cache \<Rightarrow> bool" where
  "grows tab c c' \<longleftrightarrow> (holds_true tab c \<longrightarrow> holds_true tab c') \<and> dom (map_of c) \<subseteq> dom (map_of c')"

lemma grows_refl [simp]: "grows tab c c"
  by (simp add: grows_def)

lemma grows_trans [trans]: "grows tab a b \<Longrightarrow> grows tab b c \<Longrightarrow> grows tab a c"
  unfolding grows_def by blast

lemma grows_covers: "grows tab c c' \<Longrightarrow> covers tab g I c \<Longrightarrow> covers tab g I c'"
  unfolding grows_def by (blast intro: covers_mono)

lemma update_dom: "dom (map_of (AList.update k v c)) = insert k (dom (map_of c))"
  by (simp add: update_conv')

lemma store_points_Cons: "store_points g ((i, v) # objs) c = store_points g objs (AList.update (g, i) (point_raw g v) c)"
  by (simp add: store_points_def)

lemma store_points_dom: "dom (map_of (store_points g objs c)) = dom (map_of c) \<union> (\<lambda>ob. (g, fst ob)) ` set objs"
proof (induction objs arbitrary: c)
  case (Cons ob objs)
  then show ?case by (cases ob) (simp add: store_points_Cons update_dom)
qed (simp add: store_points_def)

lemma store_points_true:
  "holds_true tab c \<Longrightarrow> direct_range_ok g \<Longrightarrow> \<forall>ob \<in> set objs. tab (g, fst ob) = Some (snd ob) \<Longrightarrow>
   holds_true tab (store_points g objs c)"
proof (induction objs arbitrary: c)
  case (Cons ob objs)
  obtain i v where ob: "ob = (i, v)" by fastforce
  have "holds_true tab (AList.update (g, i) (point_raw g v) c)"
    using Cons.prems ob by (simp add: holds_true_def update_conv')
  from Cons.IH [OF this] Cons.prems ob show ?case by (simp add: store_points_def)
qed (simp add: store_points_def)

lemma store_answer:
  assumes "honest_reads e tab" "direct_range_ok g" "de_read e g a b m = (Inr objs, m')"
  shows "grows tab c (store_points g (filter P objs) c)"
    and "\<forall>i \<in> I. a \<le> i \<and> i \<le> b \<and> (\<forall>v. P (i, v)) \<Longrightarrow> covers tab g I (store_points g (filter P objs) c)"
proof -
  have h: "\<forall>ob \<in> set objs. tab (g, fst ob) = Some (snd ob)"
      "\<forall>i. a \<le> i \<and> i \<le> b \<and> tab (g, i) \<noteq> None \<longrightarrow> i \<in> fst ` set objs"
    using assms(1,3) unfolding honest_reads_def by blast+
  show "grows tab c (store_points g (filter P objs) c)"
    using store_points_true [OF _ assms(2), of tab c "filter P objs"] h(1) by (simp add: grows_def store_points_dom)
  assume I: "\<forall>i \<in> I. a \<le> i \<and> i \<le> b \<and> (\<forall>v. P (i, v))"
  have "(g, i) \<in> dom (map_of (store_points g (filter P objs) c))" if i: "i \<in> I" "tab (g, i) \<noteq> None" for i
  proof -
    obtain ob where "ob \<in> set objs" "fst ob = i" using h(2) I i by blast
    moreover have "P ob" using I i \<open>fst ob = i\<close> by (metis prod.collapse)
    ultimately have "ob \<in> set (filter P objs)" by simp
    then show ?thesis using \<open>fst ob = i\<close> by (auto simp: store_points_dom)
  qed
  then show "covers tab g I (store_points g (filter P objs) c)"
    unfolding covers_def by (meson domIff)
qed

lemmas store_whole_answer = store_answer [where P = "\<lambda>_. True", simplified]

lemma fill_sequential_grows:
  "honest_reads e tab \<Longrightarrow> fill_sequential e g idxs (c, m) = (x, c', m') \<Longrightarrow> grows tab c c'"
proof (induction idxs arbitrary: c m)
  case (Cons i idxs)
  show ?case
  proof (cases "direct_range_ok g")
    case ok: True
    obtain r m1 where r: "de_read e g i i m = (r, m1)" by fastforce
    show ?thesis
    proof (cases r)
      case (Inl y)
      then show ?thesis using Cons ok r by (auto split: if_splits)
    next
      case (Inr objs)
      have "grows tab c (store_points g objs c)" using store_whole_answer(1) Cons.prems(1) ok r Inr by metis
      also have "grows tab (store_points g objs c) c'" using Cons ok r Inr by simp
      finally show ?thesis .
    qed
  qed (use Cons.prems in simp)
qed simp

lemma fill_sequential_covers:
  "honest_reads e tab \<Longrightarrow> singles_answer e \<Longrightarrow> fill_sequential e g idxs (c, m) = (x, c', m') \<Longrightarrow>
   x = None \<and> covers tab g (set idxs) c'"
proof (induction idxs arbitrary: c m)
  case (Cons i idxs)
  show ?case
  proof (cases "direct_range_ok g")
    case ok: True
    obtain objs m1 where r: "de_read e g i i m = (Inr objs, m1)"
      using Cons.prems(2) [unfolded singles_answer_def, rule_format, of g i m]
      by (cases "de_read e g i i m"; cases "fst (de_read e g i i m)") (auto simp: raised_def)
    have f: "fill_sequential e g idxs (store_points g objs c, m1) = (x, c', m')" using Cons.prems(3) ok r by simp
    have "covers tab g {i} (store_points g objs c)"
      using store_whole_answer(2) [OF Cons.prems(1) ok r, of "{i}" c] by simp
    then have "covers tab g {i} c'" using grows_covers [OF fill_sequential_grows [OF Cons.prems(1) f]] by blast
    moreover have "x = None \<and> covers tab g (set idxs) c'" using Cons.IH [OF Cons.prems(1,2) f] .
    ultimately show ?thesis using covers_Un [of tab g "{i}" c' "set idxs"] by simp
  qed (use Cons.prems in \<open>simp add: covers_def\<close>)
qed (simp add: covers_def)

lemma chunk_attempts_read:
  "chunk_attempts n e g a b m = (Inr objs, m') \<Longrightarrow> direct_range_ok g \<Longrightarrow>
   \<exists>m0. de_read e g a b m0 = (Inr objs, m')"
proof (induction n arbitrary: m)
  case (Suc n)
  then show ?case by (cases "de_read e g a b m") (auto simp: read_range_one_def split: sum.splits if_splits)
qed simp

lemma chunk_attempts_no_raise:
  "only_dnp3_errors e \<Longrightarrow> chunk_attempts n e g a b m = (Inl x, m') \<Longrightarrow> x = None"
proof (induction n arbitrary: m)
  case (Suc n)
  have "is_dnp3_error y" if "de_read e g a b m = (Inl y, m1)" for y m1
    using Suc.prems(1) that unfolding only_dnp3_errors_def by blast
  then show ?case
    using Suc by (cases "de_read e g a b m") (auto simp: read_range_one_def split: sum.splits if_splits)
qed simp

text \<open>One turn of the loop over the chunks.\<close>

declare fill_chunks.simps [simp del]

lemma fill_chunks_turn:
  assumes "fill_chunks e g nmax hi idxs a (c, m) = (x, c', m')" "\<not> (a > hi \<or> nmax < 1)"
    and "b = min (a + nmax - 1) hi"
  obtains (answer) objs m1 where "chunk_attempts 2 e g a b m = (Inr objs, m1)"
      "fill_chunks e g nmax hi idxs (b + 1) (store_points g (filter (\<lambda>ob. fst ob \<in> set idxs) objs) c, m1) = (x, c', m')"
  | (raise) y m1 where "chunk_attempts 2 e g a b m = (Inl (Some y), m1)" "c' = c" "x = Some y"
  | (singles) z m1 c2 m2 where "chunk_attempts 2 e g a b m = (Inl None, m1)"
      "fill_sequential e g (filter (\<lambda>i. a \<le> i \<and> i \<le> b) idxs) (c, m1) = (z, c2, m2)"
      "z \<noteq> None \<and> c' = c2 \<and> x = z \<or> z = None \<and> fill_chunks e g nmax hi idxs (b + 1) (c2, m2) = (x, c', m')"
proof -
  obtain r m1 where r: "chunk_attempts 2 e g a b m = (r, m1)" by fastforce
  note f = assms(1) [unfolded fill_chunks.simps [of e g nmax hi idxs a c m] if_not_P [OF assms(2)] Let_def
    assms(3) [symmetric] r prod.case]
  show ?thesis
  proof (cases r)
    case (Inr objs)
    then show ?thesis using answer r f by simp
  next
    case (Inl y)
    show ?thesis
    proof (cases y)
      case (Some z)
      then show ?thesis using raise r f Inl by simp
    next
      case None
      obtain z c2 m2 where q: "fill_sequential e g (filter (\<lambda>i. a \<le> i \<and> i \<le> b) idxs) (c, m1) = (z, c2, m2)"
        by (metis prod_cases3)
      show ?thesis
        by (rule singles [of m1 z c2 m2]) (use r q f Inl None in \<open>auto split: option.splits\<close>)
    qed
  qed
qed

lemma fill_chunks_done: "a > hi \<or> nmax < 1 \<Longrightarrow> fill_chunks e g nmax hi idxs a (c, m) = (None, c, m)"
  by (subst fill_chunks.simps) simp

lemma fill_chunks_grows:
  assumes "honest_reads e tab" "direct_range_ok g"
  shows "fill_chunks e g nmax hi idxs a (c, m) = (x, c', m') \<Longrightarrow> grows tab c c'"
proof (induction "nat (hi + 1 - a)" arbitrary: a c m rule: less_induct)
  case less
  show ?case
  proof (cases "a > hi \<or> nmax < 1")
    case False
    define b where "b = min (a + nmax - 1) hi"
    have shorter: "nat (hi + 1 - (b + 1)) < nat (hi + 1 - a)" using False by (auto simp: b_def)
    show ?thesis using less.prems False b_def
    proof (cases rule: fill_chunks_turn)
      case (answer objs m1)
      obtain m0 where "de_read e g a b m0 = (Inr objs, m1)" using chunk_attempts_read answer(1) assms(2) by metis
      note store_answer(1) [OF assms this, of c "\<lambda>ob. fst ob \<in> set idxs"]
      also note less.hyps [OF shorter answer(2)]
      finally show ?thesis .
    next
      case (singles z m1 c2 m2)
      note fill_sequential_grows [OF assms(1) singles(2)]
      also have "grows tab c2 c'" using singles(3) less.hyps [OF shorter] by auto
      finally show ?thesis .
    qed simp
  qed (use less.prems in \<open>simp add: fill_chunks_done\<close>)
qed

lemma fill_chunks_covers:
  assumes "honest_reads e tab" "direct_range_ok g" "singles_answer e" "only_dnp3_errors e" "1 \<le> nmax"
  shows "fill_chunks e g nmax hi idxs a (c, m) = (x, c', m') \<Longrightarrow>
    x = None \<and> covers tab g {i \<in> set idxs. a \<le> i \<and> i \<le> hi} c'"
proof (induction "nat (hi + 1 - a)" arbitrary: a c m rule: less_induct)
  case less
  show ?case
  proof (cases "a > hi")
    case True
    then show ?thesis using less.prems by (auto simp: fill_chunks_done covers_def)
  next
    case False
    define b where "b = min (a + nmax - 1) hi"
    let ?I = "{i \<in> set idxs. a \<le> i \<and> i \<le> b}" and ?J = "{i \<in> set idxs. b + 1 \<le> i \<and> i \<le> hi}"
    have shorter: "nat (hi + 1 - (b + 1)) < nat (hi + 1 - a)" using False assms(5) by (auto simp: b_def)
    have split: "{i \<in> set idxs. a \<le> i \<and> i \<le> hi} = ?I \<union> ?J" using assms(5) by (auto simp: b_def)
    have "\<not> (a > hi \<or> nmax < 1)" using False assms(5) by simp
    from less.prems this b_def have "x = None \<and> covers tab g ?I c' \<and> covers tab g ?J c'"
    proof (cases rule: fill_chunks_turn)
      case (answer objs m1)
      obtain m0 where r: "de_read e g a b m0 = (Inr objs, m1)" using chunk_attempts_read answer(1) assms(2) by metis
      have "covers tab g ?I (store_points g (filter (\<lambda>ob. fst ob \<in> set idxs) objs) c)"
        by (rule store_answer(2) [OF assms(1,2) r]) simp
      then show ?thesis
        using grows_covers [OF fill_chunks_grows [OF assms(1,2) answer(2)]] less.hyps [OF shorter answer(2)] by blast
    next
      case (raise y m1)
      then show ?thesis using chunk_attempts_no_raise [OF assms(4)] by fastforce
    next
      case (singles z m1 c2 m2)
      have z: "z = None \<and> covers tab g ?I c2" using fill_sequential_covers [OF assms(1,3) singles(2)] by simp
      then have f: "fill_chunks e g nmax hi idxs (b + 1) (c2, m2) = (x, c', m')" using singles(3) by simp
      then show ?thesis
        using grows_covers [OF fill_chunks_grows [OF assms(1,2) f]] z less.hyps [OF shorter f] by blast
    qed
    then show ?thesis unfolding split using covers_Un by blast
  qed
qed

section \<open>A batch of direct reads\<close>

lemma indices_of_props:
  "set (indices_of g ss) = s_index ` {s \<in> set ss. s_group s = g}" "sorted (indices_of g ss)"
  by (auto simp: indices_of_def)

lemma sorted_between: "sorted xs \<Longrightarrow> x \<in> set xs \<Longrightarrow> hd xs \<le> x \<and> x \<le> last xs" for xs :: "int list"
  by (induction xs) (auto simp: last_ConsR split: if_splits)

lemma direct_group_grows:
  assumes "honest_reads e tab" "direct_group e opts g idxs (c, m) = (x, c', m')"
  shows "grows tab c c'"
proof -
  consider "fill_sequential e g idxs (c, m) = (x, c', m')"
    | objs m1 where "direct_range_ok g" "de_read e g (hd idxs) (last idxs) m = (Inr objs, m1)" "c' = store_points g objs c"
    | m1 where "fill_sequential e g idxs (c, m1) = (x, c', m')" | "c' = c"
    | "direct_range_ok g" "fill_chunks e g (effective_chunk (do_max_points opts) g) (last idxs) idxs (hd idxs) (c, m) = (x, c', m')"
    using assms(2) by (auto simp: direct_group_def read_range_one_def split: if_splits prod.splits sum.splits)
  then show ?thesis
  proof cases
    case 2
    then show ?thesis using store_whole_answer(1) [OF assms(1)] by metis
  qed (auto intro: fill_sequential_grows [OF assms(1)] fill_chunks_grows [OF assms(1)])
qed

lemma direct_group_covers:
  assumes "honest_reads e tab" "singles_answer e" "only_dnp3_errors e" "1 \<le> do_max_points opts" "sorted idxs"
    and "direct_group e opts g idxs (c, m) = (x, c', m')"
  shows "x = None \<and> covers tab g (set idxs) c'"
proof -
  have e: "is_dnp3_error y" if "de_read e g a b m = (Inl y, m1)" for y a b m1
    using assms(3) that unfolding only_dnp3_errors_def by blast
  consider m1 where "fill_sequential e g idxs (c, m1) = (x, c', m')"
    | objs m1 where "direct_range_ok g" "de_read e g (hd idxs) (last idxs) m = (Inr objs, m1)"
        "c' = store_points g objs c" "x = None"
    | "direct_range_ok g" "fill_chunks e g (effective_chunk (do_max_points opts) g) (last idxs) idxs (hd idxs) (c, m) = (x, c', m')"
    using assms(6) by (auto simp: direct_group_def read_range_one_def dest: e split: if_splits prod.splits sum.splits)
  then show ?thesis
  proof cases
    case 1
    then show ?thesis using fill_sequential_covers [OF assms(1,2)] by blast
  next
    case 2
    then show ?thesis
      using store_whole_answer(2) [OF assms(1) 2(1,2), of "set idxs" c] sorted_between [OF assms(5)] by blast
  next
    case 3
    have "{i \<in> set idxs. hd idxs \<le> i \<and> i \<le> last idxs} = set idxs" using sorted_between [OF assms(5)] by blast
    then show ?thesis
      using fill_chunks_covers [OF assms(1) 3(1) assms(2,3) effective_chunk_pos [OF assms(4)] 3(2)] by simp
  qed
qed


lemma direct_groups_grows:
  "honest_reads e tab \<Longrightarrow> direct_groups e opts ss gs (c, m) = (x, c', m') \<Longrightarrow> grows tab c c'"
proof (induction gs arbitrary: c m)
  case (Cons g gs)
  show ?case
  proof (cases "g = 110")
    case False
    obtain y c1 m1 where g: "direct_group e opts g (indices_of g ss) (c, m) = (y, c1, m1)" by (metis prod_cases3)
    note direct_group_grows [OF Cons.prems(1) g]
    also have "grows tab c1 c'" using Cons g False by (cases y) auto
    finally show ?thesis .
  qed (use Cons in simp)
qed simp

lemma direct_groups_covers:
  assumes "honest_reads e tab" "singles_answer e" "only_dnp3_errors e" "1 \<le> do_max_points opts"
  shows "direct_groups e opts ss gs (c, m) = (x, c', m') \<Longrightarrow>
    x = None \<and> (\<forall>g \<in> set gs - {110}. covers tab g (set (indices_of g ss)) c')"
proof (induction gs arbitrary: c m)
  case (Cons g gs)
  show ?case
  proof (cases "g = 110")
    case False
    obtain y c1 m1 where g: "direct_group e opts g (indices_of g ss) (c, m) = (y, c1, m1)" by (metis prod_cases3)
    note cov = direct_group_covers [OF assms indices_of_props(2) g]
    then have gs: "direct_groups e opts ss gs (c1, m1) = (x, c', m')" using Cons.prems False g by simp
    show ?thesis
      using Cons.IH [OF gs] cov grows_covers [OF direct_groups_grows [OF assms(1) gs]] by auto
  qed (use Cons in simp)
qed simp

lemma groups_of_set: "set (groups_of ss) = s_group ` set ss"
  by (simp add: groups_of_def)

text \<open>The reference: every signal answered from the table, by itself.\<close>

definition pointwise :: "(point \<Rightarrow> pyfloat option) \<Rightarrow> signal_config \<Rightarrow> pyfloat \<times> string" where
  "pointwise tab s =
     (if s_group s = 110 then (Fin 0, ''good'')
      else if direct_range_ok (s_group s)
      then (case tab (point_of s) of None \<Rightarrow> (Fin 0, ''no_change'') | Some v \<Rightarrow> (point_raw (s_group s) v, ''good''))
      else (Fin 0, ''no_change''))"

lemma answer_pointwise:
  assumes "holds_true tab c" "s_group s \<noteq> 110 \<Longrightarrow> covers tab (s_group s) {s_index s} c"
  shows "direct_answer c s = pointwise tab s"
proof (cases "s_group s = 110")
  case False
  show ?thesis
  proof (cases "map_of c (point_of s)")
    case None
    then show ?thesis
      using assms(2) False by (auto simp: direct_answer_def pointwise_def covers_def point_of_def split: option.splits)
  next
    case (Some v)
    then have "direct_range_ok (s_group s)" "\<exists>raw. tab (point_of s) = Some raw \<and> v = point_raw (s_group s) raw"
      using assms(1) unfolding holds_true_def point_of_def by force+
    then show ?thesis using Some False by (auto simp: direct_answer_def pointwise_def)
  qed
qed (simp add: direct_answer_def pointwise_def)


text \<open>A library over a table that refuses every range of more than one point.\<close>

definition sample_read :: "int \<Rightarrow> int \<Rightarrow> int \<Rightarrow> bool \<Rightarrow> point_obj list res \<times> bool" where
  "sample_read g a b m =
     (if a = b then (Inr (if g = 30 \<and> a \<in> {0, 2} then [(a, Fin (of_int a + 7))] else []), m)
      else (Inl (PyExc ''DNP3Error'' ''timeout''), m))"

definition sample_tab :: "point \<Rightarrow> pyfloat option" where
  "sample_tab k = (if fst k = 30 \<and> snd k \<in> {0, 2} then Some (Fin (of_int (snd k) + 7)) else None)"

text \<open>The state of this library says whether it is connected.\<close>

definition sample_dnp3 :: "clock \<Rightarrow> bool res \<Rightarrow> bool dnp3_env" where
  "sample_dnp3 now opn = \<lparr>de_now = now, de_open = opn, de_reset = (\<lambda>m. (Inr (), m)),
     de_disable = (\<lambda>k m. (Inr True, m)), de_read = sample_read,
     de_class = (\<lambda>k m. (Inl (PyExc ''DNP3Error'' ''timeout''), m)),
     de_integrity = (\<lambda>m. (Inl (PyExc ''DNP3Error'' ''timeout''), m)), de_up = (\<lambda>m. m)\<rparr>"

definition analog :: "int \<Rightarrow> signal_config" where
  "analog i = \<lparr>s_key = ''k'' @ int_str i, s_label = [], s_unit = None, s_source = ''master'', s_class = ''Class 1'',
     s_type = ''analog'', s_group = 30, s_index = i, s_scale = Fin 1, s_offset = Fin 0, s_alarm = False\<rparr>"

lemma sample_honest:
  "honest_reads (sample_dnp3 now opn) sample_tab" "singles_answer (sample_dnp3 now opn)"
  "only_dnp3_errors (sample_dnp3 now opn)"
  by (auto simp: honest_reads_def singles_answer_def only_dnp3_errors_def sample_dnp3_def sample_read_def
      sample_tab_def raised_def is_dnp3_error_def split: if_splits)


section \<open>The event cache\<close>

lemma put_point_cases:
  assumes "put_point g ob (c, ch) = (c', ch')"
  shows "c' = c \<and> ch' = ch \<or>
    (\<exists>v. map_of c' = (map_of c)((g, fst ob) \<mapsto> v) \<and> ch' = insert (g, fst ob) ch)"
  using assms by (auto simp: put_point_def Let_def update_conv' split: option.splits if_splits)

text \<open>\<open>tracks c ch c'\<close>: a point outside \<open>ch\<close> has the same value in both caches.\<close>

definition tracks :: "value_cache \<Rightarrow> point set \<Rightarrow> value_cache \<Rightarrow> bool" where
  "tracks c ch c' \<longleftrightarrow> (\<forall>k. k \<notin> ch \<longrightarrow> map_of c' k = map_of c k) \<and> (\<forall>k \<in> ch. map_of c' k \<noteq> None)"

lemma tracks_put: "tracks c0 ch c \<Longrightarrow> put_point g ob (c, ch) = (c', ch') \<Longrightarrow> tracks c0 ch' c'"
  using put_point_cases [of g ob c ch c' ch'] by (auto simp: tracks_def)

lemma tracks_puts: "tracks c0 ch c \<Longrightarrow> fold (\<lambda>(g, ob). put_point g ob) xs (c, ch) = (c', ch') \<Longrightarrow> tracks c0 ch' c'"
proof (induction xs arbitrary: c ch)
  case (Cons x xs)
  obtain g ob where x: "x = (g, ob)" by (cases x)
  obtain c1 ch1 where p: "put_point g ob (c, ch) = (c1, ch1)" by fastforce
  show ?case using Cons.IH [OF tracks_put [OF Cons.prems(1) p]] Cons.prems(2) x p by simp
qed simp

lemma tracks_polls: "tracks c0 ch c \<Longrightarrow> event_polls e cs ((c, ch), ok) m = (((c', ch'), ok'), m') \<Longrightarrow> tracks c0 ch' c'"
proof (induction cs arbitrary: c ch ok m)
  case (Cons cls cs)
  obtain po m1 where p: "poll_with_retry 2 (de_class e cls) m = (po, m1)" by fastforce
  show ?case
  proof (cases po)
    case (Some q)
    obtain c1 ch1 where a: "absorb_poll q (c, ch) = (c1, ch1)" by fastforce
    have "tracks c0 ch1 c1" using tracks_puts [OF Cons.prems(1)] a by (simp add: absorb_poll_def)
    from Cons.IH [OF this] Cons.prems(2) p Some a show ?thesis by simp
  qed (use Cons p in simp)
qed simp


text \<open>No fill removes a point, whatever the library answers.\<close>

definition keeps :: "value_cache \<Rightarrow> value_cache \<Rightarrow> bool" where
  "keeps c c' \<longleftrightarrow> dom (map_of c) \<subseteq> dom (map_of c')"

lemma keeps_refl [simp]: "keeps c c"
  by (simp add: keeps_def)

lemma keeps_trans [trans]: "keeps a b \<Longrightarrow> keeps b c \<Longrightarrow> keeps a c"
  by (auto simp: keeps_def)

lemma keeps_store [simp]: "keeps c (store_points g objs c)"
  by (simp add: keeps_def store_points_dom)

lemma fill_sequential_keeps: "fill_sequential e g idxs (c, m) = (x, c', m') \<Longrightarrow> keeps c c'"
proof (induction idxs arbitrary: c m)
  case (Cons i idxs)
  then show ?case
    by (auto split: if_splits prod.splits sum.splits intro: keeps_trans [OF keeps_store])
qed simp

lemma fill_chunks_keeps: "fill_chunks e g nmax hi idxs a (c, m) = (x, c', m') \<Longrightarrow> keeps c c'"
proof (induction "nat (hi + 1 - a)" arbitrary: a c m rule: less_induct)
  case less
  show ?case
  proof (cases "a > hi \<or> nmax < 1")
    case False
    define b where "b = min (a + nmax - 1) hi"
    have shorter: "nat (hi + 1 - (b + 1)) < nat (hi + 1 - a)" using False by (auto simp: b_def)
    show ?thesis using less.prems False b_def
    proof (cases rule: fill_chunks_turn)
      case (answer objs m1)
      show ?thesis by (rule keeps_trans [OF keeps_store less.hyps [OF shorter answer(2)]])
    next
      case (singles z m1 c2 m2)
      have "keeps c2 c'" using singles(3) less.hyps [OF shorter] by auto
      then show ?thesis by (rule keeps_trans [OF fill_sequential_keeps [OF singles(2)]])
    qed simp
  qed (use less.prems in \<open>simp add: fill_chunks_done\<close>)
qed

lemmas fills_keep = fill_sequential_keeps fill_chunks_keeps

lemma absorb_group_keeps: "absorb_group e opts g idxs (c, m) = (go, x, c', m') \<Longrightarrow> keeps c c'"
  by (auto simp: absorb_group_def split: if_splits prod.splits sum.splits dest: fills_keep)

lemma absorb_groups_keeps: "absorb_groups e opts ss gs (c, m) = (x, c', m') \<Longrightarrow> keeps c c'"
proof (induction gs arbitrary: c m)
  case (Cons g gs)
  show ?case
  proof (cases "g = 110 \<or> \<not> de_up e m")
    case False
    obtain go y c1 m1 where g: "absorb_group e opts g (indices_of g ss) (c, m) = (go, y, c1, m1)"
      by (metis prod_cases4)
    have "keeps c1 c'" using Cons g False by (cases y) (auto split: if_splits)
    then show ?thesis by (rule keeps_trans [OF absorb_group_keeps [OF g]])
  qed (use Cons in \<open>auto split: if_splits\<close>)
qed simp

section \<open>A consumer of the event driven reads\<close>

text \<open>The consumer keeps the last good value per point; texts (group 110) have none.\<close>

fun hears :: "signal_config list \<Rightarrow> batch \<Rightarrow> (point \<Rightarrow> pyfloat option) \<Rightarrow> point \<Rightarrow> pyfloat option" where
  "hears (s # ss) ((v, q) # out) view =
     hears ss out (if q = ''good'' \<and> s_group s \<noteq> 110 then view(point_of s \<mapsto> v) else view)"
| "hears _ _ view = view"

lemma hears_materialize:
  "hears ss (map (materialize f ch c) ss) view k =
     (if (\<exists>s \<in> set ss. point_of s = k \<and> s_group s \<noteq> 110) \<and> map_of c k \<noteq> None \<and> (f \<or> k \<in> ch)
      then map_of c k else view k)"
proof (induction ss arbitrary: view)
  case (Cons s ss)
  have step: "hears (s # ss) (map (materialize f ch c) (s # ss)) view = hears ss (map (materialize f ch c) ss)
      (if s_group s \<noteq> 110 \<and> map_of c (point_of s) \<noteq> None \<and> (f \<or> point_of s \<in> ch)
       then view(point_of s := map_of c (point_of s)) else view)"
    by (cases "map_of c (point_of s)") (auto simp: materialize_def)
  show ?case unfolding step Cons.IH by auto
qed simp

lemma hears_quiet: "q \<noteq> ''good'' \<Longrightarrow> hears ss (map (\<lambda>s. (v, q)) ss) view = view"
  by (induction ss) auto

text \<open>C6: A consumer that keeps the last good value of a point stays in step with the cache of an event
  driven session: if it had the cached value of a signal's point before a read that returns, it has the
  cached value after it, whether the read was a baseline or polls of the event classes, and whatever
  the outstation answered to them.\<close>

theorem event_reads_in_sync:
  assumes "read_event_driven e opts ss ev m = (Inr out, ev', mo)" and "s \<in> set ss" and "s_group s \<noteq> 110"
    and "view (point_of s) = map_of (ev_values ev) (point_of s)"
  shows "hears ss out view (point_of s) = map_of (ev_values ev') (point_of s)"
proof (cases "baseline_due e opts ev")
  case True
  obtain x c m1 where a: "absorb_signals e opts ss (ev_values ev, m) = (x, c, m1)" by (metis prod_cases3)
  have k: "keeps (ev_values ev) c" using absorb_groups_keeps a by (auto simp: absorb_signals_def)
  then have none: "map_of c (point_of s) = None \<Longrightarrow> view (point_of s) = None"
    using assms(4) by (auto simp: keeps_def)
  have "x = None" using assms(1) True a by (cases x) (auto simp: read_event_driven_def)
  then have r: "out = (if c = [] then map (\<lambda>s. (Fin 0, ''no_change'')) ss else map (materialize True {} c) ss)"
      "ev_values ev' = c"
    using assms(1) True a by (auto simp: read_event_driven_def split: if_splits)
  show ?thesis
  proof (cases "c = []")
    case True
    then show ?thesis using r none by (simp add: hears_quiet)
  next
    case False
    then show ?thesis using r none assms(2,3) by (auto simp: hears_materialize)
  qed
next
  case False
  obtain c ch ok m1 where p: "event_polls e [1, 2, 3] ((ev_values ev, {}), False) m = (((c, ch), ok), m1)"
    by (metis prod.collapse)
  have t: "tracks (ev_values ev) ch c" by (rule tracks_polls [OF _ p]) (simp add: tracks_def)
  have r: "out = (if \<not> ok \<and> c = [] then map (\<lambda>s. (Fin 0, ''invalid'')) ss else map (materialize False ch c) ss)"
      "ev_values ev' = c"
    using assms(1) False p by (auto simp: read_event_driven_def)
  show ?thesis
  proof (cases "\<not> ok \<and> c = []")
    case True
    then have "map_of c (point_of s) = map_of (ev_values ev) (point_of s)" using t unfolding tracks_def by (metis map_of.simps(1))
    then show ?thesis using r True assms(4) by (simp add: hears_quiet)
  next
    case False
    then have "out = map (materialize False ch c) ss" using r(1) by (simp only: if_not_P if_False)
    moreover have "point_of s \<notin> ch \<Longrightarrow> map_of c (point_of s) = map_of (ev_values ev) (point_of s)"
      "point_of s \<in> ch \<Longrightarrow> map_of c (point_of s) \<noteq> None" using t unfolding tracks_def by blast+
    ultimately show ?thesis using r(2) assms(2,3,4)
      by (cases "point_of s \<in> ch") (auto simp: hears_materialize)
  qed
qed

definition sample_ev :: event_cache where
  "sample_ev = \<lparr>ev_values = [((30, 0), Fin 5)], ev_baseline = 1\<rparr>"

lemma sample_baseline:
  "read_event_driven (sample_dnp3 100 (Inr True)) (dnp3_opts_init ''event_driven'' 24 4 True True 7 60)
     [analog 0, analog 2] sample_ev True =
   (Inr [(Fin 7, ''good''), (Fin 9, ''good'')],
    \<lparr>ev_values = [((30, 0), Fin 7), ((30, 2), Fin 9)], ev_baseline = 100\<rparr>, Some True)"
  by (simp add: read_event_driven_def baseline_due_def sample_dnp3_def sample_ev_def dnp3_opts_init_def
      absorb_signals_def groups_of_def analog_def absorb_group_def indices_of_def direct_range_ok_def
      too_sparse_def effective_chunk_def read_range_one_def sample_read_def is_dnp3_error_def store_points_def
      point_raw_def materialize_def point_of_def group_priority_def normalize_read_strategy_def)

theorem event_reads_in_sync_witness:
  "hears [analog 0, analog 2] [(Fin 7, ''good''), (Fin 9, ''good'')] (map_of [((30, 0), Fin 5)]) (30, 2) =
   Some (Fin 9)"
  using event_reads_in_sync [OF sample_baseline, of "analog 2" "map_of [((30, 0), Fin 5)]"]
  by (simp add: analog_def sample_ev_def point_of_def)

lemma stale_baseline:
  assumes "\<not> de_up e m" and "ev_values ev \<noteq> []" and "of_int (do_baseline_interval opts) \<le> de_now e - ev_baseline ev"
  shows "read_event_driven e opts ss ev m =
    (Inr (map (materialize True {} (ev_values ev)) ss), ev\<lparr>ev_baseline := de_now e\<rparr>, Some m)"
proof -
  have "absorb_groups e opts ss gs (c, m) = (None, c, m)" for gs c
    using assms(1) by (induction gs) auto
  then show ?thesis
    using assms(2,3) by (simp add: read_event_driven_def baseline_due_def absorb_signals_def)
qed

text \<open>C36: A baseline that could not read anything looks like a fresh one: when the connection is gone, the
  cache is not empty and the baseline is due, nothing is read, every cached value is reported as good
  however old it is, and the baseline counts as done now.\<close>

theorem failed_baseline_is_good:
  assumes "\<not> de_up e m" and "ev_values ev \<noteq> []" and "of_int (do_baseline_interval opts) \<le> de_now e - ev_baseline ev"
  shows "read_event_driven e opts ss ev m =
    (Inr (map (materialize True {} (ev_values ev)) ss), ev\<lparr>ev_baseline := de_now e\<rparr>, Some m)"
  using assms by (rule stale_baseline)

theorem failed_baseline_is_good_witness:
  "fst (read_event_driven (sample_dnp3 100 (Inr True)) (dnp3_opts_init ''event_driven'' 24 4 True True 7 60)
     [analog 0] sample_ev False) = Inr [(Fin 5, ''good'')]"
  using failed_baseline_is_good [of "sample_dnp3 100 (Inr True)" False sample_ev
      "dnp3_opts_init ''event_driven'' 24 4 True True 7 60" "[analog 0]"]
  by (simp add: sample_dnp3_def sample_ev_def dnp3_opts_init_def materialize_def analog_def point_of_def)

section \<open>The frame filter ends\<close>

definition spent :: "(clock \<times> nat res) list \<Rightarrow> nat \<Rightarrow> clock" where
  \<comment> \<open>the time the first \<open>k\<close> receive calls took\<close>
  "spent fs k = sum_list (map fst (take k fs))"

lemma filtered_receive_answer:
  "filtered_receive r fs = Some x \<Longrightarrow>
    \<exists>k < length fs. x = snd (fs ! k) \<and> (\<forall>j < k. snd (fs ! j) = Inr 0) \<and> (x = Inr 0 \<longrightarrow> r \<le> spent fs k)"
proof (induction r fs rule: filtered_receive.induct)
  case (2 r t f fs)
  consider "r \<le> 0" | "0 < r" "f \<noteq> Inr 0" | "0 < r" "f = Inr 0" by fastforce
  then show ?case
  proof cases
    case 3
    then obtain k where k: "k < length fs" "x = snd (fs ! k)" "\<forall>j < k. snd (fs ! j) = Inr 0"
      "x = Inr 0 \<longrightarrow> r - t \<le> spent fs k" using "2.IH" [of 0] "2.prems" by auto
    then show ?thesis using 3 by (intro exI [of _ "Suc k"]) (auto simp: less_Suc_eq_0_disj spent_def)
  qed (use "2.prems" in \<open>auto simp: spent_def intro!: exI [of _ 0] split: sum.splits if_splits\<close>)
qed simp

lemma filtered_receive_ends: "fs \<noteq> [] \<Longrightarrow> r \<le> spent fs (length fs - 1) \<Longrightarrow> filtered_receive r fs \<noteq> None"
proof (induction r fs rule: filtered_receive.induct)
  case (2 r t f fs)
  consider "r \<le> 0" | "0 < r" "f \<noteq> Inr 0" | "0 < r" "f = Inr 0" by fastforce
  then show ?case
  proof cases
    case 3
    then have "fs \<noteq> []" using "2.prems" by (auto simp: spent_def)
    moreover have "r - t \<le> spent fs (length fs - 1)"
      using "2.prems" \<open>fs \<noteq> []\<close> by (cases fs) (simp_all add: spent_def)
    ultimately show ?thesis using "2.IH" [of 0] 3 by simp
  qed (auto split: sum.splits)
qed simp

text \<open>C29: The receive loop of the frame filter ends: once the receive calls have used up the timeout, the next
  one is the last, whatever frames arrive. The answer is the first frame with user data or the first
  exception; a frame without user data is only returned after the deadline, and every frame skipped was empty.\<close>

theorem filtered_receive_returns:
  assumes "fs \<noteq> []" and "timeout \<le> spent fs (length fs - 1)"
  shows "\<exists>k < length fs. filtered_receive timeout fs = Some (snd (fs ! k)) \<and>
    (\<forall>j < k. snd (fs ! j) = Inr 0) \<and> (snd (fs ! k) = Inr 0 \<longrightarrow> timeout \<le> spent fs k)"
  using filtered_receive_ends [OF assms] filtered_receive_answer [of timeout fs] by blast

theorem filtered_receive_returns_witness:
  "\<exists>k < 3. filtered_receive 5 [(2, Inr 0), (4, Inr 0), (0, Inr 0)] = Some (snd ([(2, Inr 0), (4, Inr 0), (0, Inr 0)] ! k)) \<and>
    (\<forall>j < k. snd ([(2 :: clock, Inr 0 :: nat res), (4, Inr 0), (0, Inr 0)] ! j) = Inr 0)"
  using filtered_receive_returns [of "[(2, Inr 0), (4, Inr 0), (0, Inr 0)]" 5] by (auto simp: spent_def numeral_3_eq_3)

end
