(* ===== verification/Device_Cache.thy ===== *)
theory Device_Cache
  imports Adapter "HOL-Library.AList"
begin

text \<open>
  \<open>adapters/dnp3_yadnp3_master.py\<close>, class \<open>_DeviceCache\<close> and the callbacks that write it
  (\<open>_CacheSOEHandler.Process\<close>, \<open>_MasterApp.OnOpen\<close>, \<open>OnClose\<close>). Every method runs under the cache's lock
  and is one step; the current time is an argument. The values are kept as an association list with
  one entry per point.
\<close>

section \<open>State\<close>

datatype comm_state = Online | Lost | Recovering

type_synonym entry = "pyfloat \<times> string option"

record dev_cache =
  dc_values :: "(point \<times> entry) list"
  dc_dirty :: "point set"
  dc_connected :: bool
  dc_last_update :: clock      \<comment> \<open>\<open>0.0\<close>: nothing received yet\<close>
  dc_announced :: bool         \<comment> \<open>\<open>_stale_announced\<close>\<close>
  dc_state :: comm_state
  dc_started :: clock
  dc_anchor :: clock
  dc_pending :: bool           \<comment> \<open>\<open>_pending_recovery_publish\<close>\<close>

definition cache_init :: dev_cache where
  "cache_init = \<lparr>dc_values = [], dc_dirty = {}, dc_connected = False, dc_last_update = 0, dc_announced = False,
     dc_state = Lost, dc_started = 0, dc_anchor = 0, dc_pending = False\<rparr>"

definition known :: "dev_cache \<Rightarrow> point set" where
  "known c = set (map fst (dc_values c))"

section \<open>Operations\<close>

definition cache_get :: "point \<Rightarrow> dev_cache \<Rightarrow> entry option" where
  "cache_get p c = map_of (dc_values c) p"

definition changed :: "entry option \<Rightarrow> entry \<Rightarrow> bool" where
  "changed old new = (case old of None \<Rightarrow> True
     | Some v \<Rightarrow> \<not> feq (fst v) (fst new) \<or> snd v \<noteq> snd new)"

definition cache_set :: "clock \<Rightarrow> point \<Rightarrow> entry \<Rightarrow> dev_cache \<Rightarrow> dev_cache" where
  "cache_set now p v c =
     (let c1 = c\<lparr>dc_values := AList.update p v (dc_values c), dc_last_update := now,
                dc_dirty := (if changed (cache_get p c) v then insert p (dc_dirty c) else dc_dirty c)\<rparr>
      in if dc_state c1 = Recovering \<and> now \<ge> dc_anchor c1
         then c1\<lparr>dc_state := Online, dc_pending := True, dc_dirty := dc_dirty c1 \<union> known c1\<rparr>
         else c1)"

definition is_dirty :: "point \<Rightarrow> dev_cache \<Rightarrow> bool" where
  "is_dirty p c = (p \<in> dc_dirty c)"

definition clear_dirty :: "point \<Rightarrow> dev_cache \<Rightarrow> dev_cache" where
  "clear_dirty p c = c\<lparr>dc_dirty := dc_dirty c - {p}\<rparr>"

definition mark_all_dirty :: "dev_cache \<Rightarrow> nat \<times> dev_cache" where
  "mark_all_dirty c = (length (dc_values c), c\<lparr>dc_dirty := dc_dirty c \<union> known c\<rparr>)"

definition set_connected :: "bool \<Rightarrow> dev_cache \<Rightarrow> dev_cache" where
  "set_connected ok c =
     (if ok then c\<lparr>dc_connected := True\<rparr>
      else c\<lparr>dc_connected := False, dc_state := Lost, dc_started := 0, dc_anchor := 0, dc_pending := False\<rparr>)"

definition begin_recovery :: "clock \<Rightarrow> dev_cache \<Rightarrow> dev_cache" where
  "begin_recovery now c =
     (if dc_state c = Recovering then c
      else c\<lparr>dc_state := Recovering, dc_started := now, dc_anchor := now, dc_pending := False\<rparr>)"

definition recovery_age :: "clock \<Rightarrow> dev_cache \<Rightarrow> clock" where
  "recovery_age now c = (if dc_state c \<noteq> Recovering \<or> dc_started c = 0 then 0 else now - dc_started c)"

definition fail_recovery :: "dev_cache \<Rightarrow> dev_cache" where
  "fail_recovery c =
     (if dc_state c = Recovering
      then c\<lparr>dc_state := Lost, dc_started := 0, dc_anchor := 0, dc_pending := False\<rparr> else c)"

definition consume_recovery_publish :: "dev_cache \<Rightarrow> bool \<times> dev_cache" where
  "consume_recovery_publish c = (if dc_pending c then (True, c\<lparr>dc_pending := False\<rparr>) else (False, c))"

section \<open>The library's callbacks\<close>

text \<open>
  One \<open>Process\<close> call: the measurements of one object type. \<open>dec\<close> turns the bytes of an octet string
  (trailing NULs removed, UTF-8 with replacement) into text; \<open>None\<close> is an empty text.
\<close>

datatype measurements =
    Binaries "(int \<times> bool) list"
  | Analogs "(int \<times> pyfloat) list"
  | Counters "(int \<times> int) list"
  | BinaryOutputs "(int \<times> bool) list"
  | AnalogOutputs "(int \<times> pyfloat) list"
  | OctetStrings "(int \<times> string) list"

definition strip_nuls :: "string \<Rightarrow> string" where
  "strip_nuls s = py_rstrip_by (\<lambda>c. c = CHR 0x00) s"

definition flag_value :: "bool \<Rightarrow> pyfloat" where
  "flag_value b = (if b then Fin 1 else Fin 0)"

fun soe_points :: "(string \<Rightarrow> string) \<Rightarrow> measurements \<Rightarrow> (point \<times> entry) list" where
  "soe_points dec (Binaries xs) = map (\<lambda>(i, b). ((1, i), (flag_value b, None))) xs"
| "soe_points dec (Analogs xs) = map (\<lambda>(i, f). ((30, i), (f, None))) xs"
| "soe_points dec (Counters xs) = map (\<lambda>(i, n). ((20, i), (rnd (of_int n), None))) xs"
| "soe_points dec (BinaryOutputs xs) = map (\<lambda>(i, b). ((10, i), (flag_value b, None))) xs"
| "soe_points dec (AnalogOutputs xs) = map (\<lambda>(i, f). ((40, i), (f, None))) xs"
| "soe_points dec (OctetStrings xs) = map (\<lambda>(i, s). ((110, i),
     (Fin 0, let t = dec (strip_nuls s) in if t = [] then None else Some t))) xs"

definition soe_process :: "(string \<Rightarrow> string) \<Rightarrow> clock \<Rightarrow> measurements \<Rightarrow> dev_cache \<Rightarrow> dev_cache" where
  "soe_process dec now ms c = fold (\<lambda>(p, v) c. cache_set now p v c) (soe_points dec ms) c"

definition on_open :: "clock \<Rightarrow> dev_cache \<Rightarrow> dev_cache" where
  "on_open now c = begin_recovery now (set_connected True c)"

definition on_close :: "dev_cache \<Rightarrow> dev_cache" where
  "on_close c = set_connected False c"

named_theorems dc_defs \<open>the operations of the device cache\<close>

declare cache_set_def [dc_defs] clear_dirty_def [dc_defs] mark_all_dirty_def [dc_defs] set_connected_def [dc_defs]
  begin_recovery_def [dc_defs] fail_recovery_def [dc_defs] consume_recovery_publish_def [dc_defs]
  on_open_def [dc_defs] on_close_def [dc_defs] Let_def [dc_defs]

section \<open>Invariant\<close>

text \<open>
  One entry per point; only known points are dirty; a confirmed recovery that nobody has published yet
  has every known point dirty; and a device that was announced as lost is only online with such a
  recovery pending.
\<close>

definition cache_inv :: "dev_cache \<Rightarrow> bool" where
  "cache_inv c \<longleftrightarrow> distinct (map fst (dc_values c)) \<and> dc_dirty c \<subseteq> known c \<and>
     (dc_pending c \<longrightarrow> dc_state c = Online \<and> dc_dirty c = known c) \<and>
     (dc_state c = Online \<and> dc_announced c \<longrightarrow> dc_pending c) \<and>
     (dc_state c \<noteq> Lost \<longrightarrow> dc_connected c)"

lemma cache_inv_init [simp]: "cache_inv cache_init"
  by (simp add: cache_inv_def cache_init_def)

lemma known_update: "known (c\<lparr>dc_values := AList.update p v (dc_values c)\<rparr>) = insert p (known c)"
  by (simp add: known_def dom_update)

lemma cache_get_set: "cache_get q (cache_set now p v c) = (if q = p then Some v else cache_get q c)"
  by (simp add: cache_get_def cache_set_def Let_def update_conv')

lemma known_set [simp]: "known (cache_set now p v c) = insert p (known c)"
  by (simp add: known_def cache_set_def Let_def dom_update)

lemma known_iff: "p \<in> known c \<longleftrightarrow> cache_get p c \<noteq> None"
  by (simp add: known_def cache_get_def map_of_eq_None_iff)

lemma changed_known: "p \<notin> known c \<Longrightarrow> changed (cache_get p c) v"
  by (cases "cache_get p c") (simp_all add: known_iff changed_def)

lemma cache_set_inv: "cache_inv c \<Longrightarrow> cache_inv (cache_set now p v c)"
proof -
  assume inv: "cache_inv c"
  have d: "distinct (map fst (AList.update p v (dc_values c)))"
    using inv by (simp add: cache_inv_def distinct_update)
  show ?thesis
    using inv changed_known [of p c v]
    by (auto simp: cache_inv_def cache_set_def Let_def d known_def dom_update)
qed

lemma cache_inv_steps [simp]:
  assumes "cache_inv c"
  shows "cache_inv (set_connected ok c)" "cache_inv (fail_recovery c)"
    "cache_inv (on_open now c)" "cache_inv (on_close c)"
  using assms by (auto simp: cache_inv_def dc_defs known_def)

lemma soe_process_inv: "cache_inv c \<Longrightarrow> cache_inv (soe_process dec now ms c)"
proof -
  have "cache_inv (fold (\<lambda>(p, v) c. cache_set now p v c) pvs c)" if "cache_inv c" for pvs
    using that by (induction pvs arbitrary: c) (auto simp: cache_set_inv)
  then show "cache_inv c \<Longrightarrow> cache_inv (soe_process dec now ms c)" by (simp add: soe_process_def)
qed

end
