(* ===== verification/Yad_Reader.thy ===== *)
theory Yad_Reader
  imports Device_Cache
begin

text \<open>
  \<open>adapters/dnp3_yadnp3_master.py\<close>, classes \<open>_ManagedMaster\<close> and \<open>Yadnp3TelemetryReader\<close>: one connection
  and cache per device code, read by the poller. OpenDNP3 is not part of the program: a connection is
  the channel it was created with, the calls it was given are counted, and creating one may raise.
  One \<open>read_device\<close> call happens at one clock reading.
\<close>

section \<open>Reading one cache\<close>

definition stale_threshold :: "int \<Rightarrow> int \<Rightarrow> int" where
  "stale_threshold baseline scan = max (max (baseline * 4) (scan * 10)) 60"

definition is_stale :: "int \<Rightarrow> clock \<Rightarrow> dev_cache \<Rightarrow> bool" where
  "is_stale thr now c \<longleftrightarrow> dc_last_update c = 0 \<or> now - dc_last_update c > of_int thr"

text \<open>The stale edge and the recovery timeout; the flag says that an integrity poll is requested.\<close>

definition judge_link :: "int \<Rightarrow> clock \<Rightarrow> dev_cache \<Rightarrow> bool \<times> dev_cache" where
  "judge_link thr now c =
     (let edge = (dc_connected c \<and> is_stale thr now c \<and> dc_state c = Online);
          c1 = (if edge then begin_recovery now c else c);
          c2 = (if dc_state c1 = Recovering \<and> recovery_age now c1 > 15 then fail_recovery c1 else c1)
      in (edge, c2))"

definition read_point :: "signal_config \<Rightarrow> dev_cache \<Rightarrow> signal_reading \<times> dev_cache" where
  "read_point s c = (case cache_get (point_of s) c of
       None \<Rightarrow> (blank_reading s ''no_change'', c)
     | Some (raw, txt) \<Rightarrow>
         if \<not> is_dirty (point_of s) c then (blank_reading s ''no_change'', c)
         else (value_reading s raw txt 6, clear_dirty (point_of s) c))"

fun read_points :: "signal_config list \<Rightarrow> dev_cache \<Rightarrow> signal_reading list \<times> dev_cache" where
  "read_points [] c = ([], c)"
| "read_points (s # ss) c =
     (case read_point s c of (r, c1) \<Rightarrow> (case read_points ss c1 of (rs, c2) \<Rightarrow> (r # rs, c2)))"

definition read_cache ::
  "int \<Rightarrow> clock \<Rightarrow> signal_config list \<Rightarrow> dev_cache \<Rightarrow> signal_reading list \<times> bool \<times> dev_cache" where
  "read_cache thr now ss c = (case judge_link thr now c of (poll, c2) \<Rightarrow>
     if dc_state c2 \<noteq> Online
     then (map (\<lambda>s. blank_reading s (if dc_announced c2 then ''no_change'' else ''comm_lost'')) ss,
           poll, c2\<lparr>dc_announced := True\<rparr>)
     else (case consume_recovery_publish c2 of (b, c3) \<Rightarrow>
       let c4 = (if b then snd (mark_all_dirty (c3\<lparr>dc_announced := False\<rparr>)) else c3)
       in case read_points ss c4 of (rs, c5) \<Rightarrow> (rs, poll, c5)))"

section \<open>Connections\<close>

datatype channel = TcpClient string int | TcpServer int

record managed =
  mm_device :: device_config
  mm_local :: int
  mm_remote :: int
  mm_channel :: channel
  mm_scan :: int
  mm_baseline :: int
  mm_cache :: dev_cache
  mm_polls :: nat

record yad_reader =
  yr_local :: int
  yr_port :: int
  yr_scan :: int
  yr_baseline :: int
  yr_threads :: int
  yr_masters :: "(string \<times> managed) list"

definition yad_init :: "int \<Rightarrow> int \<Rightarrow> int \<Rightarrow> int \<Rightarrow> int \<Rightarrow> yad_reader" where
  "yad_init local port scan baseline threads =
     \<lparr>yr_local = local, yr_port = port, yr_scan = scan, yr_baseline = baseline,
      yr_threads = (if threads \<le> 0 then 4 else max 1 (min 64 threads)), yr_masters = []\<rparr>"

definition resolve_tcp_port :: "device_config \<Rightarrow> int \<Rightarrow> int" where
  "resolve_tcp_port d dflt = (case d_tcp_port d of
       Some p \<Rightarrow> if 1 \<le> p \<and> p \<le> 65535 then p else dflt | None \<Rightarrow> dflt)"

definition resolve_local_address :: "device_config \<Rightarrow> int \<Rightarrow> int" where
  "resolve_local_address d dflt = (case d_master_address d of
       Some a \<Rightarrow> if 0 \<le> a \<and> a \<le> 65519 then a else dflt | None \<Rightarrow> dflt)"

definition open_channel :: "device_config \<Rightarrow> int \<Rightarrow> channel" where
  "open_channel d tcp_port =
     (if py_lower (if d_endpoint d = [] then ''listening'' else d_endpoint d) = ''initiating''
      then TcpServer (case d_master_port d of Some p \<Rightarrow> if p \<noteq> 0 then p else tcp_port | None \<Rightarrow> tcp_port)
      else TcpClient (py_strip (d_ip d)) tcp_port)"

definition new_master :: "device_config \<Rightarrow> int \<Rightarrow> int \<Rightarrow> int \<Rightarrow> int \<Rightarrow> managed" where
  "new_master d local tcp_port scan baseline =
     \<lparr>mm_device = d, mm_local = local, mm_remote = d_address d, mm_channel = open_channel d tcp_port,
      mm_scan = max 1 scan, mm_baseline = max (max 1 scan) baseline, mm_cache = cache_init, mm_polls = 0\<rparr>"

record yad_env =
  ye_now :: clock
  ye_create :: "pyexc option"     \<comment> \<open>what creating a connection raises\<close>
  ye_poll :: bool                 \<comment> \<open>whether a poll request is accepted\<close>

definition ensure_master :: "yad_env \<Rightarrow> device_config \<Rightarrow> yad_reader \<Rightarrow> managed res \<times> yad_reader" where
  "ensure_master e d r = (case map_of (yr_masters r) (d_code d) of
       Some mm \<Rightarrow> (Inr mm, r)
     | None \<Rightarrow> (case ye_create e of
           Some x \<Rightarrow> (Inl x, r)
         | None \<Rightarrow>
             (let mm = new_master d (resolve_local_address d (yr_local r)) (resolve_tcp_port d (yr_port r))
                         (yr_scan r) (yr_baseline r)
              in (Inr mm, r\<lparr>yr_masters := AList.update (d_code d) mm (yr_masters r)\<rparr>))))"

definition request_integrity_poll :: "bool \<Rightarrow> managed \<Rightarrow> bool \<times> managed" where
  "request_integrity_poll accepted mm = (accepted, if accepted then mm\<lparr>mm_polls := Suc (mm_polls mm)\<rparr> else mm)"

definition yad_read ::
  "yad_env \<Rightarrow> device_config \<Rightarrow> signal_config list \<Rightarrow> yad_reader \<Rightarrow> signal_reading list res \<times> yad_reader" where
  "yad_read e d ss r = (case ensure_master e d r of
       (Inl x, r1) \<Rightarrow> (Inl x, r1)
     | (Inr mm, r1) \<Rightarrow>
         (case read_cache (stale_threshold (yr_baseline r) (yr_scan r)) (ye_now e) ss (mm_cache mm) of
            (rs, poll, c) \<Rightarrow>
              (let mm1 = mm\<lparr>mm_cache := c\<rparr>;
                   mm2 = (if poll then snd (request_integrity_poll (ye_poll e) mm1) else mm1)
               in (Inr rs, r1\<lparr>yr_masters := AList.update (d_code d) mm2 (yr_masters r1)\<rparr>))))"

definition yad_forget :: "string set \<Rightarrow> yad_reader \<Rightarrow> nat \<times> yad_reader" where
  "yad_forget act r =
     (length (filter (\<lambda>(c, mm). c \<notin> act) (yr_masters r)),
      r\<lparr>yr_masters := filter (\<lambda>(c, mm). c \<in> act) (yr_masters r)\<rparr>)"

definition yad_refresh_all :: "(string \<Rightarrow> bool) \<Rightarrow> yad_reader \<Rightarrow> (nat \<times> nat) \<times> yad_reader" where
  "yad_refresh_all accepted r =
     ((length (filter (\<lambda>(c, mm). accepted c) (yr_masters r)), length (yr_masters r)),
      r\<lparr>yr_masters := map (\<lambda>(c, mm). (c, snd (request_integrity_poll (accepted c) mm))) (yr_masters r)\<rparr>)"

definition yad_close :: "yad_reader \<Rightarrow> yad_reader" where
  "yad_close r = r\<lparr>yr_masters := []\<rparr>"

definition yad_live :: "yad_reader \<Rightarrow> string set" where
  "yad_live r = set (map fst (yr_masters r))"

section \<open>The reader contract\<close>

lemma read_point_facts:
  assumes "read_point s c = (r, c')"
  shows "sr_key r = s_key s \<and> sr_source r = s_source s \<and> sr_type r = s_type s \<and> sr_quality r \<in> set qualities"
  using assms by (auto simp: read_point_def qualities_def split: option.splits if_splits)

lemma read_points_answers: "read_points ss c = (rs, c') \<Longrightarrow> answers ss rs"
proof (induction ss arbitrary: c rs)
  case (Cons s ss)
  then show ?case
    using read_point_facts [of s c] by (auto simp: answers_Cons split: prod.splits)
qed simp

lemma read_cache_answers: "read_cache thr now ss c = (rs, p, c') \<Longrightarrow> answers ss rs"
  by (auto simp: read_cache_def Let_def qualities_def split: prod.splits if_splits
      intro: read_points_answers answers_map)

lemma yad_answers: "yad_read e d ss r = (Inr rs, r') \<Longrightarrow> answers ss rs"
  by (auto simp: yad_read_def Let_def split: prod.splits sum.splits intro: read_cache_answers)

lemma live_update [simp]:
  "yad_live (r\<lparr>yr_masters := AList.update k v (yr_masters r)\<rparr>) = insert k (yad_live r)"
  by (simp add: yad_live_def dom_update)

lemma ensure_master_live:
  "ensure_master e d r = (x, r') \<Longrightarrow> yad_live r \<subseteq> yad_live r' \<and> yad_live r' \<subseteq> insert (d_code d) (yad_live r)"
  by (auto simp: ensure_master_def Let_def split: option.splits)

lemma yad_read_live:
  assumes "yad_read e d ss r = (x, r')"
  shows "yad_live r \<subseteq> yad_live r' \<and> yad_live r' \<subseteq> insert (d_code d) (yad_live r)"
proof -
  obtain y r1 where y: "ensure_master e d r = (y, r1)" by fastforce
  have "yad_live r' = yad_live r1 \<or> yad_live r' = insert (d_code d) (yad_live r1)"
    using assms y by (auto simp: yad_read_def Let_def split: prod.splits sum.splits)
  then show ?thesis using ensure_master_live [OF y] by auto
qed

lemma yad_forget_live: "yad_forget act r = (n, r') \<Longrightarrow> yad_live r' = yad_live r \<inter> act"
  by (force simp: yad_forget_def yad_live_def)

interpretation yad: telemetry_reader yad_read yad_forget yad_live
  by unfold_locales (simp_all add: yad_answers yad_read_live yad_forget_live)


section \<open>What the consumer sees\<close>

text \<open>
  The poller publishes every reading but the \<open>no_change\<close> ones; the consumer keeps the last one per
  signal. The events of one device interleave in any order.
\<close>

type_synonym view = "string \<rightharpoonup> signal_reading"

definition consume :: "signal_reading \<Rightarrow> view \<Rightarrow> view" where
  "consume r v = (if sr_quality r = ''no_change'' then v else v(sr_key r \<mapsto> r))"

datatype dev_event = Frames clock measurements | LinkOpen clock | LinkClose | ReadAt clock

fun dev_step :: "(string \<Rightarrow> string) \<Rightarrow> int \<Rightarrow> signal_config list \<Rightarrow> dev_event \<Rightarrow> dev_cache \<times> view \<Rightarrow> dev_cache \<times> view"
where
  "dev_step dec thr ss (Frames now ms) (c, v) = (soe_process dec now ms c, v)"
| "dev_step dec thr ss (LinkOpen now) (c, v) = (on_open now c, v)"
| "dev_step dec thr ss LinkClose (c, v) = (on_close c, v)"
| "dev_step dec thr ss (ReadAt now) (c, v) =
     (case read_cache thr now ss c of (rs, p, c') \<Rightarrow> (c', fold consume rs v))"

definition dev_run ::
  "(string \<Rightarrow> string) \<Rightarrow> int \<Rightarrow> signal_config list \<Rightarrow> dev_event list \<Rightarrow> dev_cache \<times> view \<Rightarrow> dev_cache \<times> view" where
  "dev_run dec thr ss evs x = fold (dev_step dec thr ss) evs x"

definition entry_reading :: "signal_config \<Rightarrow> entry \<Rightarrow> signal_reading" where
  "entry_reading s e = value_reading s (fst e) (snd e) 6"

definition point_reading :: "dev_cache \<Rightarrow> signal_config \<Rightarrow> signal_reading" where
  "point_reading c s = fst (read_point s c)"

lemma read_point_cache:
  "read_point s c = (r, c') \<Longrightarrow> c' = c\<lparr>dc_dirty := dc_dirty c - (if cache_get (point_of s) c = None then {} else {point_of s})\<rparr>"
  by (auto simp: read_point_def clear_dirty_def is_dirty_def split: option.splits if_splits)

lemma read_point_clears:
  "point_of s \<noteq> p \<Longrightarrow> point_reading (c\<lparr>dc_dirty := dc_dirty c - {p}\<rparr>) s = point_reading c s"
  by (auto simp: point_reading_def read_point_def is_dirty_def cache_get_def split: option.splits)

lemma read_points_spec:
  "distinct (map point_of ss) \<Longrightarrow> read_points ss c = (rs, c') \<Longrightarrow>
   rs = map (point_reading c) ss \<and>
   c' = c\<lparr>dc_dirty := dc_dirty c - {p \<in> point_of ` set ss. cache_get p c \<noteq> None}\<rparr>"
proof (induction ss arbitrary: c rs)
  case (Cons s ss)
  obtain r c1 where r: "read_point s c = (r, c1)" by fastforce
  obtain rs2 where rs2: "read_points ss c1 = (rs2, c')" "rs = r # rs2"
    using Cons.prems(2) r by (auto split: prod.splits)
  note c1 = read_point_cache [OF r]
  have get: "cache_get p c1 = cache_get p c" for p by (simp add: c1 cache_get_def)
  have "rs2 = map (point_reading c1) ss \<and>
      c' = c1\<lparr>dc_dirty := dc_dirty c1 - {p \<in> point_of ` set ss. cache_get p c1 \<noteq> None}\<rparr>"
    using Cons.IH [OF _ rs2(1)] Cons.prems(1) by simp
  moreover have "point_reading c1 t = point_reading c t" if "t \<in> set ss" for t
  proof -
    have "point_of t \<noteq> point_of s" using that Cons.prems(1) by (auto simp: image_iff)
    then show ?thesis using c1 read_point_clears [of t "point_of s" c] by (cases "cache_get (point_of s) c") simp_all
  qed
  moreover have "r = point_reading c s" using r by (simp add: point_reading_def)
  moreover have "dc_dirty c1 - {p \<in> point_of ` set ss. cache_get p c \<noteq> None} =
      dc_dirty c - {p \<in> point_of ` set (s # ss). cache_get p c \<noteq> None}"
    by (cases "cache_get (point_of s) c") (auto simp: c1)
  moreover have "c1\<lparr>dc_dirty := d\<rparr> = c\<lparr>dc_dirty := d\<rparr>" for d by (simp add: c1)
  ultimately show ?case
    unfolding rs2(2) get by (simp cong: map_cong)
qed simp

lemma point_reading_key [simp]: "sr_key (point_reading c s) = s_key s"
  using read_point_facts [of s c] by (metis point_reading_def prod.collapse)

lemma fold_consume:
  assumes "distinct (map s_key ss)" "\<And>s. sr_key (f s) = s_key s" "s \<in> set ss"
  shows "fold consume (map f ss) v (s_key s) = (if sr_quality (f s) = ''no_change'' then v (s_key s) else Some (f s))"
  using assms(1,3)
proof (induction ss arbitrary: v)
  case (Cons t ss)
  show ?case
  proof (cases "s = t")
    case True
    have k: "fold consume (map f ss) w (s_key t) = w (s_key t)" for w
    proof -
      have "s_key t \<notin> s_key ` set ss" using Cons.prems(1) by simp
      then show ?thesis
        by (induction ss arbitrary: w) (auto simp: consume_def assms(2))
    qed
    then show ?thesis by (simp add: True k) (simp add: consume_def assms(2))
  next
    case False
    then have "s \<in> set ss" "s_key s \<noteq> s_key t" using Cons.prems by (auto simp: image_iff)
    then show ?thesis using Cons by (simp add: consume_def assms(2))
  qed
qed simp

text \<open>The invariant of cache and view.\<close>

definition view_inv :: "signal_config list \<Rightarrow> dev_cache \<Rightarrow> view \<Rightarrow> bool" where
  "view_inv ss c v \<longleftrightarrow> cache_inv c \<and>
     (dc_announced c \<longrightarrow> (\<forall>s \<in> set ss. v (s_key s) = Some (blank_reading s ''comm_lost''))) \<and>
     (\<not> dc_announced c \<longrightarrow> (\<forall>s \<in> set ss. \<forall>e. cache_get (point_of s) c = Some e \<and> point_of s \<notin> dc_dirty c \<longrightarrow>
        v (s_key s) = Some (entry_reading s e)))"

lemma set_keeps_clean:
  assumes "cache_get p (cache_set now q x c) = Some e" "p \<notin> dc_dirty (cache_set now q x c)"
  shows "cache_get p c = Some e \<and> p \<notin> dc_dirty c"
proof -
  have "p \<notin> dc_dirty c" "p = q \<Longrightarrow> \<not> changed (cache_get q c) x"
    using assms(2) by (auto simp: cache_set_def Let_def split: if_splits)
  moreover have "\<not> changed (cache_get q c) x \<Longrightarrow> cache_get q c = Some x"
    by (cases x) (auto simp: changed_def dest: feq_eq split: option.splits)
  ultimately show ?thesis using assms(1) by (auto simp: cache_get_set split: if_splits)
qed

lemma set_announced [simp]: "dc_announced (cache_set now p x c) = dc_announced c"
  by (simp add: cache_set_def Let_def)

lemma view_inv_set: "view_inv ss c v \<Longrightarrow> view_inv ss (cache_set now p x c) v"
  using set_keeps_clean [of _ now p x c] cache_set_inv [of c now p x] unfolding view_inv_def set_announced by blast

lemma view_inv_frames: "view_inv ss c v \<Longrightarrow> view_inv ss (soe_process dec now ms c) v"
proof -
  have "view_inv ss (fold (\<lambda>(p, x) c. cache_set now p x c) pvs c) v" if "view_inv ss c v" for pvs
    using that by (induction pvs arbitrary: c) (auto simp: view_inv_set)
  then show "view_inv ss c v \<Longrightarrow> view_inv ss (soe_process dec now ms c) v" by (simp add: soe_process_def)
qed

lemma view_inv_link:
  assumes "view_inv ss c v"
  shows "view_inv ss (on_open now c) v" "view_inv ss (on_close c) v"
  using assms cache_inv_steps [of c] unfolding view_inv_def
  by (auto simp: on_open_def on_close_def set_connected_def begin_recovery_def cache_get_def)

lemma recovery_frame [simp]:
  "dc_values (begin_recovery now c) = dc_values c" "dc_values (fail_recovery c) = dc_values c"
  "dc_dirty (begin_recovery now c) = dc_dirty c" "dc_dirty (fail_recovery c) = dc_dirty c"
  "dc_announced (begin_recovery now c) = dc_announced c" "dc_announced (fail_recovery c) = dc_announced c"
  by (simp_all add: begin_recovery_def fail_recovery_def)

lemma begin_recovery_inv: "cache_inv c \<Longrightarrow> dc_connected c \<Longrightarrow> cache_inv (begin_recovery now c)"
  by (auto simp: cache_inv_def begin_recovery_def known_def)

lemma judge_link_inv:
  assumes "judge_link thr now c = (poll, c2)" "cache_inv c"
  shows "cache_inv c2 \<and> dc_values c2 = dc_values c \<and> dc_dirty c2 = dc_dirty c \<and> dc_announced c2 = dc_announced c"
proof -
  let ?edge = "dc_connected c \<and> is_stale thr now c \<and> dc_state c = Online"
  define c1 where "c1 = (if ?edge then begin_recovery now c else c)"
  have 1: "cache_inv c1 \<and> dc_values c1 = dc_values c \<and> dc_dirty c1 = dc_dirty c \<and> dc_announced c1 = dc_announced c"
    using assms(2) begin_recovery_inv [of c now] by (simp add: c1_def)
  have "c2 = c1 \<or> c2 = fail_recovery c1"
    using assms(1) unfolding judge_link_def Let_def c1_def [symmetric] prod.inject by presburger
  then show ?thesis using 1 cache_inv_steps(2) [of c1] by (elim disjE) simp_all
qed

text \<open>What one read leaves: the view is right for the state the device is judged to be in.\<close>

definition view_current :: "signal_config list \<Rightarrow> dev_cache \<Rightarrow> view \<Rightarrow> bool" where
  "view_current ss c v \<longleftrightarrow> (\<forall>s \<in> set ss.
     if dc_state c = Online
     then (case cache_get (point_of s) c of None \<Rightarrow> True | Some e \<Rightarrow> v (s_key s) = Some (entry_reading s e))
     else v (s_key s) = Some (blank_reading s ''comm_lost''))"

lemma read_lost:
  assumes inv: "view_inv ss c v" and keys: "distinct (map s_key ss)"
    and j: "judge_link thr now c = (poll, c2)" and lost: "dc_state c2 \<noteq> Online"
    and r: "read_cache thr now ss c = (rs, p, c')"
  shows "view_inv ss c' (fold consume rs v) \<and> view_current ss c' (fold consume rs v)"
proof -
  note jl = judge_link_inv [OF j]
  have c': "c' = c2\<lparr>dc_announced := True\<rparr>"
    and rs: "rs = map (\<lambda>s. blank_reading s (if dc_announced c2 then ''no_change'' else ''comm_lost'')) ss"
    using r j lost by (auto simp: read_cache_def)
  have view: "fold consume rs v (s_key s) = Some (blank_reading s ''comm_lost'')" if "s \<in> set ss" for s
    unfolding rs using fold_consume [OF keys, of "\<lambda>s. blank_reading s (if dc_announced c2 then ''no_change'' else ''comm_lost'')" s v]
      that inv jl by (auto simp: view_inv_def)
  have "cache_inv c'" using jl inv lost by (auto simp: c' view_inv_def cache_inv_def known_def)
  then show ?thesis using view lost by (auto simp: view_inv_def view_current_def c')
qed

lemma point_reading_cases:
  "cache_get (point_of s) c = None \<Longrightarrow> point_reading c s = blank_reading s ''no_change''"
  "cache_get (point_of s) c = Some e \<Longrightarrow> point_reading c s =
     (if point_of s \<in> dc_dirty c then entry_reading s e else blank_reading s ''no_change'')"
  by (auto simp: point_reading_def read_point_def is_dirty_def entry_reading_def split: prod.splits)

lemma read_online:
  assumes inv: "view_inv ss c v" and keys: "distinct (map s_key ss)" and pts: "distinct (map point_of ss)"
    and j: "judge_link thr now c = (poll, c2)" and online: "dc_state c2 = Online"
    and r: "read_cache thr now ss c = (rs, p, c')"
  shows "view_inv ss c' (fold consume rs v) \<and> view_current ss c' (fold consume rs v)"
proof -
  have ci: "cache_inv c" using inv by (simp add: view_inv_def)
  note jl = judge_link_inv [OF j ci]
  define c4 where "c4 = (if dc_pending c2
    then c2\<lparr>dc_pending := False, dc_announced := False, dc_dirty := dc_dirty c2 \<union> known c2\<rparr> else c2)"
  have rp: "read_points ss c4 = (rs, c')"
    using r j online by (auto simp: read_cache_def consume_recovery_publish_def mark_all_dirty_def c4_def known_def
        Let_def split: prod.splits if_splits)
  note spec = read_points_spec [OF pts rp]
  have ann: "\<not> dc_announced c4" using jl online by (auto simp: c4_def cache_inv_def)
  have c4i: "cache_inv c4" using jl online by (auto simp: c4_def cache_inv_def known_def)
  have get: "cache_get q c4 = cache_get q c" "cache_get q c' = cache_get q c" for q
    using spec jl by (auto simp: c4_def cache_get_def)
  have clean: "v (s_key s) = Some (entry_reading s e)"
    if "s \<in> set ss" "cache_get (point_of s) c = Some e" "point_of s \<notin> dc_dirty c4" for s e
  proof -
    have "\<not> dc_pending c2" "point_of s \<notin> dc_dirty c"
      using that(2,3) jl known_iff [of "point_of s" c2] by (auto simp: c4_def cache_get_def split: if_splits)
    then have "\<not> dc_announced c" using ann jl by (simp add: c4_def)
    then show ?thesis using inv that \<open>point_of s \<notin> dc_dirty c\<close> by (cases e) (auto simp: view_inv_def)
  qed
  have view: "fold consume rs v (s_key s) = Some (entry_reading s e)"
    if s: "s \<in> set ss" "cache_get (point_of s) c = Some e" for s e
    using fold_consume [OF keys, of "point_reading c4" s v] s spec get point_reading_cases(2) [of s c4 e] clean [OF s]
    by (auto simp: entry_reading_def)
  have "cache_inv c'" using spec c4i online by (auto simp: cache_inv_def known_def c4_def)
  moreover have "dc_announced c' = False" "dc_state c' = Online" using spec ann online by (auto simp: c4_def)
  ultimately show ?thesis
    using view get by (auto simp: view_inv_def view_current_def split: option.splits)
qed

lemma view_inv_read:
  assumes "view_inv ss c v" "distinct (map s_key ss)" "distinct (map point_of ss)"
    "read_cache thr now ss c = (rs, p, c')"
  shows "view_inv ss c' (fold consume rs v) \<and> view_current ss c' (fold consume rs v)"
proof -
  obtain poll c2 where j: "judge_link thr now c = (poll, c2)" by fastforce
  show ?thesis
  proof (cases "dc_state c2 = Online")
    case True
    then show ?thesis using read_online [OF assms(1,2,3) j _ assms(4)] by blast
  next
    case False
    then show ?thesis using read_lost [OF assms(1,2) j _ assms(4)] by blast
  qed
qed

lemma view_inv_run:
  assumes "distinct (map s_key ss)" "distinct (map point_of ss)"
  shows "view_inv ss c v \<Longrightarrow> dev_run dec thr ss evs (c, v) = (c', v') \<Longrightarrow> view_inv ss c' v'"
proof (induction evs arbitrary: c v)
  case (Cons ev evs)
  obtain c1 v1 where s: "dev_step dec thr ss ev (c, v) = (c1, v1)" by fastforce
  have "view_inv ss c1 v1"
    using Cons.prems(1) s view_inv_frames view_inv_link view_inv_read [OF _ assms]
    by (cases ev) (auto split: prod.splits)
  then show ?case using Cons.IH Cons.prems(2) s by (simp add: dev_run_def)
qed (simp add: dev_run_def)


definition sample_signal :: signal_config where
  "sample_signal = \<lparr>s_key = ''master.ia'', s_label = ''Ia'', s_unit = Some ''A'', s_source = ''master'',
     s_class = ''Class 1'', s_type = ''analog'', s_group = 30, s_index = 4, s_scale = Fin 1, s_offset = Fin 0,
     s_alarm = False\<rparr>"



section \<open>A failed recovery\<close>

lemma set_lost: "dc_state c = Lost \<Longrightarrow> dc_state (cache_set now p x c) = Lost"
  by (simp add: cache_set_def Let_def)

lemma soe_lost: "dc_state c = Lost \<Longrightarrow> dc_state (soe_process dec now ms c) = Lost"
proof -
  have "dc_state (fold (\<lambda>(p, x) c. cache_set now p x c) pvs c) = Lost" if "dc_state c = Lost" for pvs
    using that by (induction pvs arbitrary: c) (auto simp: set_lost)
  then show "dc_state c = Lost \<Longrightarrow> dc_state (soe_process dec now ms c) = Lost" by (simp add: soe_process_def)
qed

lemma read_cache_lost:
  assumes "dc_state c = Lost" "read_cache thr now ss c = (rs, p, c')"
  shows "dc_state c' = Lost \<and> rs = map (\<lambda>s. blank_reading s (if dc_announced c then ''no_change'' else ''comm_lost'')) ss"
proof -
  have "judge_link thr now c = (False, c)" using assms(1) by (simp add: judge_link_def)
  then show ?thesis using assms by (auto simp: read_cache_def)
qed

text \<open>C35: A recovery that times out is final until the link reopens: while no \<open>OnOpen\<close> comes, a device in
  state lost stays lost whatever frames arrive, even with the TCP link up and fresh data in the cache,
  and the poller never gets a value of it.\<close>

theorem lost_until_reopened:
  assumes "dc_state c = Lost" and "\<forall>ev \<in> set evs. \<forall>now. ev \<noteq> LinkOpen now"
    and "dev_run dec thr ss evs (c, v) = (c', v')" and "read_cache thr now ss c' = (rs, p, c2)"
  shows "dc_state c' = Lost \<and> (\<forall>r \<in> set rs. sr_quality r \<noteq> ''good'')"
proof -
  have "dc_state c' = Lost" using assms(1-3)
  proof (induction evs arbitrary: c v)
    case (Cons ev evs)
    obtain c1 v1 where s: "dev_step dec thr ss ev (c, v) = (c1, v1)" by fastforce
    have "dc_state c1 = Lost"
      using s Cons.prems(1,2) soe_lost [of c] read_cache_lost [of c]
      by (cases ev) (auto simp: on_close_def set_connected_def split: prod.splits)
    then show ?case using Cons.IH [of c1 v1] Cons.prems(2,3) s by (simp add: dev_run_def)
  qed (simp add: dev_run_def)
  then show ?thesis using read_cache_lost [OF _ assms(4)] by auto
qed

theorem lost_until_reopened_witness:
  "dc_state (fst (dev_run (\<lambda>b. b) 60 [sample_signal] [Frames 40 (Analogs [(4, Fin 7)]), Frames 41 (Analogs [(4, Fin 8)])]
     (fail_recovery (on_open 11 cache_init), Map.empty))) = Lost"
proof -
  let ?x = "dev_run (\<lambda>b. b) 60 [sample_signal] [Frames 40 (Analogs [(4, Fin 7)]), Frames 41 (Analogs [(4, Fin 8)])]
     (fail_recovery (on_open 11 cache_init), Map.empty)"
  obtain rs p c2 where r: "read_cache 60 42 [sample_signal] (fst ?x) = (rs, p, c2)" by (metis prod_cases3)
  have "dc_state (fail_recovery (on_open 11 cache_init)) = Lost" by (simp add: dc_defs cache_init_def)
  from lost_until_reopened [OF this _ surjective_pairing r] show ?thesis by simp
qed

section \<open>Points that two signals share, and updates between the steps of a read\<close>

lemma read_points_dirty: "read_points ss c = (rs, c') \<Longrightarrow> dc_dirty c' \<subseteq> dc_dirty c \<and> dc_values c' = dc_values c"
proof (induction ss arbitrary: c rs)
  case (Cons s ss)
  obtain r c1 where r: "read_point s c = (r, c1)" by fastforce
  then obtain rs2 where "read_points ss c1 = (rs2, c')" using Cons.prems by (auto split: prod.splits)
  then show ?case using Cons.IH read_point_cache [OF r] by fastforce
qed simp

lemma read_point_not_dirty:
  "read_point s c = (r, c') \<Longrightarrow> point_of s \<notin> dc_dirty c' \<or> cache_get (point_of s) c = None"
  by (auto simp: read_point_def clear_dirty_def is_dirty_def split: option.splits if_splits)

lemma read_points_append:
  "read_points (as @ bs) c = (let (ra, c1) = read_points as c; (rb, c2) = read_points bs c1 in (ra @ rb, c2))"
  by (induction as arbitrary: c) (auto split: prod.splits)

text \<open>Two signals on the same DNP3 point do not both get its changes: within one read the first in
  the list takes the change, and the second is always answered \<open>no_change\<close>.\<close>

theorem shared_point_starves:
  assumes "read_points (as @ s1 # bs @ s2 # cs) c = (rs, c')" and "point_of s1 = point_of s2"
  shows "sr_quality (rs ! (length as + 1 + length bs)) = ''no_change''"
proof -
  obtain ra c1 where 1: "read_points as c = (ra, c1)" by fastforce
  obtain r1 c2 where 2: "read_point s1 c1 = (r1, c2)" by fastforce
  obtain rb c3 where 3: "read_points bs c2 = (rb, c3)" by fastforce
  obtain r2 c4 where 4: "read_point s2 c3 = (r2, c4)" by fastforce
  obtain rc where 5: "read_points cs c4 = (rc, c')" and rs: "rs = ra @ r1 # rb @ r2 # rc"
    using assms(1) 1 2 3 4 by (auto simp: read_points_append Let_def split: prod.splits)
  have len: "length ra = length as" "length rb = length bs"
    using answers_length [OF read_points_answers [OF 1]] answers_length [OF read_points_answers [OF 3]] by simp_all
  have "point_of s2 \<notin> dc_dirty c3 \<or> cache_get (point_of s2) c3 = None"
    using read_point_not_dirty [OF 2] read_points_dirty [OF 3] assms(2) read_point_cache [OF 2]
    by (auto simp: cache_get_def)
  then have "sr_quality r2 = ''no_change''"
    using 4 by (auto simp: read_point_def is_dirty_def split: option.splits if_splits)
  moreover have "rs ! (length as + 1 + length bs) = r2" by (simp add: rs nth_append len)
  ultimately show ?thesis by simp
qed

theorem shared_point_starves_witness:
  "sr_quality (fst (read_points [sample_signal, sample_signal\<lparr>s_key := ''copy''\<rparr>]
     (cache_set 5 (30, 4) (Fin 7, None) cache_init)) ! 1) = ''no_change''"
proof -
  let ?x = "read_points [sample_signal, sample_signal\<lparr>s_key := ''copy''\<rparr>] (cache_set 5 (30, 4) (Fin 7, None) cache_init)"
  have "?x = (fst ?x, snd ?x)" by simp
  then show ?thesis
    using shared_point_starves [of "[]" sample_signal "[]" "sample_signal\<lparr>s_key := ''copy''\<rparr>" "[]"
        "cache_set 5 (30, 4) (Fin 7, None) cache_init" "fst ?x" "snd ?x"]
    by (simp add: point_of_def del: read_points.simps)
qed

text \<open>
  \<open>read_device\<close> takes the cache lock three times per signal. A frame between \<open>get\<close> and \<open>clear_dirty\<close>
  stores a new value whose mark the reader then removes.
\<close>

lemma race_loses_update:
  assumes "dc_state c \<noteq> Recovering" "cache_get p c = Some old" "changed (Some old) new"
  shows "let c2 = clear_dirty p (cache_set now p new c)
    in cache_get p c2 = Some new \<and> \<not> is_dirty p c2 \<and>
       (\<forall>s. point_of s = p \<longrightarrow> fst (read_point s c2) = blank_reading s ''no_change'')"
proof -
  have "cache_get p (clear_dirty p (cache_set now p new c)) = Some new"
    by (simp add: clear_dirty_def cache_get_def cache_set_def Let_def update_conv')
  then show ?thesis by (auto simp: Let_def is_dirty_def clear_dirty_def read_point_def split: prod.splits)
qed

section \<open>Connections follow the device code only\<close>

text \<open>What the poller does to the reader in one cycle: forget the removed devices, read some.\<close>

definition yad_cycle ::
  "string set \<times> (yad_env \<times> device_config \<times> signal_config list) list \<Rightarrow> yad_reader \<Rightarrow> yad_reader" where
  "yad_cycle x r = (case x of (act, reads) \<Rightarrow>
     fold (\<lambda>(e, d, ss) r. snd (yad_read e d ss r)) reads (snd (yad_forget act r)))"

definition connection :: "string \<Rightarrow> yad_reader \<Rightarrow> (channel \<times> int \<times> int) option" where
  "connection code r = map_option (\<lambda>mm. (mm_channel mm, mm_local mm, mm_remote mm)) (map_of (yr_masters r) code)"

lemma yad_read_connection:
  "connection code r = Some x \<Longrightarrow> connection code (snd (yad_read e d ss r)) = Some x"
  by (auto simp: connection_def yad_read_def ensure_master_def request_integrity_poll_def Let_def update_conv'
      split: prod.splits sum.splits option.splits if_splits)

lemma map_of_filter_key: "map_of (filter (\<lambda>(k, v). P k) xs) k = (if P k then map_of xs k else None)"
  by (induction xs) auto

text \<open>A connection is made once per device code: as long as the code stays in the configuration, cycles
  and reads keep the channel and the link addresses it was first opened with, whatever address, port
  or DNP3 address later configurations give the device; only a cycle without the code closes it.\<close>

theorem address_change_ignored:
  assumes "connection code r = Some x" and "\<forall>(act, reads) \<in> set cs. code \<in> act"
  shows "connection code (fold yad_cycle cs r) = Some x \<and>
    (code \<notin> act' \<longrightarrow> connection code (snd (yad_forget act' (fold yad_cycle cs r))) = None)"
proof -
  have reads: "connection code (fold (\<lambda>(e, d, ss) r. snd (yad_read e d ss r)) l r) = Some x"
    if "connection code r = Some x" for l r
    using that by (induction l arbitrary: r) (simp_all add: yad_read_connection case_prod_beta)
  have forget: "connection code (snd (yad_forget act r)) = (if code \<in> act then connection code r else None)" for act r
    by (simp add: connection_def yad_forget_def map_of_filter_key)
  have "connection code (fold yad_cycle cs r) = Some x"
    using assms reads forget by (induction cs arbitrary: r) (auto simp: yad_cycle_def)
  then show ?thesis using forget by simp
qed

definition sample_yad :: yad_reader where
  "sample_yad = snd (yad_read \<lparr>ye_now = 5, ye_create = None, ye_poll = True\<rparr>
     (default_device ''D1'' ''Feeder'' ''10.0.0.5'') [] (yad_init 1 20000 5 60 0))"

theorem address_change_ignored_witness:
  "connection ''D1'' (fold yad_cycle [({''D1''}, [(\<lparr>ye_now = 9, ye_create = None, ye_poll = True\<rparr>,
     default_device ''D1'' ''Feeder'' ''10.0.0.99'', [])])] sample_yad) = Some (TcpClient ''10.0.0.5'' 20000, 1, 1)"
proof -
  have "py_lower ''listening'' \<noteq> ''initiating''" "py_strip ''10.0.0.5'' = ''10.0.0.5''" by code_simp+
  then have "connection ''D1'' sample_yad = Some (TcpClient ''10.0.0.5'' 20000, 1, 1)"
    by (simp add: sample_yad_def yad_read_def ensure_master_def yad_init_def new_master_def connection_def
        open_channel_def resolve_tcp_port_def resolve_local_address_def default_device_def Let_def
        split: prod.splits)
      (simp add: request_integrity_poll_def)
  then show ?thesis
    using address_change_ignored [of "''D1''" sample_yad "(TcpClient ''10.0.0.5'' 20000, 1, 1)"
       "[({''D1''}, [(\<lparr>ye_now = 9, ye_create = None, ye_poll = True\<rparr>,
     default_device ''D1'' ''Feeder'' ''10.0.0.99'', [])])]" "{}"] by simp
qed

end
