(* ===== verification/Dnp3_Reader.thy ===== *)
theory Dnp3_Reader
  imports Dnp3_Reads Yad_Reader Gw_State
begin

text \<open>
  \<open>Dnp3TelemetryReader\<close>: one session per device code, opened on demand, reopened when the device's
  address changes and dropped when its connection is gone, with the event caches of the devices beside
  it; and the reader contract for it. Addresses are resolved as in the yadnp3 reader.
\<close>

section \<open>Operations\<close>

record 'm dnp3_reader =
  dr_local :: int
  dr_port :: int
  dr_opts :: dnp3_opts
  dr_sessions :: "(string \<times> 'm session) list"
  dr_events :: "(string \<times> event_cache) list"   \<comment> \<open>\<open>_device_event_cache\<close> with \<open>_device_baseline_at\<close>\<close>

definition dnp3_init :: "int \<Rightarrow> int \<Rightarrow> dnp3_opts \<Rightarrow> 'm dnp3_reader" where
  "dnp3_init local port opts =
     \<lparr>dr_local = local, dr_port = port, dr_opts = opts, dr_sessions = [], dr_events = []\<rparr>"

definition wanted :: "device_config \<Rightarrow> 'm dnp3_reader \<Rightarrow> string \<times> string \<times> int \<times> int \<times> int" where
  "wanted d r = fingerprint d (resolve_tcp_port d (dr_port r)) (resolve_local_address d (dr_local r))"

definition evict :: "string \<Rightarrow> 'm dnp3_reader \<Rightarrow> 'm dnp3_reader" where
  "evict code r = r\<lparr>dr_sessions := AList.delete code (dr_sessions r)\<rparr>"

definition drop_changed :: "device_config \<Rightarrow> 'm dnp3_reader \<Rightarrow> 'm dnp3_reader" where
  "drop_changed d r = (case map_of (dr_sessions r) (d_code d) of
       Some s \<Rightarrow> if session_fingerprint s \<noteq> wanted d r then evict (d_code d) r else r
     | None \<Rightarrow> r)"

definition event_cache_of :: "string \<Rightarrow> 'm dnp3_reader \<Rightarrow> event_cache" where
  "event_cache_of code r = (case map_of (dr_events r) code of Some ev \<Rightarrow> ev | None \<Rightarrow> ev_init)"

definition get_session :: "'m dnp3_env \<Rightarrow> device_config \<Rightarrow> 'm dnp3_reader \<Rightarrow> 'm session res \<times> 'm dnp3_reader" where
  "get_session e d r =
     (let r1 = drop_changed d r in
      case map_of (dr_sessions r1) (d_code d) of
        Some s \<Rightarrow> (Inr s, r1)
      | None \<Rightarrow>
          (let r2 = r1\<lparr>dr_events := AList.update (d_code d) (event_cache_of (d_code d) r1) (dr_events r1)\<rparr>
           in case session_connect e (dr_opts r)
                (session_init d (resolve_local_address d (dr_local r)) (resolve_tcp_port d (dr_port r))) of
                (Inl x, s) \<Rightarrow> (Inl x, r2)
              | (Inr _, s) \<Rightarrow> (Inr s, r2\<lparr>dr_sessions := AList.update (d_code d) s (dr_sessions r2)\<rparr>)))"

definition batch_reading :: "signal_config \<Rightarrow> pyfloat \<times> string \<Rightarrow> signal_reading" where
  "batch_reading s x = (case x of (raw, q) \<Rightarrow>
     if q = ''no_change'' \<or> q = ''good'' then (value_reading s raw None 4)\<lparr>sr_quality := q\<rparr>
     else blank_reading s q)"

definition dnp3_read ::
  "'m dnp3_env \<Rightarrow> device_config \<Rightarrow> signal_config list \<Rightarrow> 'm dnp3_reader \<Rightarrow> signal_reading list res \<times> 'm dnp3_reader" where
  "dnp3_read e d ss r = (case get_session e d r of
       (Inl x, r1) \<Rightarrow> (Inl x, r1)
     | (Inr s, r1) \<Rightarrow> (case read_batch e (dr_opts r) ss (event_cache_of (d_code d) r1) s of
          (res, ev, s1) \<Rightarrow>
            (let r2 = r1\<lparr>dr_sessions := AList.update (d_code d) s1 (dr_sessions r1),
                         dr_events := AList.update (d_code d) ev (dr_events r1)\<rparr>
             in case res of
                Inl x \<Rightarrow>
                  if is_adapter_error x
                  then (Inr (map (\<lambda>s. blank_reading s ''no_change'') ss), evict (d_code d) r2)
                  else (Inl x, r2)
              | Inr out \<Rightarrow>
                  (if length out \<noteq> length ss then Inl value_error   \<comment> \<open>\<open>zip(strict=True)\<close>\<close>
                   else Inr (map (\<lambda>(s, x). batch_reading s x) (zip ss out)),
                   if master_connected e s1 then r2 else evict (d_code d) r2))))"

definition dnp3_forget :: "string set \<Rightarrow> 'm dnp3_reader \<Rightarrow> nat \<times> 'm dnp3_reader" where
  "dnp3_forget act r =
     (let stale = filter (\<lambda>c. c \<notin> act) (map fst (dr_sessions r))
      in (length stale,
          r\<lparr>dr_sessions := filter (\<lambda>(c, s). c \<in> act) (dr_sessions r),
            dr_events := filter (\<lambda>(c, ev). c \<notin> set stale) (dr_events r)\<rparr>))"

definition dnp3_close :: "'m dnp3_reader \<Rightarrow> 'm dnp3_reader" where
  "dnp3_close r = r\<lparr>dr_sessions := []\<rparr>"

definition dnp3_live :: "'m dnp3_reader \<Rightarrow> string set" where
  "dnp3_live r = set (map fst (dr_sessions r))"

section \<open>The reader contract\<close>

text \<open>Every way of reading answers one value per signal, of a quality the reader passes on.\<close>

definition batch_ok :: "signal_config list \<Rightarrow> batch \<Rightarrow> bool" where
  "batch_ok ss out \<longleftrightarrow> length out = length ss \<and> snd ` set out \<subseteq> set qualities"

lemma batch_ok_map: "(\<And>s. s \<in> set ss \<Longrightarrow> snd (f s) \<in> set qualities) \<Longrightarrow> batch_ok ss (map f ss)"
  by (auto simp: batch_ok_def)

lemma known_qualities: "''good'' \<in> set qualities" "''no_change'' \<in> set qualities" "''invalid'' \<in> set qualities"
  by (simp_all add: qualities_def)

lemma answer_qualities:
  "snd (direct_answer c s) \<in> set qualities" "snd (materialize f ch c s) \<in> set qualities"
  by (auto simp: direct_answer_def materialize_def qualities_def split: option.splits)

lemma read_batch_direct_ok: "read_batch_direct e opts ss m = (Inr out, m') \<Longrightarrow> batch_ok ss out"
  by (auto simp: read_batch_direct_def answer_qualities intro!: batch_ok_map split: prod.splits option.splits)

lemma read_event_driven_ok: "read_event_driven e opts ss ev m = (Inr out, x) \<Longrightarrow> batch_ok ss out"
  by (auto simp: read_event_driven_def answer_qualities known_qualities intro!: batch_ok_map
      split: prod.splits option.splits if_splits)

lemma batch_from_poll_ok: "batch_from_poll e p ss m = (Inr out, m') \<Longrightarrow> batch_ok ss out"
proof (induction ss arbitrary: m out)
  case (Cons s ss)
  then show ?case
    by (fastforce simp: batch_ok_def known_qualities split: prod.splits sum.splits if_splits)
qed (simp add: batch_ok_def)

lemma read_polled_ok: "read_polled e opts ss m = (Inr out, x) \<Longrightarrow> batch_ok ss out"
  by (auto simp: read_polled_def known_qualities intro!: batch_ok_map dest: batch_from_poll_ok
      split: prod.splits option.splits sum.splits)

lemma read_batch_ok: "read_batch e opts ss ev s = (Inr out, x) \<Longrightarrow> batch_ok ss out"
  by (auto simp: read_batch_def batch_ok_def [of _ "[]"]
      dest: read_batch_direct_ok read_event_driven_ok read_polled_ok
      split: option.splits read_strategy.splits prod.splits if_splits)

lemma batch_reading_keys:
  "sr_key (batch_reading s x) = s_key s" "sr_source (batch_reading s x) = s_source s"
  "sr_type (batch_reading s x) = s_type s" "sr_quality (batch_reading s x) = snd x"
  by (auto simp: batch_reading_def split: prod.splits)

lemma batch_answers: "length out = length ss \<Longrightarrow> snd ` set out \<subseteq> set qualities \<Longrightarrow>
  answers ss (map (\<lambda>(s, x). batch_reading s x) (zip ss out))"
proof (induction ss out rule: list_induct2')
  case (4 s ss x out)
  then show ?case by (simp add: answers_Cons batch_reading_keys)
qed auto

lemma dnp3_answers: "dnp3_read e d ss r = (Inr rs, r') \<Longrightarrow> answers ss rs"
proof -
  assume a: "dnp3_read e d ss r = (Inr rs, r')"
  obtain s r1 where g: "get_session e d r = (Inr s, r1)"
    using a by (cases "get_session e d r"; cases "fst (get_session e d r)") (auto simp: dnp3_read_def)
  obtain res ev s1 where b: "read_batch e (dr_opts r) ss (event_cache_of (d_code d) r1) s = (res, ev, s1)"
    by (metis prod_cases3)
  show "answers ss rs"
  proof (cases res)
    case (Inl x)
    then have "rs = map (\<lambda>s. blank_reading s ''no_change'') ss"
      using a g b by (auto simp: dnp3_read_def Let_def split: if_splits)
    then show ?thesis by (simp add: answers_map qualities_def)
  next
    case (Inr out)
    then have "batch_ok ss out" using read_batch_ok b by metis
    moreover from this have "rs = map (\<lambda>(s, x). batch_reading s x) (zip ss out)"
      using a g b Inr by (auto simp: dnp3_read_def Let_def batch_ok_def)
    ultimately show ?thesis using batch_answers by (auto simp: batch_ok_def)
  qed
qed

lemma dnp3_live_sessions: "dnp3_live r = fst ` set (dr_sessions r)"
  by (simp add: dnp3_live_def)

lemma delete_dom: "fst ` set (AList.delete k xs) = fst ` set xs - {k}"
  by (auto simp: AList.delete_eq)

lemma live_changes [simp]:
  "dnp3_live (r\<lparr>dr_sessions := AList.update k v xs\<rparr>) = insert k (fst ` set xs)"
  "dnp3_live (r\<lparr>dr_events := evs\<rparr>) = dnp3_live r"
  "dnp3_live (evict k r) = dnp3_live r - {k}"
  by (auto simp: dnp3_live_def dom_update evict_def delete_keys)

lemma drop_changed_live: "dnp3_live (drop_changed d r) \<subseteq> dnp3_live r"
  by (auto simp: drop_changed_def split: option.splits)

lemma get_session_live:
  assumes "get_session e d r = (x, r')"
  shows "dnp3_live r' \<subseteq> insert (d_code d) (dnp3_live r)"
proof -
  have "dr_sessions r' = dr_sessions (drop_changed d r) \<or>
      (\<exists>s. dr_sessions r' = AList.update (d_code d) s (dr_sessions (drop_changed d r)))"
    using assms by (auto simp: get_session_def Let_def split: option.splits prod.splits sum.splits)
  then have "dnp3_live r' \<subseteq> insert (d_code d) (dnp3_live (drop_changed d r))"
    by (elim disjE exE) (simp_all add: dnp3_live_sessions dom_update subset_insertI)
  then show ?thesis using drop_changed_live [of d r] by auto
qed

lemma dnp3_read_live:
  assumes "dnp3_read e d ss r = (x, r')"
  shows "dnp3_live r' \<subseteq> insert (d_code d) (dnp3_live r)"
proof -
  obtain y r1 where g: "get_session e d r = (y, r1)" by fastforce
  have "r' = r1 \<or> (\<exists>s xs. dr_sessions r' = xs \<and> (xs = AList.update (d_code d) s (dr_sessions r1) \<or>
      xs = AList.delete (d_code d) (AList.update (d_code d) s (dr_sessions r1))))"
    using assms g by (auto simp: dnp3_read_def Let_def evict_def split: prod.splits sum.splits if_splits)
  then have "dnp3_live r' \<subseteq> insert (d_code d) (dnp3_live r1)"
    by (elim disjE exE conjE) (auto simp add: dnp3_live_sessions dom_update delete_dom simp del: set_map)
  then show ?thesis using get_session_live [OF g] by auto
qed

lemma dnp3_forget_live: "dnp3_forget act r = (n, r') \<Longrightarrow> dnp3_live r' = dnp3_live r \<inter> act"
  by (force simp: dnp3_forget_def dnp3_live_def Let_def)

interpretation dnp3: telemetry_reader dnp3_read dnp3_forget dnp3_live
  by unfold_locales (simp_all add: dnp3_answers dnp3_read_live dnp3_forget_live)


section \<open>Sessions follow the configuration\<close>

text \<open>No way of reading changes a session's endpoint.\<close>

lemma read_batch_endpoint:
  assumes "read_batch e opts ss ev s = (res, ev', s')"
  shows "session_fingerprint s' = session_fingerprint s"
  using assms
  by (auto simp: read_batch_def session_fingerprint_def
      split: option.splits read_strategy.splits prod.splits if_splits)

lemma session_connect_endpoint:
  "session_connect e opts s = (x, s') \<Longrightarrow> session_fingerprint s' = session_fingerprint s"
  by (auto simp: session_connect_def session_fingerprint_def Let_def split: option.splits sum.splits)

lemma wanted_drop [simp]: "wanted d (drop_changed d r) = wanted d r"
  by (simp add: drop_changed_def wanted_def evict_def split: option.splits)

lemma get_session_endpoint:
  assumes "get_session e d r = (x, r1)"
  shows "map_of (dr_sessions r1) (d_code d) = Some s \<Longrightarrow> session_fingerprint s = wanted d r"
    and "x = Inr t \<Longrightarrow> session_fingerprint t = wanted d r"
proof -
  have old: "session_fingerprint s = wanted d r" if "map_of (dr_sessions (drop_changed d r)) (d_code d) = Some s" for s
    using that by (auto simp: drop_changed_def evict_def delete_conv' split: option.splits if_splits)
  have new: "session_fingerprint (session_init d (resolve_local_address d (dr_local r)) (resolve_tcp_port d (dr_port r)))
      = wanted d r"
    by (simp add: session_fingerprint_def session_init_def wanted_def)
  show "map_of (dr_sessions r1) (d_code d) = Some s \<Longrightarrow> session_fingerprint s = wanted d r"
    "x = Inr t \<Longrightarrow> session_fingerprint t = wanted d r"
    using assms new
    by (auto simp: get_session_def Let_def update_conv' split: option.splits prod.splits sum.splits
        dest: old session_connect_endpoint)
qed

text \<open>C20: A session always belongs to the endpoint the configuration names: after any read of a device, a
  session kept for its code has the code, address, port, DNP3 address and master address of the device as
  configured now, so that a changed address reconnects.\<close>

theorem session_matches_config:
  assumes "dnp3_read e d ss r = (x, r')" and "map_of (dr_sessions r') (d_code d) = Some s"
  shows "session_fingerprint s = wanted d r"
proof -
  obtain y r1 where g: "get_session e d r = (y, r1)" by fastforce
  show ?thesis
  proof (cases y)
    case (Inl z)
    then show ?thesis using assms g get_session_endpoint(1) [OF g] by (simp add: dnp3_read_def)
  next
    case (Inr t)
    obtain res ev t1 where b: "read_batch e (dr_opts r) ss (event_cache_of (d_code d) r1) t = (res, ev, t1)"
      by (metis prod_cases3)
    have "dr_sessions r' = AList.update (d_code d) t1 (dr_sessions r1) \<or>
        dr_sessions r' = AList.delete (d_code d) (AList.update (d_code d) t1 (dr_sessions r1))"
      using assms(1) g b Inr by (auto simp: dnp3_read_def Let_def evict_def split: sum.splits if_splits)
    then have "s = t1" using assms(2) by (auto simp: update_conv' delete_conv')
    then show ?thesis using read_batch_endpoint [OF b] get_session_endpoint(2) [OF g Inr] by simp
  qed
qed

lemma normalize_event_driven: "normalize_read_strategy ''event_driven'' = Rs_Event_Driven"
  by code_simp

definition sample_dnp3_reader :: "bool dnp3_reader" where
  "sample_dnp3_reader = (dnp3_init 1 20000 (dnp3_opts_init ''event_driven'' 24 4 False True 7 60))
     \<lparr>dr_events := [(''D1'', sample_ev)]\<rparr>"

theorem session_matches_config_witness:
  "(case map_of (dr_sessions (snd (dnp3_read (sample_dnp3 100 (Inr True)) sample_device [] sample_dnp3_reader))) ''D1'' of
      Some s \<Rightarrow> session_fingerprint s = wanted sample_device sample_dnp3_reader | None \<Rightarrow> False)"
proof -
  have "map_of (dr_sessions (snd (dnp3_read (sample_dnp3 100 (Inr True)) sample_device [] sample_dnp3_reader)))
      (d_code sample_device) \<noteq> None" and c: "d_code sample_device = ''D1''"
    by (simp_all add: dnp3_read_def get_session_def drop_changed_def sample_dnp3_reader_def dnp3_init_def
        session_connect_def session_init_def sample_dnp3_def dnp3_opts_init_def should_disable_def
        normalize_event_driven read_batch_def master_connected_def update_conv' Let_def sample_device_def default_device_def)
  then show ?thesis
    using session_matches_config [OF surjective_pairing, of "sample_dnp3 100 (Inr True)" sample_device "[]"
        sample_dnp3_reader] by (auto simp: c split: option.split)
qed

text \<open>C37: The values of a device outlive it: \<open>forget_devices\<close> drops the cached values of a device only along
  with an open session. When a device whose session had been dropped is removed from the configuration,
  and its code comes back with another address whose connection fails right after it opened, the old
  device's values are reported as good values of the new one.\<close>

theorem old_values_for_new_device:
  assumes "d_code d \<notin> dnp3_live r" and "event_cache_of (d_code d) r = ev" and "ev_values ev \<noteq> []"
    and "snd (dnp3_forget act r) = r1" and "do_strategy (dr_opts r) = Rs_Event_Driven"
    and "de_open e = Inr m" and "\<forall>m. \<not> de_up e m"
    and "of_int (do_baseline_interval (dr_opts r)) \<le> de_now e - ev_baseline ev"
    and "s \<in> set ss" and "s_group s \<noteq> 110" and "map_of (ev_values ev) (point_of s) = Some v"
  shows "\<exists>rs. fst (dnp3_read e d ss r1) = Inr rs \<and> value_reading s v None 4 \<in> set rs"
proof -
  have n: "map_of (dr_sessions r1) (d_code d) = None"
    using assms(1,4) by (force simp: dnp3_forget_def dnp3_live_def Let_def map_of_eq_None_iff)
  have keep: "map_of (filter (\<lambda>(c, ev). c \<notin> set (filter (\<lambda>c. c \<notin> act) (map fst (dr_sessions r)))) (dr_events r)) (d_code d)
      = map_of (dr_events r) (d_code d)"
    using assms(1) by (subst map_of_filter_key) (simp add: dnp3_live_def image_iff)
  then have e1: "event_cache_of (d_code d) r1 = ev" "dr_opts r1 = dr_opts r"
    using assms(2,4) by (auto simp: event_cache_of_def dnp3_forget_def Let_def)
  have ss: "ss \<noteq> []" using assms(9) by auto
  obtain t r2 m' where g: "get_session e d r1 = (Inr t, r2)" and t: "se_master t = Some m'"
    and r2: "event_cache_of (d_code d) r2 = ev" "dr_opts r2 = dr_opts r"
    using n e1 assms(6)
    by (auto simp: get_session_def drop_changed_def session_connect_def session_init_def Let_def
        event_cache_of_def update_conv')
  have "read_event_driven e (dr_opts r) ss ev m' =
      (Inr (map (materialize True {} (ev_values ev)) ss), ev\<lparr>ev_baseline := de_now e\<rparr>, Some m')"
    by (rule stale_baseline) (use assms in auto)
  then have b: "read_batch e (dr_opts r) ss ev t =
      (Inr (map (materialize True {} (ev_values ev)) ss), ev\<lparr>ev_baseline := de_now e\<rparr>, t\<lparr>se_master := Some m'\<rparr>)"
    using t ss assms(5) by (simp add: read_batch_def)
  have "fst (dnp3_read e d ss r1) =
      Inr (map (\<lambda>(s, x). batch_reading s x) (zip ss (map (materialize True {} (ev_values ev)) ss)))"
    using g b r2(1) e1(2) by (simp add: dnp3_read_def Let_def)
  moreover have "batch_reading s (materialize True {} (ev_values ev) s) = value_reading s v None 4"
    using assms(10,11) by (simp add: batch_reading_def materialize_def value_reading_def)
  ultimately show ?thesis using assms(9) by (force simp: zip_map2 zip_same_conv_map)
qed

text \<open>The code comes back at another address.\<close>

theorem old_values_for_new_device_witness:
  "\<exists>rs. fst (dnp3_read ((sample_dnp3 100 (Inr True))\<lparr>de_up := (\<lambda>m. False)\<rparr>) (sample_device\<lparr>d_ip := ''10.0.0.99''\<rparr>)
     [analog 0] (snd (dnp3_forget {} sample_dnp3_reader))) = Inr rs \<and> value_reading (analog 0) (Fin 5) None 4 \<in> set rs"
  by (rule old_values_for_new_device [OF _ refl _ refl, where m = True])
    (simp_all add: sample_dnp3_reader_def dnp3_init_def dnp3_live_def event_cache_of_def sample_device_def
      default_device_def
      sample_ev_def dnp3_opts_init_def normalize_event_driven sample_dnp3_def analog_def point_of_def)

end
