(* ===== verification/Retrier.thy ===== *)
theory Retrier
  imports Resilient
begin

text \<open>
  \<open>messaging/outbox.py\<close>, class \<open>OutboxRetrier\<close>: the thread that sends the rows of the outbox again.
  \<open>retry_row\<close> is one turn of the \<open>for\<close> loop, \<open>retry_rows\<close> the loop, \<open>retrier_cycle\<close> one turn of
  \<open>_run\<close> and \<open>retrier_run\<close> the thread. Only the fetch and the publish are guarded: an exception of
  \<open>delete\<close>, \<open>mark_retry\<close> or \<open>move_to_dead_letter\<close> leaves \<open>_run\<close> and ends the thread. The pauses are
  exact rational seconds; a jitter draw is an argument.
\<close>

section \<open>State\<close>

record retrier =
  rt_poll_interval :: rat
  rt_batch_size :: int
  rt_max_retries :: int
  rt_min_backoff :: rat
  rt_max_backoff :: rat
  rt_multiplier :: rat
  rt_current :: rat
  rt_thread :: bool  \<comment> \<open>\<open>_thread is not None\<close>\<close>
  rt_alive :: bool   \<comment> \<open>the thread runs\<close>

definition retrier_init :: "rat \<Rightarrow> int \<Rightarrow> int \<Rightarrow> rat \<Rightarrow> rat \<Rightarrow> rat \<Rightarrow> retrier" where
  "retrier_init poll batch retries bmin bmax factor =
     \<lparr>rt_poll_interval = max (1/2) poll, rt_batch_size = max 1 batch,
      rt_max_retries = max 1 retries, rt_min_backoff = max (1/10) bmin,
      rt_max_backoff = max (max (1/10) bmin) bmax, rt_multiplier = max (21/20) factor,
      rt_current = max (1/10) bmin, rt_thread = False, rt_alive = False\<rparr>"

text \<open>\<open>start\<close> starts the thread once; a thread that ended is not started again.\<close>

definition retrier_start :: "retrier \<Rightarrow> retrier" where
  "retrier_start rt = (if rt_thread rt then rt else rt\<lparr>rt_thread := True, rt_alive := True\<rparr>)"

text \<open>\<open>_next_backoff\<close> with the jitter draw \<open>u\<close>, and \<open>_reset_backoff\<close>.\<close>

definition next_backoff :: "rat \<Rightarrow> retrier \<Rightarrow> rat \<times> retrier" where
  "next_backoff u rt =
     (max (1/10) (rt_current rt * (1 + u)),
      rt\<lparr>rt_current := min (rt_max_backoff rt) (rt_current rt * rt_multiplier rt)\<rparr>)"

definition reset_backoff :: "retrier \<Rightarrow> retrier" where
  "reset_backoff rt = rt\<lparr>rt_current := rt_min_backoff rt\<rparr>"

section \<open>The batch loop\<close>

definition is_not_ready :: "pyexc \<Rightarrow> bool" where
  "is_not_ready x \<longleftrightarrow>
     exc_class x = ''JetStreamNotReadyError'' \<or> py_in ''not ready'' (py_lower (exc_text x))"

record 'be row_env =
  re_stop :: bool
  re_pub :: "('be, db_env) pub_env"
  re_db :: db_env

datatype row_outcome =
    RowStop               \<comment> \<open>\<open>_stop\<close> was set: leave the loop\<close>
  | RowSent               \<comment> \<open>published and deleted\<close>
  | RowBuried bool        \<comment> \<open>dead-lettered (or gone already): go on\<close>
  | RowNotReady           \<comment> \<open>transient: leave the loop\<close>
  | RowRetryLater         \<comment> \<open>counted a failure: leave the loop\<close>
  | RowRaised pyexc       \<comment> \<open>an exception nobody catches\<close>

type_synonym ('b, 'be) row_pub = "'be \<Rightarrow> msg \<Rightarrow> 'b \<Rightarrow> unit res \<times> 'b"

definition retry_row ::
  "('b, 'be) row_pub \<Rightarrow> int \<Rightarrow> 'be row_env \<Rightarrow> row \<Rightarrow> ('b, outbox) pub_sys \<Rightarrow>
   row_outcome \<times> ('b, outbox) pub_sys" where
  "retry_row bpub maxr e r sys =
     (if re_stop e then (RowStop, sys)
      else case publish_outbox_row bpub (re_pub e) (row_msg r) sys of
        (Inr _, sys1) \<Rightarrow> (case store_del (re_db e) (row_id r) (ps_store sys1) of
            (Inl x, ob) \<Rightarrow> (RowRaised x, sys1\<lparr>ps_store := ob\<rparr>)
          | (Inr _, ob) \<Rightarrow> (RowSent, sys1\<lparr>ps_store := ob\<rparr>))
      | (Inl x, sys1) \<Rightarrow>
          if is_not_ready x then (RowNotReady, sys1)
          else if int (row_retry r) + 1 \<ge> maxr then
            (case store_kill (re_db e) (row_id r) (exc_text x) (ps_store sys1) of
               (Inl y, ob) \<Rightarrow> (RowRaised y, sys1\<lparr>ps_store := ob\<rparr>)
             | (Inr moved, ob) \<Rightarrow> (RowBuried moved, sys1\<lparr>ps_store := ob\<rparr>))
          else
            (case store_mark (re_db e) (row_id r) (exc_text x) (ps_store sys1) of
               (Inl y, ob) \<Rightarrow> (RowRaised y, sys1\<lparr>ps_store := ob\<rparr>)
             | (Inr _, ob) \<Rightarrow> (RowRetryLater, sys1\<lparr>ps_store := ob\<rparr>)))"

text \<open>How the loop ended: \<open>sent\<close> and \<open>failed_in_batch\<close>, or an exception that leaves \<open>_run\<close>.\<close>

datatype batch_end = BatchDone nat | BatchFailed nat | BatchRaised pyexc

fun count_sent :: "batch_end \<Rightarrow> batch_end" where
  "count_sent (BatchDone n) = BatchDone (Suc n)"
| "count_sent (BatchFailed n) = BatchFailed (Suc n)"
| "count_sent (BatchRaised x) = BatchRaised x"

fun retry_rows ::
  "('b, 'be) row_pub \<Rightarrow> int \<Rightarrow> (int \<Rightarrow> 'be row_env) \<Rightarrow> row list \<Rightarrow> ('b, outbox) pub_sys \<Rightarrow>
   batch_end \<times> ('b, outbox) pub_sys" where
  "retry_rows bpub maxr env [] sys = (BatchDone 0, sys)"
| "retry_rows bpub maxr env (r # rs) sys =
     (case retry_row bpub maxr (env (row_id r)) r sys of
        (RowStop, sys1) \<Rightarrow> (BatchDone 0, sys1)
      | (RowSent, sys1) \<Rightarrow>
          (case retry_rows bpub maxr env rs sys1 of (b, sys2) \<Rightarrow> (count_sent b, sys2))
      | (RowBuried _, sys1) \<Rightarrow> retry_rows bpub maxr env rs sys1
      | (RowNotReady, sys1) \<Rightarrow> (BatchFailed 0, sys1)
      | (RowRetryLater, sys1) \<Rightarrow> (BatchFailed 0, sys1)
      | (RowRaised x, sys1) \<Rightarrow> (BatchRaised x, sys1))"

section \<open>The thread\<close>

record 'be cycle_env =
  ce_stop :: bool               \<comment> \<open>\<open>_stop\<close> is set when the turn begins\<close>
  ce_fetch :: db_fault
  ce_jitter :: rat
  ce_rows :: "int \<Rightarrow> 'be row_env"

text \<open>One turn of \<open>while\<close>: the pause it ends with (none when the thread ends) and the new state.\<close>

definition retrier_cycle ::
  "('b, 'be) row_pub \<Rightarrow> 'be cycle_env \<Rightarrow> retrier \<times> ('b, outbox) pub_sys \<Rightarrow>
   rat option \<times> (retrier \<times> ('b, outbox) pub_sys)" where
  "retrier_cycle bpub e st = (case st of (rt, sys) \<Rightarrow>
     if \<not> rt_alive rt then (None, st)
     else if ce_stop e then (None, (rt\<lparr>rt_alive := False\<rparr>, sys))
     else case fetch_batch (ce_fetch e) (rt_batch_size rt) (ps_store sys) of
       Inl _ \<Rightarrow> (Some (rt_poll_interval rt), (rt, sys))
     | Inr [] \<Rightarrow> (Some (rt_poll_interval rt), (reset_backoff rt, sys))
     | Inr (r # rs) \<Rightarrow>
         (case retry_rows bpub (rt_max_retries rt) (ce_rows e) (r # rs) sys of
            (BatchRaised _, sys1) \<Rightarrow> (None, (rt\<lparr>rt_alive := False\<rparr>, sys1))
          | (BatchFailed _, sys1) \<Rightarrow>
              (case next_backoff (ce_jitter e) rt of (w, rt1) \<Rightarrow> (Some w, (rt1, sys1)))
          | (BatchDone _, sys1) \<Rightarrow> (Some (rt_poll_interval rt), (reset_backoff rt, sys1))))"

definition retrier_run ::
  "('b, 'be) row_pub \<Rightarrow> 'be cycle_env list \<Rightarrow> retrier \<times> ('b, outbox) pub_sys \<Rightarrow>
   retrier \<times> ('b, outbox) pub_sys" where
  "retrier_run bpub es st = fold (\<lambda>e s. snd (retrier_cycle bpub e s)) es st"


named_theorems rt_defs \<open>the operations of the retrier\<close>

declare next_backoff_def [rt_defs] reset_backoff_def [rt_defs] retry_row_def [rt_defs]
  retrier_cycle_def [rt_defs]

lemma retrier_run_simps [simp]:
  "retrier_run bpub [] st = st"
  "retrier_run bpub (e # es) st = retrier_run bpub es (snd (retrier_cycle bpub e st))"
  by (simp_all add: retrier_run_def)

lemma dead_thread_cycle: "\<not> rt_alive rt \<Longrightarrow> retrier_cycle bpub e (rt, sys) = (None, (rt, sys))"
  by (simp add: retrier_cycle_def)

lemma dead_thread_run: "\<not> rt_alive rt \<Longrightarrow> retrier_run bpub es (rt, sys) = (rt, sys)"
  by (induction es) (simp_all add: dead_thread_cycle)

definition sample_retrier :: retrier where
  "sample_retrier = retrier_start (retrier_init 2 100 3 1 60 (3/2))"

definition sample_row_env :: "js_reply \<Rightarrow> js_reply row_env" where
  "sample_row_env b = \<lparr>re_stop = False, re_pub = sample_env b DbOk, re_db = (DbOk, 9)\<rparr>"

definition sample_cycle :: "js_reply \<Rightarrow> js_reply cycle_env" where
  "sample_cycle b = \<lparr>ce_stop = False, ce_fetch = DbOk, ce_jitter = 0, ce_rows = (\<lambda>i. sample_row_env b)\<rparr>"

lemma sample_retrier_simps [simp]:
  "rt_alive sample_retrier" "rt_thread sample_retrier" "rt_batch_size sample_retrier = 100"
  "rt_max_retries sample_retrier = 3"
  by (simp_all add: sample_retrier_def retrier_start_def retrier_init_def)

lemma sample_rows: "t_rows (disk sample_stored) = [mk_row 1 7 sample_msg None]"
  "t_dead (disk sample_stored) = []"
  by (simp_all add: sample_stored_def sample_outbox_def enqueue_def outbox_init_def db_write_def
      empty_tables_def insert_row_def Let_def)

section \<open>Back-off\<close>

lemma le_times_ge_one: "0 \<le> a \<Longrightarrow> 1 \<le> k \<Longrightarrow> a \<le> a * k" for a k :: rat
  using mult_left_mono [of 1 k a] by simp

definition rt_ok :: "retrier \<Rightarrow> bool" where
  "rt_ok rt \<longleftrightarrow> 1/10 \<le> rt_min_backoff rt \<and> rt_min_backoff rt \<le> rt_current rt \<and>
     rt_current rt \<le> rt_max_backoff rt \<and> 21/20 \<le> rt_multiplier rt \<and> 1 \<le> rt_max_retries rt \<and>
     1 \<le> rt_batch_size rt \<and> 1/2 \<le> rt_poll_interval rt"

lemma rt_ok_init [simp]: "rt_ok (retrier_init p b r mn mx k)"
  by (simp add: rt_ok_def retrier_init_def)

lemma rt_ok_reset [simp]: "rt_ok rt \<Longrightarrow> rt_ok (reset_backoff rt)"
  by (simp add: rt_ok_def rt_defs)

lemma rt_ok_next: "rt_ok rt \<Longrightarrow> rt_ok (snd (next_backoff u rt))"
proof -
  assume ok: "rt_ok rt"
  then have "0 \<le> rt_current rt" "1 \<le> rt_multiplier rt" by (auto simp: rt_ok_def)
  then have "rt_current rt \<le> rt_current rt * rt_multiplier rt"
    by (rule le_times_ge_one)
  with ok have "rt_min_backoff rt \<le> rt_current rt * rt_multiplier rt"
    unfolding rt_ok_def by linarith
  with ok show ?thesis by (auto simp: rt_ok_def rt_defs)
qed

lemma next_backoff_frame [simp]:
  "rt_min_backoff (snd (next_backoff u rt)) = rt_min_backoff rt"
  "rt_max_backoff (snd (next_backoff u rt)) = rt_max_backoff rt"
  "rt_multiplier (snd (next_backoff u rt)) = rt_multiplier rt"
  by (simp_all add: rt_defs)

definition backoffs :: "rat list \<Rightarrow> retrier \<Rightarrow> retrier" where
  "backoffs us rt = fold (\<lambda>u rt. snd (next_backoff u rt)) us rt"

lemma backoffs_frame:
  "rt_max_backoff (backoffs us rt) = rt_max_backoff rt \<and> rt_multiplier (backoffs us rt) = rt_multiplier rt"
  by (induction us arbitrary: rt) (simp_all add: backoffs_def)

lemma backoffs_current:
  assumes "rt_ok rt"
  shows "rt_current (backoffs us rt) = min (rt_max_backoff rt) (rt_current rt * rt_multiplier rt ^ length us)"
  using assms
proof (induction us arbitrary: rt)
  case Nil
  then show ?case by (auto simp: backoffs_def rt_ok_def)
next
  case (Cons u us)
  let ?rt = "snd (next_backoff u rt)" and ?k = "rt_multiplier rt" and ?M = "rt_max_backoff rt"
  have k: "1 \<le> ?k ^ length us" "0 \<le> ?M"
    using Cons.prems by (auto simp: rt_ok_def)
  then have M: "?M \<le> ?M * ?k ^ length us" by (intro le_times_ge_one)
  have "?M * ?k ^ length us \<le> (rt_current rt * ?k) * ?k ^ length us" if "?M \<le> rt_current rt * ?k"
    using k that by (intro mult_right_mono) auto
  with M have cap: "?M \<le> rt_current rt * (?k * ?k ^ length us)" if "?M \<le> rt_current rt * ?k"
    using that by (simp add: mult.assoc)
  have "rt_current (backoffs (u # us) rt) = min ?M (rt_current ?rt * ?k ^ length us)"
    using Cons.IH [OF rt_ok_next [OF Cons.prems, of u]] by (simp add: backoffs_def)
  also have "rt_current ?rt = min ?M (rt_current rt * ?k)"
    by (simp add: rt_defs)
  also have "min ?M (min ?M (rt_current rt * ?k) * ?k ^ length us)
      = min ?M (rt_current rt * ?k ^ length (u # us))"
    using M cap by (auto simp: min_def mult.assoc)
  finally show ?case .
qed

text \<open>The pauses of the retrier: after \<open>n\<close> failed turns in a row the pause is \<open>min_backoff\<close> times
  the multiplier to the \<open>n\<close>, cut at \<open>max_backoff\<close>, within a fifth of that either way, and never below
  a tenth of a second, whatever the constructor was given.\<close>

theorem backoff_schedule:
  assumes "rt = retrier_init poll batch retries bmin bmax factor" and "\<bar>u\<bar> \<le> 1/5"
    and "b = min (rt_max_backoff rt) (rt_min_backoff rt * rt_multiplier rt ^ length us)"
    and "w = fst (next_backoff u (backoffs us (reset_backoff rt)))"
  shows "4/5 * b \<le> w \<and> w \<le> 6/5 * b \<and> 1/10 \<le> w \<and> b \<le> max (max (1/10) bmin) bmax"
proof -
  have ok: "rt_ok rt" using assms(1) by simp
  have "rt_current (backoffs us (reset_backoff rt)) = b"
    using backoffs_current [OF rt_ok_reset [OF ok], of us] assms(3) by (simp add: rt_defs)
  then have w: "w = max (1/10) (b * (1 + u))"
    using assms(4) by (simp add: rt_defs)
  have k: "1 \<le> rt_multiplier rt ^ length us" "1/10 \<le> rt_min_backoff rt"
    "rt_min_backoff rt \<le> rt_max_backoff rt"
    using ok by (auto simp: rt_ok_def)
  then have "rt_min_backoff rt \<le> rt_min_backoff rt * rt_multiplier rt ^ length us"
    by (intro le_times_ge_one) auto
  with k(2,3) have "1/10 \<le> rt_min_backoff rt * rt_multiplier rt ^ length us"
      "1/10 \<le> rt_max_backoff rt"
    by linarith+
  then have b: "1/10 \<le> b" unfolding assms(3) by (rule min.boundedI [rotated])
  then have b0: "0 \<le> b" by simp
  have u: "4/5 \<le> 1 + u" "1 + u \<le> 6/5" using assms(2) by linarith+
  have bs: "b * (4/5) \<le> b * (1 + u)" "b * (1 + u) \<le> b * (6/5)"
    using mult_left_mono [OF u(1) b0] mult_left_mono [OF u(2) b0] .
  have "b \<le> rt_max_backoff rt" unfolding assms(3) by simp
  then have "b \<le> max (max (1/10) bmin) bmax" using assms(1) by (simp add: retrier_init_def)
  moreover have "4/5 * b \<le> w" "1/10 \<le> w" "w \<le> 6/5 * b"
    using bs b unfolding w by linarith+
  ultimately show ?thesis by blast
qed


theorem backoff_schedule_witness:
  "fst (next_backoff (1/5) (backoffs [0, 0] (reset_backoff (retrier_init 2 100 1000 1 60 (3/2))))) \<le> 27/10"
  using backoff_schedule [OF refl _ refl refl, of "1/5" 2 100 1000 1 60 "3/2" "[0, 0]"]
  by (simp add: retrier_init_def power2_eq_square)

section \<open>An outage\<close>

definition js_down :: "(jetstream, outbox) pub_sys \<Rightarrow> bool" where
  "js_down sys \<longleftrightarrow> \<not> js_is_ready (ps_broker sys)"

lemma retry_row_down:
  assumes "js_down sys" "retry_row js_publish maxr e r sys = (oc, sys')"
  shows "(oc = RowStop \<or> oc = RowNotReady) \<and> js_down sys' \<and> ps_store sys' = ps_store sys \<and>
    js_stored (ps_broker sys') = js_stored (ps_broker sys) \<and> ps_rp sys' = ps_rp sys"
  using assms
  by (auto simp: retry_row_def js_down_def js_is_ready_def publish_outbox_row_def js_publish_def
      is_not_ready_def not_ready_error_def split: if_splits)

lemma retry_rows_down:
  assumes "js_down sys" "retry_rows js_publish maxr env rs sys = (b, sys')"
  shows "(b = BatchDone 0 \<or> b = BatchFailed 0) \<and> js_down sys' \<and> ps_store sys' = ps_store sys \<and>
    js_stored (ps_broker sys') = js_stored (ps_broker sys) \<and> ps_rp sys' = ps_rp sys"
proof (cases rs)
  case (Cons r rs')
  obtain oc s where oc: "retry_row js_publish maxr (env (row_id r)) r sys = (oc, s)" by fastforce
  show ?thesis
    using retry_row_down [OF assms(1) oc] assms(2) oc Cons by auto
qed (use assms in auto)

lemma retrier_cycle_down:
  assumes "js_down sys" "retrier_cycle js_publish e (rt, sys) = (w, (rt', sys'))"
  shows "js_down sys' \<and> ps_store sys' = ps_store sys \<and> js_stored (ps_broker sys') = js_stored (ps_broker sys)
    \<and> (rt_alive rt \<and> \<not> ce_stop e \<longrightarrow> rt_alive rt')"
  using assms
  by (auto simp: retrier_cycle_def reset_backoff_def next_backoff_def
      dest: retry_rows_down [OF assms(1)] simp del: retry_rows.simps
      split: if_splits sum.splits list.splits prod.splits batch_end.splits)

text \<open>C8: However long JetStream is away, the retrier leaves the outbox exactly as it is: no row is
  deleted, counted as failed or moved to the dead letters, nothing is sent, and the thread keeps
  running until it is told to stop.\<close>

theorem outage_keeps_outbox:
  assumes "\<not> js_is_ready (ps_broker sys)"
    and "retrier_run js_publish es (rt, sys) = (rt', sys')"
  shows "ps_store sys' = ps_store sys \<and> js_stored (ps_broker sys') = js_stored (ps_broker sys) \<and>
    (rt_alive rt \<and> \<not> list_ex ce_stop es \<longrightarrow> rt_alive rt')"
proof -
  have "js_down sys" using assms(1) by (simp add: js_down_def)
  then show ?thesis using assms(2)
  proof (induction es arbitrary: rt sys)
    case (Cons e es)
    obtain w rt1 sys1 where c: "retrier_cycle js_publish e (rt, sys) = (w, (rt1, sys1))"
      using prod_cases3 by blast
    show ?case
      using retrier_cycle_down [OF Cons.prems(1) c] Cons.IH [of sys1 rt1] Cons.prems(2) c by simp
  qed simp
qed

theorem outage_keeps_outbox_witness:
  "ps_store (snd (retrier_run js_publish [sample_cycle JsAck, sample_cycle JsAck]
     (sample_retrier, sample_sys\<lparr>ps_broker := js_on_disconnected sample_js\<rparr>))) = sample_stored"
  using outage_keeps_outbox [OF _ surjective_pairing, of "sample_sys\<lparr>ps_broker := js_on_disconnected sample_js\<rparr>"
      "[sample_cycle JsAck, sample_cycle JsAck]" sample_retrier]
  by (simp add: js_is_ready_def js_on_disconnected_def sample_sys_def del: retrier_run_simps)

section \<open>A healthy broker drains the outbox\<close>

definition healthy_row :: "js_reply row_env \<Rightarrow> bool" where
  "healthy_row e \<longleftrightarrow> \<not> re_stop e \<and> pe_broker (re_pub e) = JsAck \<and> fst (re_db e) = DbOk"

definition healthy_cycle :: "js_reply cycle_env \<Rightarrow> bool" where
  "healthy_cycle e \<longleftrightarrow> \<not> ce_stop e \<and> ce_fetch e = DbOk \<and> (\<forall>i. healthy_row (ce_rows e i))"

definition js_up :: "jetstream \<Rightarrow> bool" where
  "js_up js \<longleftrightarrow> js_ready js \<and> js_loop js \<and> js_js js"

definition js_msgs :: "jetstream \<Rightarrow> msg list" where
  "js_msgs js = map fst (js_stored js)"

definition row_out :: "row \<Rightarrow> msg" where
  "row_out r = norm_msg (row_msg r)"

lemma delete_head:
  assumes "ob_inv ob" "settled ob" "t_rows (disk ob) = r # rs"
  shows "\<exists>ob'. delete DbOk (row_id r) ob = (Inr (), ob') \<and> ob_inv ob' \<and> settled ob' \<and> t_rows (disk ob') = rs"
proof -
  obtain ob' where d: "delete DbOk (row_id r) ob = (Inr (), ob')"
    by (simp add: delete_def db_write_def Let_def)
  have "settled ob'" "disk ob' = delete_row (row_id r) (disk ob)"
    using delete_clean [OF _ assms(2) d] by auto
  moreover have "distinct (map row_id (t_rows (disk ob)))"
    using assms(1) by (auto simp: ob_inv_def tab_ok_def intro: sorted_wrt_less_distinct)
  then have "filter (\<lambda>q. row_id q \<noteq> row_id r) rs = rs"
    unfolding assms(3) by (intro filter_neq_id) simp
  ultimately show ?thesis
    using d delete_inv [OF assms(1) d] assms(3) by (auto simp: delete_row_def)
qed

lemma retry_row_healthy:
  assumes "healthy_row e" "js_up (ps_broker sys)" "ob_inv (ps_store sys)" "settled (ps_store sys)"
    "t_rows (disk (ps_store sys)) = r # rs"
  obtains sys' where "retry_row js_publish maxr e r sys = (RowSent, sys')" "js_up (ps_broker sys')"
    "ob_inv (ps_store sys')" "settled (ps_store sys')" "t_rows (disk (ps_store sys')) = rs"
    "js_msgs (ps_broker sys') = js_msgs (ps_broker sys) @ [row_out r]" "\<not> rp_outbox_full sys'"
proof -
  obtain ob' where ob': "delete DbOk (row_id r) (ps_store sys) = (Inr (), ob')" "ob_inv ob'" "settled ob'"
      "t_rows (disk ob') = rs"
    using delete_head [OF assms(3,4,5)] by blast
  obtain sys1 where p: "publish_outbox_row js_publish (re_pub e) (row_msg r) sys = (Inr (), sys1)"
      "ps_store sys1 = ps_store sys" "js_up (ps_broker sys1)" "\<not> rp_full (ps_rp sys1)"
      "js_msgs (ps_broker sys1) = js_msgs (ps_broker sys) @ [row_out r]"
    using assms(1,2)
    by (simp add: publish_outbox_row_def js_publish_def js_up_def healthy_row_def Let_def
        js_msgs_def row_out_def clear_outbox_full_def)
  let ?sys = "sys1\<lparr>ps_store := ob'\<rparr>"
  have "retry_row js_publish maxr e r sys = (RowSent, ?sys)"
    using assms(1) p ob' by (simp add: retry_row_def healthy_row_def store_del_def)
  then show thesis using that [of ?sys] p ob' by (simp add: rp_outbox_full_def)
qed

lemma retry_rows_healthy:
  assumes "\<forall>i. healthy_row (env i)" "js_up (ps_broker sys)" "ob_inv (ps_store sys)" "settled (ps_store sys)"
    "t_rows (disk (ps_store sys)) = rs @ qs"
  shows "\<exists>sys'. retry_rows js_publish maxr env rs sys = (BatchDone (length rs), sys') \<and> js_up (ps_broker sys') \<and>
    ob_inv (ps_store sys') \<and> settled (ps_store sys') \<and> t_rows (disk (ps_store sys')) = qs \<and>
    js_msgs (ps_broker sys') = js_msgs (ps_broker sys) @ map row_out rs"
  using assms(2-)
proof (induction rs arbitrary: sys)
  case (Cons r rs)
  have "t_rows (disk (ps_store sys)) = r # (rs @ qs)" using Cons.prems(4) by simp
  then obtain sys1 where s1: "retry_row js_publish maxr (env (row_id r)) r sys = (RowSent, sys1)"
      "js_up (ps_broker sys1)" "ob_inv (ps_store sys1)" "settled (ps_store sys1)"
      "t_rows (disk (ps_store sys1)) = rs @ qs"
      "js_msgs (ps_broker sys1) = js_msgs (ps_broker sys) @ [row_out r]"
    using assms(1) retry_row_healthy Cons.prems(1,2,3) by blast
  obtain sys2 where "retry_rows js_publish maxr env rs sys1 = (BatchDone (length rs), sys2) \<and>
     js_up (ps_broker sys2) \<and> ob_inv (ps_store sys2) \<and> settled (ps_store sys2) \<and>
     t_rows (disk (ps_store sys2)) = qs \<and>
     js_msgs (ps_broker sys2) = js_msgs (ps_broker sys1) @ map row_out rs"
    using Cons.IH [OF s1(2,3,4,5)] by blast
  then show ?case using s1 by (intro exI [of _ sys2]) simp
qed simp

lemma retrier_cycle_healthy:
  assumes "healthy_cycle e" "js_up (ps_broker sys)" "ob_inv (ps_store sys)" "settled (ps_store sys)"
    "rt_alive rt" "0 \<le> rt_batch_size rt"
  shows "\<exists>w sys'. retrier_cycle js_publish e (rt, sys) = (w, (reset_backoff rt, sys')) \<and>
    js_up (ps_broker sys') \<and> ob_inv (ps_store sys') \<and> settled (ps_store sys') \<and>
    t_rows (disk (ps_store sys')) = drop (nat (rt_batch_size rt)) (t_rows (disk (ps_store sys))) \<and>
    js_msgs (ps_broker sys') = js_msgs (ps_broker sys) @
      map row_out (take (nat (rt_batch_size rt)) (t_rows (disk (ps_store sys))))"
proof -
  let ?rs = "t_rows (disk (ps_store sys))" and ?n = "nat (rt_batch_size rt)"
  have "sort_key row_id ?rs = ?rs"
    using assms(3) by (intro sort_key_sorted_id) (simp add: ob_inv_def tab_ok_def)
  then have f: "fetch_batch (ce_fetch e) (rt_batch_size rt) (ps_store sys) = Inr (take ?n ?rs)"
    using assms(1,4,6) by (simp add: fetch_batch_def healthy_cycle_def settled_def)
  obtain sys' where s: "retry_rows js_publish (rt_max_retries rt) (ce_rows e) (take ?n ?rs) sys
       = (BatchDone (length (take ?n ?rs)), sys')"
     "js_up (ps_broker sys')" "ob_inv (ps_store sys')" "settled (ps_store sys')"
     "t_rows (disk (ps_store sys')) = drop ?n ?rs"
     "js_msgs (ps_broker sys') = js_msgs (ps_broker sys) @ map row_out (take ?n ?rs)"
    using retry_rows_healthy [of "ce_rows e" sys "take ?n ?rs" "drop ?n ?rs"] assms
    unfolding healthy_cycle_def by (metis append_take_drop_id)
  have "retrier_cycle js_publish e (rt, sys) = (Some (rt_poll_interval rt), (reset_backoff rt, sys'))"
    using assms(1,5) f s(1) by (cases "take ?n ?rs") (auto simp: retrier_cycle_def healthy_cycle_def)
  with s(2-) show ?thesis by blast
qed

text \<open>C7: Once the broker is back the outbox drains in order: after \<open>n\<close> healthy turns with batch size
  \<open>b\<close> the oldest \<open>n * b\<close> rows have been published, oldest first and each once, and exactly those have
  left the file, so that \<open>\<lceil>rows / b\<rceil>\<close> turns empty it.\<close>

theorem retrier_drains_fifo:
  assumes "\<forall>e \<in> set es. healthy_cycle e" and "js_up (ps_broker sys)" and "store_inv (ps_store sys)"
    and "rt_alive rt" and "rt_batch_size rt = int b"
    and "retrier_run js_publish es (rt, sys) = (rt', sys')"
  shows "t_rows (disk (ps_store sys')) = drop (length es * b) (t_rows (disk (ps_store sys))) \<and>
    js_msgs (ps_broker sys') = js_msgs (ps_broker sys) @
      map row_out (take (length es * b) (t_rows (disk (ps_store sys)))) \<and>
    rt_alive rt' \<and> store_inv (ps_store sys')"
proof -
  have "ob_inv (ps_store sys)" "settled (ps_store sys)" using assms(3) by (simp_all add: store_inv_def)
  then show ?thesis using assms(1,2,4,5,6)
  proof (induction es arbitrary: rt sys)
    case (Cons e es)
    have b: "0 \<le> rt_batch_size rt" "nat (rt_batch_size rt) = b" using Cons.prems(6) by simp_all
    have he: "healthy_cycle e" using Cons.prems(3) by simp
    obtain w sys1 where s1: "retrier_cycle js_publish e (rt, sys) = (w, (reset_backoff rt, sys1))"
        "js_up (ps_broker sys1)" "ob_inv (ps_store sys1)" "settled (ps_store sys1)"
        "t_rows (disk (ps_store sys1)) = drop b (t_rows (disk (ps_store sys)))"
        "js_msgs (ps_broker sys1) = js_msgs (ps_broker sys) @
           map row_out (take b (t_rows (disk (ps_store sys))))"
      using retrier_cycle_healthy [OF he Cons.prems(4,1,2,5) b(1)] unfolding b(2) by blast
    have "retrier_run js_publish es (reset_backoff rt, sys1) = (rt', sys')"
      using Cons.prems(7) s1(1) by simp
    then have "t_rows (disk (ps_store sys')) = drop (length es * b) (t_rows (disk (ps_store sys1))) \<and>
      js_msgs (ps_broker sys') = js_msgs (ps_broker sys1) @
        map row_out (take (length es * b) (t_rows (disk (ps_store sys1)))) \<and>
      rt_alive rt' \<and> store_inv (ps_store sys')"
      using Cons.prems s1 by (intro Cons.IH) (auto simp: reset_backoff_def)
    then show ?case by (simp add: s1 take_add [of b] add.commute)
  qed (simp add: store_inv_def)
qed


theorem retrier_drains_fifo_witness:
  "t_rows (disk (ps_store (snd (retrier_run js_publish [sample_cycle JsAck] (sample_retrier, sample_sys))))) = []"
proof -
  have "\<forall>e \<in> set [sample_cycle JsAck]. healthy_cycle e"
    by (simp add: healthy_cycle_def healthy_row_def sample_cycle_def sample_row_env_def sample_env_def)
  moreover have "js_up (ps_broker sample_sys)" "store_inv (ps_store sample_sys)"
    by (simp_all add: sample_sys_def js_up_def sample_js_def sample_stored_inv)
  moreover have "rt_batch_size sample_retrier = int 100" by simp
  ultimately show ?thesis
    using retrier_drains_fifo [of "[sample_cycle JsAck]" sample_sys sample_retrier 100, OF _ _ _ _ _ surjective_pairing]
    by (simp add: sample_sys_def sample_rows del: retrier_run_simps)
qed

section \<open>A message the broker rejects\<close>

definition rejecting_row :: "string \<Rightarrow> js_reply row_env \<Rightarrow> bool" where
  "rejecting_row t e \<longleftrightarrow> \<not> re_stop e \<and> (\<exists>st. pe_broker (re_pub e) = JsRaise t st) \<and> fst (re_db e) = DbOk"

definition rejecting_cycle :: "string \<Rightarrow> js_reply cycle_env \<Rightarrow> bool" where
  "rejecting_cycle t e \<longleftrightarrow> \<not> ce_stop e \<and> ce_fetch e = DbOk \<and> (\<forall>i. rejecting_row t (ce_rows e i))"

definition tried :: "nat \<Rightarrow> string \<Rightarrow> row \<Rightarrow> row" where
  \<comment> \<open>the row after \<open>n\<close> counted failures\<close>
  "tried n t r = r\<lparr>row_retry := row_retry r + n,
     row_err := (if n = 0 then row_err r else Some (take 2000 t))\<rparr>"

lemma bump_head:
  assumes "tab_ok tb" "t_rows tb = r # rs"
  shows "t_rows (bump_row (row_id r) t tb) = tried 1 t r # rs"
proof -
  have "distinct (map row_id (t_rows tb))"
    using assms(1) by (auto simp: tab_ok_def intro: sorted_wrt_less_distinct)
  then have "\<forall>q \<in> set rs. row_id q \<noteq> row_id r" using assms(2) by (auto simp: image_iff)
  then show ?thesis using assms(2) by (auto simp: bump_row_def tried_def map_idI)
qed

lemma rejected_publish:
  assumes "rejecting_row t e" "js_up (ps_broker sys)"
  obtains sys1 where "publish_outbox_row js_publish (re_pub e) m sys = (Inl (publish_error t), sys1)"
    "ps_store sys1 = ps_store sys" "js_up (ps_broker sys1)"
  using assms
  by (auto simp: rejecting_row_def publish_outbox_row_def js_publish_def js_up_def Let_def)

lemma not_ready_publish_error: "is_not_ready (publish_error t) = py_in ''not ready'' (py_lower t)"
  by (simp add: is_not_ready_def publish_error_def)

lemma exc_text_publish_error [simp]: "exc_text (publish_error t) = t"
  by (simp add: publish_error_def)

lemma retry_row_rejected:
  assumes "rejecting_row t e" "js_up (ps_broker sys)" "ob_inv (ps_store sys)" "settled (ps_store sys)"
    "t_rows (disk (ps_store sys)) = r # rs" "\<not> py_in ''not ready'' (py_lower t)"
    "int (row_retry r) + 1 < maxr"
  shows "\<exists>sys'. retry_row js_publish maxr e r sys = (RowRetryLater, sys') \<and> js_up (ps_broker sys') \<and>
    ob_inv (ps_store sys') \<and> settled (ps_store sys') \<and>
    t_rows (disk (ps_store sys')) = tried 1 t r # rs \<and>
    t_dead (disk (ps_store sys')) = t_dead (disk (ps_store sys)) \<and>
    t_dead_seq (disk (ps_store sys')) = t_dead_seq (disk (ps_store sys))"
proof -
  obtain sys1 where p: "publish_outbox_row js_publish (re_pub e) (row_msg r) sys = (Inl (publish_error t), sys1)"
    "ps_store sys1 = ps_store sys" "js_up (ps_broker sys1)"
    using rejected_publish assms(1,2) by metis
  obtain ob where m: "mark_retry DbOk (row_id r) t (ps_store sys) = (Inr (), ob)"
    by (simp add: mark_retry_def db_write_def Let_def)
  have "settled ob" "disk ob = bump_row (row_id r) t (disk (ps_store sys))" "ob_inv ob"
    using mark_retry_clean [OF _ assms(4) m] mark_retry_inv [OF assms(3) m] by auto
  moreover have "tab_ok (disk (ps_store sys))" using assms(3) by (simp add: ob_inv_def)
  ultimately show ?thesis
    using assms(1,6,7) p m bump_head [OF _ assms(5), of t]
    by (auto simp: retry_row_def rejecting_row_def not_ready_publish_error store_mark_def)
qed

lemma retry_row_buried:
  assumes "rejecting_row t e" "js_up (ps_broker sys)" "ob_inv (ps_store sys)" "settled (ps_store sys)"
    "t_rows (disk (ps_store sys)) = r # rs" "\<not> py_in ''not ready'' (py_lower t)"
    "maxr \<le> int (row_retry r) + 1"
  shows "\<exists>sys'. retry_row js_publish maxr e r sys = (RowBuried True, sys') \<and>
    t_rows (disk (ps_store sys')) = rs \<and> t_dead (disk (ps_store sys')) = t_dead (disk (ps_store sys)) @
      [mk_dead (t_dead_seq (disk (ps_store sys)) + 1) (snd (re_db e)) t r]"
proof -
  obtain sys1 where p: "publish_outbox_row js_publish (re_pub e) (row_msg r) sys = (Inl (publish_error t), sys1)"
    "ps_store sys1 = ps_store sys"
    using rejected_publish assms(1,2) by metis
  have f: "find (\<lambda>q. row_id q = row_id r) (t_rows (work (ps_store sys))) = Some r"
    using assms(4,5) by (simp add: settled_def)
  obtain ob where m: "move_to_dead_letter DbOk (snd (re_db e)) (row_id r) t (ps_store sys) = (Inr True, ob)"
    by (simp add: move_to_dead_letter_def f db_write_def Let_def)
  have d: "disk ob = delete_row (row_id r) (insert_dead (snd (re_db e)) t r (disk (ps_store sys)))"
    using move_clean [OF _ assms(4) m] f assms(4) by (auto simp: settled_def)
  have "distinct (map row_id (t_rows (disk (ps_store sys))))"
    using assms(3) by (auto simp: ob_inv_def tab_ok_def intro: sorted_wrt_less_distinct)
  then have "filter (\<lambda>q. row_id q \<noteq> row_id r) rs = rs"
    unfolding assms(5) by (intro filter_neq_id) simp
  then show ?thesis
    using assms(1,5,6,7) p m d
    by (auto simp: retry_row_def rejecting_row_def not_ready_publish_error store_kill_def
        delete_row_def insert_dead_def)
qed

lemma retrier_cycle_rejected:
  assumes "rejecting_cycle t e" "js_up (ps_broker sys)" "ob_inv (ps_store sys)" "settled (ps_store sys)"
    "t_rows (disk (ps_store sys)) = r # rs" "\<not> py_in ''not ready'' (py_lower t)"
    "int (row_retry r) + 1 < rt_max_retries rt" "rt_alive rt" "1 \<le> rt_batch_size rt"
  shows "\<exists>w sys'. retrier_cycle js_publish e (rt, sys) =
      (w, (snd (next_backoff (ce_jitter e) rt), sys')) \<and> js_up (ps_broker sys') \<and>
    ob_inv (ps_store sys') \<and> settled (ps_store sys') \<and>
    t_rows (disk (ps_store sys')) = tried 1 t r # rs \<and>
    t_dead (disk (ps_store sys')) = t_dead (disk (ps_store sys)) \<and>
    t_dead_seq (disk (ps_store sys')) = t_dead_seq (disk (ps_store sys))"
proof -
  let ?n = "nat (rt_batch_size rt)"
  have "sort_key row_id (r # rs) = r # rs"
    using assms(3) unfolding assms(5) [symmetric]
    by (intro sort_key_sorted_id) (simp add: ob_inv_def tab_ok_def)
  then have f: "fetch_batch (ce_fetch e) (rt_batch_size rt) (ps_store sys) = Inr (r # take (?n - 1) rs)"
    using assms(1,4,5,9) by (simp add: fetch_batch_def rejecting_cycle_def settled_def take_Cons')
  have "rejecting_row t (ce_rows e (row_id r))" using assms(1) by (simp add: rejecting_cycle_def)
  from retry_row_rejected [OF this assms(2-7)] obtain sys' where
    "retry_row js_publish (rt_max_retries rt) (ce_rows e (row_id r)) r sys = (RowRetryLater, sys')"
    and s: "js_up (ps_broker sys')" "ob_inv (ps_store sys')" "settled (ps_store sys')"
      "t_rows (disk (ps_store sys')) = tried 1 t r # rs"
      "t_dead (disk (ps_store sys')) = t_dead (disk (ps_store sys))"
      "t_dead_seq (disk (ps_store sys')) = t_dead_seq (disk (ps_store sys))"
    by blast
  then have "retrier_cycle js_publish e (rt, sys) =
      (Some (fst (next_backoff (ce_jitter e) rt)), (snd (next_backoff (ce_jitter e) rt), sys'))"
    using assms(1,8) f by (auto simp: retrier_cycle_def rejecting_cycle_def split: prod.splits)
  with s show ?thesis by blast
qed

lemma tried_simps [simp]:
  "tried 0 t r = r" "tried n t (tried (Suc 0) t r) = tried (Suc n) t r"
  "row_retry (tried n t r) = row_retry r + n" "row_id (tried n t r) = row_id r"
  by (simp_all add: tried_def)

lemma next_backoff_frame2 [simp]:
  "rt_alive (snd (next_backoff u rt)) = rt_alive rt"
  "rt_max_retries (snd (next_backoff u rt)) = rt_max_retries rt"
  "rt_batch_size (snd (next_backoff u rt)) = rt_batch_size rt"
  by (simp_all add: rt_defs)

lemma retrier_run_rejected:
  assumes "\<forall>e \<in> set es. rejecting_cycle t e" "js_up (ps_broker sys)" "ob_inv (ps_store sys)"
    "settled (ps_store sys)" "t_rows (disk (ps_store sys)) = r # rs" "\<not> py_in ''not ready'' (py_lower t)"
    "int (row_retry r + length es) < rt_max_retries rt" "rt_alive rt" "1 \<le> rt_batch_size rt"
    "retrier_run js_publish es (rt, sys) = (rt', sys')"
  shows "rt_alive rt' \<and> js_up (ps_broker sys') \<and> ob_inv (ps_store sys') \<and> settled (ps_store sys') \<and>
    t_rows (disk (ps_store sys')) = tried (length es) t r # rs \<and>
    t_dead (disk (ps_store sys')) = t_dead (disk (ps_store sys)) \<and>
    t_dead_seq (disk (ps_store sys')) = t_dead_seq (disk (ps_store sys))"
  using assms
proof (induction es arbitrary: rt sys r)
  case (Cons e es)
  have "rejecting_cycle t e" "int (row_retry r) + 1 < rt_max_retries rt" using Cons.prems by auto
  from retrier_cycle_rejected [OF this(1) Cons.prems(2-6) this(2) Cons.prems(8,9)]
  obtain w sys1 where s: "retrier_cycle js_publish e (rt, sys) =
      (w, (snd (next_backoff (ce_jitter e) rt), sys1))" "js_up (ps_broker sys1)"
    "ob_inv (ps_store sys1)" "settled (ps_store sys1)"
    "t_rows (disk (ps_store sys1)) = tried 1 t r # rs"
    "t_dead (disk (ps_store sys1)) = t_dead (disk (ps_store sys))"
    "t_dead_seq (disk (ps_store sys1)) = t_dead_seq (disk (ps_store sys))"
    by blast
  show ?case
    using Cons.IH [of sys1 "tried 1 t r" "snd (next_backoff (ce_jitter e) rt)"] Cons.prems s
    by auto
qed auto

text \<open>C22: A message the broker keeps rejecting blocks the head of the queue for \<open>max_retries\<close> turns and
  no longer: each turn before counts one failure on it and touches no other row; the turn in which
  it has failed \<open>max_retries - 1\<close> times already moves it to the dead letters, with the counter
  \<open>max_retries - 1\<close>, and the next row becomes the head.\<close>

theorem poison_message_life:
  assumes "\<forall>e \<in> set es. rejecting_cycle t e" and "\<not> py_in ''not ready'' (py_lower t)"
    and "js_up (ps_broker sys)" and "store_inv (ps_store sys)"
    and "t_rows (disk (ps_store sys)) = r # rs" and "row_retry r = 0"
    and "int (length es) < rt_max_retries rt" and "rt_alive rt" and "1 \<le> rt_batch_size rt"
    and "retrier_run js_publish es (rt, sys) = (rt', sys')"
  shows "t_rows (disk (ps_store sys')) = tried (length es) t r # rs \<and>
    t_dead (disk (ps_store sys')) = t_dead (disk (ps_store sys)) \<and>
    (rejecting_row t e \<and> int (length es) = rt_max_retries rt - 1 \<longrightarrow>
      (\<exists>sys2 d. retry_row js_publish (rt_max_retries rt) e (tried (length es) t r) sys' = (RowBuried True, sys2) \<and>
        t_rows (disk (ps_store sys2)) = rs \<and>
        t_dead (disk (ps_store sys2)) = t_dead (disk (ps_store sys)) @ [d] \<and>
        dead_msg d = row_msg r \<and> int (dl_retry d) = rt_max_retries rt - 1))"
proof -
  have inv: "ob_inv (ps_store sys)" "settled (ps_store sys)"
    using assms(4) by (simp_all add: store_inv_def)
  have "int (row_retry r + length es) < rt_max_retries rt" using assms(6,7) by simp
  note run = retrier_run_rejected [OF assms(1,3) inv assms(5,2) this assms(8,9,10)]
  then have run': "js_up (ps_broker sys')" "ob_inv (ps_store sys')" "settled (ps_store sys')"
    "t_rows (disk (ps_store sys')) = tried (length es) t r # rs" by auto
  note bury = retry_row_buried [OF _ run' assms(2), of e "rt_max_retries rt"]
  show ?thesis
    using run bury assms(6) by (auto simp: mk_dead_def dead_msg_def row_msg_def tried_def)
qed

theorem poison_message_life_witness:
  "t_rows (disk (ps_store (snd (retrier_run js_publish
      [sample_cycle (JsRaise ''bad'' False), sample_cycle (JsRaise ''bad'' False)] (sample_retrier, sample_sys)))))
    = [tried 2 ''bad'' (mk_row 1 7 sample_msg None)]"
proof -
  let ?es = "[sample_cycle (JsRaise ''bad'' False), sample_cycle (JsRaise ''bad'' False)]"
  have "\<forall>e \<in> set ?es. rejecting_cycle ''bad'' e"
    by (simp add: rejecting_cycle_def rejecting_row_def sample_cycle_def sample_row_env_def sample_env_def) blast
  moreover have "\<not> py_in ''not ready'' (py_lower ''bad'')"
    by (simp add: py_lower_def py_lower_char_def)
  moreover have "js_up (ps_broker sample_sys)" "store_inv (ps_store sample_sys)"
    by (simp_all add: sample_sys_def js_up_def sample_js_def sample_stored_inv)
  moreover have "t_rows (disk (ps_store sample_sys)) = [mk_row 1 7 sample_msg None]"
    by (simp add: sample_sys_def sample_rows)
  moreover have "row_retry (mk_row 1 7 sample_msg None) = 0" by (simp add: mk_row_def)
  moreover have "int (length ?es) < rt_max_retries sample_retrier" "1 \<le> rt_batch_size sample_retrier" by simp_all
  moreover have "length ?es = 2" by simp
  ultimately show ?thesis
    using poison_message_life [of ?es "''bad''" sample_sys "mk_row 1 7 sample_msg None" "[]" sample_retrier,
        OF _ _ _ _ _ _ _ _ _ surjective_pairing] sample_retrier_simps(1) by metis
qed

section \<open>The thread does not survive a database error\<close>

text \<open>C39: When the database fails while the retrier deletes a row it has just published, the exception
  leaves \<open>_run\<close> and the thread is gone: the row stays in the file, and no later turn and no call of
  \<open>start\<close> sends anything again.\<close>

theorem retrier_dies_on_db_error:
  assumes "js_up (ps_broker sys)" and "store_inv (ps_store sys)" and "rt_alive rt" and "rt_thread rt"
    and "t_rows (disk (ps_store sys)) = r # rs" and "1 \<le> rt_batch_size rt"
    and "\<not> ce_stop e" and "ce_fetch e = DbOk" and "\<not> re_stop (ce_rows e (row_id r))"
    and "pe_broker (re_pub (ce_rows e (row_id r))) = JsAck"
    and "fst (re_db (ce_rows e (row_id r))) = DbFail 0 rb x"
    and "retrier_cycle js_publish e (rt, sys) = (w, (rt', sys'))"
  shows "w = None \<and> t_rows (disk (ps_store sys')) = r # rs \<and>
    retrier_run js_publish es (retrier_start rt', sys') = (rt', sys')"
proof -
  let ?n = "nat (rt_batch_size rt)" and ?e = "ce_rows e (row_id r)"
  have inv: "ob_inv (ps_store sys)" "settled (ps_store sys)"
    using assms(2) by (simp_all add: store_inv_def)
  have "sort_key row_id (r # rs) = r # rs"
    using inv(1) unfolding assms(5) [symmetric]
    by (intro sort_key_sorted_id) (simp add: ob_inv_def tab_ok_def)
  then have f: "fetch_batch (ce_fetch e) (rt_batch_size rt) (ps_store sys) = Inr (r # take (?n - 1) rs)"
    using assms(5,6,8) inv(2) by (simp add: fetch_batch_def settled_def take_Cons')
  have "\<exists>sys1. retry_row js_publish (rt_max_retries rt) ?e r sys = (RowRaised (sqlite_error x), sys1) \<and>
      disk (ps_store sys1) = disk (ps_store sys)"
    using assms(1,9,10,11) inv(2)
    by (auto simp: retry_row_def publish_outbox_row_def js_publish_def js_up_def Let_def store_del_def
        delete_def db_write_def rollback_def)
  then obtain sys1 where s1: "retry_row js_publish (rt_max_retries rt) ?e r sys = (RowRaised (sqlite_error x), sys1)"
    "disk (ps_store sys1) = disk (ps_store sys)" by blast
  have "w = None \<and> rt' = rt\<lparr>rt_alive := False\<rparr> \<and> sys' = sys1"
    using assms(3,7,12) f s1(1) by (auto simp: retrier_cycle_def)
  then show ?thesis
    using s1(2) assms(4,5) by (simp add: retrier_start_def dead_thread_run)
qed

theorem retrier_dies_on_db_error_witness:
  "fst (retrier_cycle js_publish ((sample_cycle JsAck)\<lparr>ce_rows := (\<lambda>i. (sample_row_env JsAck)\<lparr>re_db :=
      (DbFail 0 True ''disk I/O error'', 9)\<rparr>)\<rparr>) (sample_retrier, sample_sys)) = None"
proof -
  let ?e = "(sample_cycle JsAck)\<lparr>ce_rows := (\<lambda>i. (sample_row_env JsAck)\<lparr>re_db :=
      (DbFail 0 True ''disk I/O error'', 9)\<rparr>)\<rparr>"
  obtain w rt' sys' where c: "retrier_cycle js_publish ?e (sample_retrier, sample_sys) = (w, (rt', sys'))"
    using prod_cases3 by blast
  have "w = None"
    using retrier_dies_on_db_error [of sample_sys sample_retrier "mk_row 1 7 sample_msg None" "[]" ?e True
        "''disk I/O error''" w rt' sys' "[]"] c
    by (simp add: sample_sys_def js_up_def sample_js_def sample_stored_inv sample_rows sample_cycle_def
        sample_row_env_def sample_env_def)
  with c show ?thesis by simp
qed

end
