(* ===== verification/Delivery.thy ===== *)
theory Delivery
  imports Retrier
begin

text \<open>
  The delivery path as it runs: the poller publishes, the retrier thread works through its batch, the
  connection comes and goes, the process crashes and is restarted. Each database or broker call is
  one step (the outbox lock and the event loop make it so); the steps of the threads interleave in
  any order. \<open>dv_done\<close> is a ghost: the messages whose \<open>publish\<close> returned to the poller, \<open>dv_tried\<close>
  those it was called with.
\<close>

section \<open>Steps\<close>

datatype retrier_pc =
    AtFetch                          \<comment> \<open>between two batches\<close>
  | AtRow "row list"                 \<comment> \<open>at the head of the \<open>for\<close> loop\<close>
  | AtDelete row "row list"          \<comment> \<open>published, not yet deleted\<close>
  | AtFailed pyexc row "row list"    \<comment> \<open>publish raised, not yet counted\<close>
  | AtEnd                            \<comment> \<open>the thread is gone\<close>

record delivery =
  dv_sys :: "(jetstream, outbox) pub_sys"
  dv_pc :: retrier_pc
  dv_done :: "msg set"
  dv_tried :: "msg set"

definition after_publish :: "msg \<Rightarrow> unit res \<Rightarrow> (jetstream, outbox) pub_sys \<Rightarrow> delivery \<Rightarrow> delivery" where
  "after_publish m r sys' d = d\<lparr>dv_sys := sys',
     dv_done := (if raised r then dv_done d else insert (norm_msg m) (dv_done d)),
     dv_tried := insert (norm_msg m) (dv_tried d)\<rparr>"

definition after_send :: "row \<Rightarrow> row list \<Rightarrow> unit res \<Rightarrow> retrier_pc" where
  "after_send r rs res = (case res of Inr _ \<Rightarrow> AtDelete r rs
     | Inl x \<Rightarrow> if is_not_ready x then AtFetch else AtFailed x r rs)"

definition with_store :: "outbox \<Rightarrow> retrier_pc \<Rightarrow> delivery \<Rightarrow> delivery" where
  "with_store ob pc d = d\<lparr>dv_sys := (dv_sys d)\<lparr>ps_store := ob\<rparr>, dv_pc := pc\<rparr>"

definition crash :: "jetstream \<Rightarrow> delivery \<Rightarrow> delivery" where
  \<comment> \<open>a new process on the same file; what the server stored stays stored\<close>
  "crash js d = d\<lparr>dv_pc := AtFetch, dv_sys :=
     \<lparr>ps_broker = js\<lparr>js_stored := js_stored (ps_broker (dv_sys d))\<rparr>,
      ps_store = outbox_restart (ps_store (dv_sys d)), ps_rp = rp_init\<rparr>\<rparr>"

inductive dv_step :: "int \<Rightarrow> delivery \<Rightarrow> delivery \<Rightarrow> bool" for maxr where
  dv_publish: "store_good (pe_store e) \<Longrightarrow>
    rp_publish js_publish store_enq e m (dv_sys d) = (r, sys') \<Longrightarrow>
    dv_step maxr d (after_publish m r sys' d)"
| dv_fetch: "dv_pc d = AtFetch \<Longrightarrow> fetch_batch f n (ps_store (dv_sys d)) = Inr rs \<Longrightarrow>
    dv_step maxr d (d\<lparr>dv_pc := AtRow rs\<rparr>)"
| dv_send: "dv_pc d = AtRow (r # rs) \<Longrightarrow>
    publish_outbox_row js_publish (e :: (js_reply, db_env) pub_env) (row_msg r) (dv_sys d) = (res, sys') \<Longrightarrow>
    dv_step maxr d (d\<lparr>dv_sys := sys', dv_pc := after_send r rs res\<rparr>)"
| dv_delete: "dv_pc d = AtDelete r rs \<Longrightarrow> store_good e \<Longrightarrow>
    store_del e (row_id r) (ps_store (dv_sys d)) = (u, ob) \<Longrightarrow>
    dv_step maxr d (with_store ob (if raised u then AtEnd else AtRow rs) d)"
| dv_count: "dv_pc d = AtFailed x r rs \<Longrightarrow> int (row_retry r) + 1 < maxr \<Longrightarrow> store_good e \<Longrightarrow>
    store_mark e (row_id r) (exc_text x) (ps_store (dv_sys d)) = (u, ob) \<Longrightarrow>
    dv_step maxr d (with_store ob (if raised u then AtEnd else AtFetch) d)"
| dv_bury: "dv_pc d = AtFailed x r rs \<Longrightarrow> int (row_retry r) + 1 \<ge> maxr \<Longrightarrow> store_good e \<Longrightarrow>
    store_kill e (row_id r) (exc_text x) (ps_store (dv_sys d)) = (v, ob) \<Longrightarrow>
    dv_step maxr d (with_store ob (if raised v then AtEnd else AtRow rs) d)"
| dv_leave: "dv_pc d = AtRow rs \<Longrightarrow> dv_step maxr d (d\<lparr>dv_pc := AtFetch\<rparr>)"
| dv_network: "js_step (ps_broker (dv_sys d)) js \<Longrightarrow> js_stored js = js_stored (ps_broker (dv_sys d)) \<Longrightarrow>
    dv_step maxr d (d\<lparr>dv_sys := (dv_sys d)\<lparr>ps_broker := js\<rparr>\<rparr>)"
| dv_crash: "js_create True p c = Some js \<Longrightarrow> dv_step maxr d (crash js d)"

definition dv_start :: "delivery \<Rightarrow> bool" where
  "dv_start d \<longleftrightarrow> store_inv (ps_store (dv_sys d)) \<and> dv_pc d = AtFetch \<and> dv_done d = {} \<and>
     dv_tried d = js_accepted (ps_broker (dv_sys d)) \<union> norm_msg ` store_held (ps_store (dv_sys d))"

section \<open>The invariant\<close>

text \<open>What the thread knows about the rows in its hands.\<close>

definition knows :: "outbox \<Rightarrow> row \<Rightarrow> bool" where
  "knows ob r \<longleftrightarrow> store_used ob (row_id r) \<and> set_option (store_pend ob (row_id r)) \<subseteq> {row_msg r}"

fun pc_rows :: "retrier_pc \<Rightarrow> row list" where
  "pc_rows AtFetch = []"
| "pc_rows (AtRow rs) = rs"
| "pc_rows (AtDelete r rs) = r # rs"
| "pc_rows (AtFailed x r rs) = r # rs"
| "pc_rows AtEnd = []"

fun pc_sent :: "retrier_pc \<Rightarrow> msg set" where
  "pc_sent (AtDelete r rs) = {norm_msg (row_msg r)}"
| "pc_sent _ = {}"

definition dv_inv :: "delivery \<Rightarrow> bool" where
  "dv_inv d \<longleftrightarrow> store_inv (ps_store (dv_sys d)) \<and>
     (\<forall>r \<in> set (pc_rows (dv_pc d)). knows (ps_store (dv_sys d)) r \<and> norm_msg (row_msg r) \<in> dv_tried d) \<and>
     pc_sent (dv_pc d) \<subseteq> js_accepted (ps_broker (dv_sys d)) \<and>
     (\<forall>m \<in> dv_done d. norm_msg m = m) \<and>
     dv_done d \<subseteq> js_accepted (ps_broker (dv_sys d)) \<union> store_held (ps_store (dv_sys d)) \<and>
     js_accepted (ps_broker (dv_sys d)) \<subseteq> dv_tried d \<and>
     norm_msg ` store_held (ps_store (dv_sys d)) \<subseteq> dv_tried d"

lemma dv_start_inv: "dv_start d \<Longrightarrow> dv_inv d"
  by (auto simp: dv_start_def dv_inv_def)

lemma fetch_knows:
  assumes "store_inv ob" "fetch_batch f n ob = Inr rs" "r \<in> set rs"
  shows "knows ob r \<and> row_msg r \<in> store_held ob"
proof -
  have ok: "tab_ok (disk ob)" "work ob = disk ob"
    using assms(1) by (auto simp: store_inv_def ob_inv_def settled_def)
  have r: "r \<in> set (t_rows (disk ob))"
    using assms(2,3) ok(2) by (auto simp: fetch_batch_def Let_def split: db_fault.splits if_splits dest: in_set_takeD)
  have "distinct (map row_id (t_rows (disk ob)))"
    using ok(1) by (auto simp: tab_ok_def intro: sorted_wrt_less_distinct)
  with r have "find (\<lambda>q. row_id q = row_id r) (t_rows (disk ob)) = Some r"
    by (rule find_by_key_Some [rotated])
  then show ?thesis
    using r ok(1) by (auto simp: knows_def store_used_def store_pend_def tab_ok_def store_held_def tab_msgs_def)
qed

text \<open>Every call of another thread leaves the knowledge intact.\<close>

lemma knows_stable:
  assumes "knows ob r" "store_good e" "store_inv ob"
  shows "store_enq e m err ob = (a, ob') \<Longrightarrow> knows ob' r"
    and "store_del e i ob = (b, ob') \<Longrightarrow> knows ob' r"
    and "store_mark e i t ob = (b, ob') \<Longrightarrow> knows ob' r"
    and "store_kill e i t ob = (c, ob') \<Longrightarrow> knows ob' r"
  using outbox_store.knows_row [of ob "row_id r" "row_msg r" e] assms unfolding knows_def by blast+

lemma publish_knows:
  assumes "store_good (pe_store e)" "store_inv (ps_store sys)" "knows (ps_store sys) r"
    "rp_publish js_publish store_enq e m sys = (u, sys')"
  shows "knows (ps_store sys') r"
  using assms(4)
proof (cases rule: js_pub.publish_cases)
  case sent
  then show ?thesis using assms(3) by simp
qed (use knows_stable(1) [OF assms(3,1,2)] in blast)+

lemma publish_at_most:
  assumes "store_good (pe_store e)" "store_inv (ps_store sys)"
    "rp_publish js_publish store_enq e m sys = (u, sys')"
  shows "js_accepted (ps_broker sys') \<subseteq> insert (norm_msg m) (js_accepted (ps_broker sys)) \<and>
    store_held (ps_store sys') \<subseteq> insert (norm_msg m) (store_held (ps_store sys))"
  using assms(3)
proof (cases rule: js_pub.publish_cases)
  case sent
  then show ?thesis using js_broker.pub_at_most by auto
next
  case stored
  then show ?thesis using js_broker.pub_at_most outbox_store.enq_at_most [OF assms(1,2)] by metis
next
  case refused
  then show ?thesis using js_broker.pub_at_most outbox_store.enq_at_most [OF assms(1,2)] by metis
qed

lemma row_at_most:
  assumes "publish_outbox_row js_publish e m sys = (u, sys')"
  shows "js_accepted (ps_broker sys') \<subseteq> insert (norm_msg m) (js_accepted (ps_broker sys))"
  using assms js_broker.pub_at_most
  by (fastforce simp: publish_outbox_row_def Let_def split: prod.splits sum.splits if_splits)


lemma inv_publish:
  assumes inv: "dv_inv d" and good: "store_good (pe_store e)"
    and p: "rp_publish js_publish store_enq e m (dv_sys d) = (r, sys')"
  shows "dv_inv (after_publish m r sys' d)"
proof -
  have si: "store_inv (ps_store (dv_sys d))" using inv by (simp add: dv_inv_def)
  have keep: "js_accepted (ps_broker (dv_sys d)) \<subseteq> js_accepted (ps_broker sys') \<and>
      store_held (ps_store (dv_sys d)) \<subseteq> store_held (ps_store sys')"
    using js_pub.publish_keeps [OF good si p] .
  have "norm_msg m \<in> js_accepted (ps_broker sys') \<union> store_held (ps_store sys')" if "\<not> raised r"
    using js_pub.publish_safe [OF good si] p that by (cases r) auto
  note safe = this
  have up: "norm_msg ` store_held (ps_store sys') \<subseteq> insert (norm_msg m) (dv_tried d)"
  proof -
    have "norm_msg ` store_held (ps_store sys') \<subseteq> insert (norm_msg m) (norm_msg ` store_held (ps_store (dv_sys d)))"
      using image_mono [OF conjunct2 [OF publish_at_most [OF good si p]], of norm_msg] by simp
    moreover have "norm_msg ` store_held (ps_store (dv_sys d)) \<subseteq> dv_tried d"
      using inv by (simp add: dv_inv_def)
    ultimately show ?thesis by blast
  qed
  have done': "dv_done (after_publish m r sys' d) \<subseteq>
      js_accepted (ps_broker sys') \<union> store_held (ps_store sys')"
    using inv keep safe by (auto simp: after_publish_def dv_inv_def)
  show ?thesis
    unfolding dv_inv_def
  proof (intro conjI)
    show "dv_done (after_publish m r sys' d) \<subseteq> js_accepted (ps_broker (dv_sys (after_publish m r sys' d)))
        \<union> store_held (ps_store (dv_sys (after_publish m r sys' d)))"
      using done' by (simp add: after_publish_def)
    show "store_inv (ps_store (dv_sys (after_publish m r sys' d)))"
      using js_pub.publish_inv [OF good si p] by (simp add: after_publish_def)
    show "\<forall>q \<in> set (pc_rows (dv_pc (after_publish m r sys' d))).
        knows (ps_store (dv_sys (after_publish m r sys' d))) q \<and>
        norm_msg (row_msg q) \<in> dv_tried (after_publish m r sys' d)"
      using inv publish_knows [OF good si _ p] by (auto simp: after_publish_def dv_inv_def)
    show "norm_msg ` store_held (ps_store (dv_sys (after_publish m r sys' d)))
        \<subseteq> dv_tried (after_publish m r sys' d)"
      using up by (simp add: after_publish_def)
  qed (use inv keep publish_at_most [OF good si p] in \<open>auto simp: after_publish_def dv_inv_def\<close>)
qed

text \<open>A call of the retrier on the store that drops at most what the broker has.\<close>

lemma inv_store_step:
  assumes inv: "dv_inv d" and si: "store_inv ob"
    and kn: "\<And>r. knows (ps_store (dv_sys d)) r \<Longrightarrow> knows ob r"
    and low: "store_held (ps_store (dv_sys d)) \<subseteq> store_held ob \<union> lost"
    and up: "store_held ob \<subseteq> store_held (ps_store (dv_sys d))"
    and lost: "\<And>m. m \<in> lost \<Longrightarrow> norm_msg m \<in> js_accepted (ps_broker (dv_sys d))"
    and pc: "set (pc_rows pc) \<subseteq> set (pc_rows (dv_pc d))" "pc_sent pc = {}"
  shows "dv_inv (with_store ob pc d)"
proof -
  have "dv_done d \<subseteq> js_accepted (ps_broker (dv_sys d)) \<union> store_held ob"
  proof
    fix m
    assume m: "m \<in> dv_done d"
    then have "norm_msg m = m" using inv by (auto simp: dv_inv_def)
    then show "m \<in> js_accepted (ps_broker (dv_sys d)) \<union> store_held ob"
      using m inv low lost [of m] by (auto simp: dv_inv_def)
  qed
  moreover have "norm_msg ` store_held ob \<subseteq> dv_tried d"
    using inv image_mono [OF up, of norm_msg] unfolding dv_inv_def by (meson order.trans)
  moreover have "knows ob q \<and> norm_msg (row_msg q) \<in> dv_tried d" if "q \<in> set (pc_rows pc)" for q
    using inv kn pc(1) that unfolding dv_inv_def by (meson subsetD)
  moreover have "\<forall>m \<in> dv_done d. norm_msg m = m" "js_accepted (ps_broker (dv_sys d)) \<subseteq> dv_tried d"
    using inv by (simp_all add: dv_inv_def)
  ultimately show ?thesis
    using si pc(2) by (simp add: dv_inv_def with_store_def)
qed

lemma inv_step: "dv_step maxr d d' \<Longrightarrow> dv_inv d \<Longrightarrow> dv_inv d'"
proof (induction rule: dv_step.induct)
  case (dv_publish e m d r sys')
  then show ?case by (rule inv_publish [rotated])
next
  case (dv_fetch d f n rs)
  then show ?case using fetch_knows [of "ps_store (dv_sys d)" f n rs] by (auto simp: dv_inv_def)
next
  case (dv_send d r rs e res sys')
  have "ps_store sys' = ps_store (dv_sys d) \<and>
      js_accepted (ps_broker (dv_sys d)) \<subseteq> js_accepted (ps_broker sys') \<and>
      (\<not> raised res \<longrightarrow> norm_msg (row_msg r) \<in> js_accepted (ps_broker sys'))"
    using js_pub.row_cases [OF dv_send(2)] by simp
  moreover have "js_accepted (ps_broker sys') \<subseteq> dv_tried d"
    using row_at_most [OF dv_send(2)] dv_send(1,3) by (auto simp: dv_inv_def)
  ultimately show ?case
    using dv_send(1,3) by (cases res) (auto simp: dv_inv_def after_send_def)
next
  case (dv_delete d r rs e u ob)
  let ?s = "ps_store (dv_sys d)"
  have si: "store_inv ?s" and k: "set_option (store_pend ?s (row_id r)) \<subseteq> {row_msg r}"
    and a: "norm_msg (row_msg r) \<in> js_accepted (ps_broker (dv_sys d))"
    using dv_delete by (auto simp: dv_inv_def knows_def)
  show ?case
  proof (rule inv_store_step [OF dv_delete(4), where lost = "{row_msg r}"])
    show "store_inv ob" using outbox_store.del_inv [OF dv_delete(2) si dv_delete(3)] .
    show "knows ?s q \<Longrightarrow> knows ob q" for q
      using knows_stable(2) [OF _ dv_delete(2) si dv_delete(3)] .
  qed (use outbox_store.del_held [OF dv_delete(2) si dv_delete(3)] k a dv_delete(1) in auto)
next
  case (dv_count d x r rs e u ob)
  have si: "store_inv (ps_store (dv_sys d))" using dv_count by (simp add: dv_inv_def)
  show ?case
  proof (rule inv_store_step [OF dv_count(5), where lost = "{}"])
    show "store_inv ob" using outbox_store.mark_inv [OF dv_count(3) si dv_count(4)] .
    show "knows (ps_store (dv_sys d)) q \<Longrightarrow> knows ob q" for q
      using knows_stable(3) [OF _ dv_count(3) si dv_count(4)] .
  qed (use outbox_store.mark_held [OF dv_count(3) si dv_count(4)] in auto)
next
  case (dv_bury d x r rs e v ob)
  have si: "store_inv (ps_store (dv_sys d))" using dv_bury by (simp add: dv_inv_def)
  show ?case
  proof (rule inv_store_step [OF dv_bury(5), where lost = "{}"])
    show "store_inv ob" using outbox_store.kill_inv [OF dv_bury(3) si dv_bury(4)] .
    show "knows (ps_store (dv_sys d)) q \<Longrightarrow> knows ob q" for q
      using knows_stable(4) [OF _ dv_bury(3) si dv_bury(4)] .
  qed (use outbox_store.kill_held [OF dv_bury(3) si dv_bury(4)] dv_bury(1) in auto)
next
  case (dv_leave d rs)
  then show ?case by (simp add: dv_inv_def)
next
  case (dv_network d js)
  then show ?case by (simp add: dv_inv_def js_accepted_def)
next
  case (dv_crash p c js d)
  have "store_inv (outbox_restart (ps_store (dv_sys d)))"
    using dv_crash(2) by (auto simp: dv_inv_def store_inv_def outbox_restart_def settled_def
        ob_inv_def outbox_init_def)
  moreover have "store_held (outbox_restart (ps_store (dv_sys d))) = store_held (ps_store (dv_sys d))"
    by (simp add: store_held_def outbox_restart_def outbox_init_def)
  ultimately show ?case
    using dv_crash(2) by (simp add: dv_inv_def crash_def js_accepted_def)
qed

lemma inv_steps: "(dv_step maxr)\<^sup>*\<^sup>* d d' \<Longrightarrow> dv_inv d \<Longrightarrow> dv_inv d'"
  by (induction rule: rtranclp_induct) (auto dest: inv_step)

section \<open>Nothing is lost and nothing is made up\<close>

text \<open>C1: At-least-once delivery under concurrency and crashes: however publishes, the retrier's steps,
  connection events and crashes interleave, every message whose \<open>publish\<close> returned is in the stream,
  in the outbox file or in its dead letters; and every message in one of those was published (or was
  there at the start).\<close>

theorem at_least_once:
  assumes "dv_start d" and "(dv_step maxr)\<^sup>*\<^sup>* d d'"
  shows "dv_done d' \<subseteq> js_accepted (ps_broker (dv_sys d')) \<union> store_held (ps_store (dv_sys d')) \<and>
    js_accepted (ps_broker (dv_sys d')) \<union> norm_msg ` store_held (ps_store (dv_sys d')) \<subseteq> dv_tried d'"
  using inv_steps [OF assms(2) dv_start_inv [OF assms(1)]] by (simp add: dv_inv_def)

definition sample_delivery :: "retrier_pc \<Rightarrow> delivery" where
  "sample_delivery pc = \<lparr>dv_sys = sample_sys, dv_pc = pc, dv_done = {},
     dv_tried = {norm_msg (row_msg (mk_row 1 7 sample_msg None))}\<rparr>"

theorem at_least_once_witness:
  "dv_done (after_publish sample_msg (Inr ()) (snd (rp_publish js_publish store_enq (sample_env JsAck DbOk) sample_msg
     sample_sys)) (sample_delivery AtFetch)) \<subseteq>
   js_accepted (ps_broker (snd (rp_publish js_publish store_enq (sample_env JsAck DbOk) sample_msg sample_sys))) \<union>
   store_held (ps_store (snd (rp_publish js_publish store_enq (sample_env JsAck DbOk) sample_msg sample_sys)))"
proof -
  let ?p = "rp_publish js_publish store_enq (sample_env JsAck DbOk) sample_msg sample_sys"
  have start: "dv_start (sample_delivery AtFetch)"
    by (auto simp: dv_start_def sample_delivery_def sample_sys_def sample_stored_inv js_accepted_def sample_js_def
        store_held_def tab_msgs_def sample_rows)
  have good: "store_good (pe_store (sample_env JsAck DbOk))"
    by (simp add: store_good_def sample_env_def)
  have "?p = (Inr (), snd ?p)"
    by (simp add: rp_publish_def js_publish_def sample_sys_def sample_env_def sample_js_def Let_def)
  then have "dv_step 3 (sample_delivery AtFetch) (after_publish sample_msg (Inr ()) (snd ?p) (sample_delivery AtFetch))"
    using dv_publish [OF good, of sample_msg "sample_delivery AtFetch" "Inr ()" "snd ?p" 3]
    by (simp add: sample_delivery_def)
  from at_least_once [OF start r_into_rtranclp [of "dv_step 3", OF this]] show ?thesis
    by (simp add: after_publish_def)
qed

section \<open>The retrier's code takes these steps\<close>

fun pc_after :: "row list \<Rightarrow> row_outcome \<Rightarrow> retrier_pc" where
  "pc_after rs RowStop = AtFetch"
| "pc_after rs RowSent = AtRow rs"
| "pc_after rs (RowBuried b) = AtRow rs"
| "pc_after rs RowNotReady = AtFetch"
| "pc_after rs RowRetryLater = AtFetch"
| "pc_after rs (RowRaised x) = AtEnd"

lemma step_to: "dv_step maxr d d1 \<Longrightarrow> d1 = d2 \<Longrightarrow> (dv_step maxr)\<^sup>*\<^sup>* d d2"
  by blast

text \<open>One turn of the retrier's row loop, run on its own, is a path of at most two of these steps,
  ending at the program point its outcome says.\<close>

lemma retry_row_is_path:
  assumes "dv_pc d = AtRow (r # rs)" and "store_good (re_db e)"
    and "retry_row js_publish maxr e r (dv_sys d) = (oc, sys')"
  shows "(dv_step maxr)\<^sup>*\<^sup>* d (d\<lparr>dv_sys := sys', dv_pc := pc_after rs oc\<rparr>)"
proof (cases "re_stop e")
  case True
  then show ?thesis
    using assms(3) step_to [OF dv_leave [OF assms(1)]] by (simp add: retry_row_def)
next
  case False
  obtain u sys1 where p: "publish_outbox_row js_publish (re_pub e) (row_msg r) (dv_sys d) = (u, sys1)"
    by fastforce
  let ?d = "d\<lparr>dv_sys := sys1, dv_pc := after_send r rs u\<rparr>"
  have s1: "dv_step maxr d ?d" using dv_send [OF assms(1) p] .
  show ?thesis
  proof (cases u)
    case (Inr v)
    then have pc: "dv_pc ?d = AtDelete r rs" by (simp add: after_send_def)
    obtain w ob where w: "store_del (re_db e) (row_id r) (ps_store (dv_sys ?d)) = (w, ob)" by fastforce
    have "d\<lparr>dv_sys := sys', dv_pc := pc_after rs oc\<rparr> = with_store ob (if raised w then AtEnd else AtRow rs) ?d"
      using assms(3) False p Inr w by (auto simp: retry_row_def with_store_def split: sum.splits)
    then show ?thesis using s1 dv_delete [OF pc assms(2) w] by (metis rtranclp.simps)
  next
    case (Inl x)
    show ?thesis
    proof (cases "is_not_ready x")
      case True
      then show ?thesis
        using assms(3) False p Inl by (auto simp: retry_row_def after_send_def intro!: step_to [OF s1])
    next
      case nr: False
      then have pc: "dv_pc ?d = AtFailed x r rs" using Inl by (simp add: after_send_def)
      show ?thesis
      proof (cases "maxr \<le> int (row_retry r) + 1")
        case True
        obtain w ob where w: "store_kill (re_db e) (row_id r) (exc_text x) (ps_store (dv_sys ?d)) = (w, ob)"
          by fastforce
        have "d\<lparr>dv_sys := sys', dv_pc := pc_after rs oc\<rparr> =
            with_store ob (if raised w then AtEnd else AtRow rs) ?d"
          using assms(3) False nr p Inl True w by (auto simp: retry_row_def with_store_def split: sum.splits)
        then show ?thesis using s1 dv_bury [OF pc True assms(2) w] by (metis rtranclp.simps)
      next
        case small: False
        obtain w ob where w: "store_mark (re_db e) (row_id r) (exc_text x) (ps_store (dv_sys ?d)) = (w, ob)"
          by fastforce
        have "d\<lparr>dv_sys := sys', dv_pc := pc_after rs oc\<rparr> =
            with_store ob (if raised w then AtEnd else AtFetch) ?d"
          using assms(3) False nr p Inl small w by (auto simp: retry_row_def with_store_def split: sum.splits)
        moreover have "int (row_retry r) + 1 < maxr" using small by simp
        ultimately show ?thesis using s1 dv_count [OF pc _ assms(2) w] by (metis rtranclp.simps)
      qed
    qed
  qed
qed

lemma retry_row_is_path_example:
  "\<exists>d'. (dv_step 3)\<^sup>*\<^sup>* (sample_delivery (AtRow [mk_row 1 7 sample_msg None])) d' \<and> dv_pc d' = AtRow []"
proof -
  let ?r = "mk_row 1 7 sample_msg None" and ?d = "sample_delivery (AtRow [mk_row 1 7 sample_msg None])"
  let ?res = "retry_row js_publish 3 (sample_row_env JsAck) ?r (dv_sys ?d)"
  have "store_good (re_db (sample_row_env JsAck))" by (simp add: store_good_def sample_row_env_def)
  moreover have oc: "fst ?res = RowSent"
    by (simp add: retry_row_def sample_delivery_def sample_sys_def sample_row_env_def publish_outbox_row_def
        js_publish_def sample_env_def sample_js_def Let_def store_del_def delete_def db_write_def)
  moreover have "dv_pc ?d = AtRow [?r]" by (simp add: sample_delivery_def)
  moreover have "?res = (RowSent, snd ?res)" using oc by (metis prod.collapse)
  ultimately have "(dv_step 3)\<^sup>*\<^sup>* ?d (?d\<lparr>dv_sys := snd ?res, dv_pc := pc_after [] RowSent\<rparr>)"
    using retry_row_is_path [of ?d ?r "[]" "sample_row_env JsAck" 3 RowSent "snd ?res"] by blast
  then show ?thesis by (intro exI conjI) (assumption, simp)
qed

text \<open>A whole turn of the thread, run on its own, is a path as well.\<close>

lemma retry_rows_is_path:
  assumes "\<forall>i. store_good (re_db (env i))"
  shows "dv_pc d = AtRow rs \<Longrightarrow> retry_rows js_publish maxr env rs (dv_sys d) = (b, sys') \<Longrightarrow>
    \<exists>pc. (dv_step maxr)\<^sup>*\<^sup>* d (d\<lparr>dv_sys := sys', dv_pc := pc\<rparr>)"
proof (induction rs arbitrary: d b)
  case Nil
  then have "d = d\<lparr>dv_sys := sys', dv_pc := AtRow []\<rparr>" by simp
  then show ?case by (metis rtranclp.rtrancl_refl)
next
  case (Cons r rs)
  obtain oc sys1 where oc: "retry_row js_publish maxr (env (row_id r)) r (dv_sys d) = (oc, sys1)" by fastforce
  let ?d = "d\<lparr>dv_sys := sys1, dv_pc := pc_after rs oc\<rparr>"
  have s: "(dv_step maxr)\<^sup>*\<^sup>* d ?d" using retry_row_is_path [OF Cons.prems(1) _ oc] assms by simp
  show ?case
  proof (cases "pc_after rs oc = AtRow rs")
    case True
    obtain b1 where b1: "retry_rows js_publish maxr env rs sys1 = (b1, sys')"
      using Cons.prems(2) oc True by (cases oc) (auto split: prod.splits)
    obtain pc where "(dv_step maxr)\<^sup>*\<^sup>* ?d (?d\<lparr>dv_sys := sys', dv_pc := pc\<rparr>)"
      using Cons.IH [of ?d b1] True b1 by auto
    then have "(dv_step maxr)\<^sup>*\<^sup>* d (d\<lparr>dv_sys := sys', dv_pc := pc\<rparr>)" using s by simp
    then show ?thesis ..
  next
    case False
    then have "sys' = sys1" using Cons.prems(2) oc by (cases oc) auto
    then show ?thesis using s by blast
  qed
qed

lemma retrier_cycle_is_path:
  assumes "dv_pc d = AtFetch" and "\<forall>i. store_good (re_db (ce_rows e i))"
    and "retrier_cycle js_publish e (rt, dv_sys d) = (w, rt', sys')"
  shows "\<exists>pc. (dv_step (rt_max_retries rt))\<^sup>*\<^sup>* d (d\<lparr>dv_sys := sys', dv_pc := pc\<rparr>)"
proof (cases "rt_alive rt \<and> \<not> ce_stop e \<and> \<not> raised (fetch_batch (ce_fetch e) (rt_batch_size rt) (ps_store (dv_sys d)))")
  case True
  then obtain rs where rs: "fetch_batch (ce_fetch e) (rt_batch_size rt) (ps_store (dv_sys d)) = Inr rs"
    by (auto simp: raised_def split: sum.splits)
  let ?d = "d\<lparr>dv_pc := AtRow rs\<rparr>"
  have s: "dv_step (rt_max_retries rt) d ?d" using dv_fetch [OF assms(1) rs] .
  obtain b sys1 where b: "retry_rows js_publish (rt_max_retries rt) (ce_rows e) rs (dv_sys ?d) = (b, sys1)" by fastforce
  have "sys' = sys1"
    using assms(3) True rs b by (cases rs) (auto simp: retrier_cycle_def split: batch_end.splits prod.splits)
  moreover obtain pc where "(dv_step (rt_max_retries rt))\<^sup>*\<^sup>* ?d (?d\<lparr>dv_sys := sys1, dv_pc := pc\<rparr>)"
    using retry_rows_is_path [OF assms(2) _ b] by auto
  ultimately have "(dv_step (rt_max_retries rt))\<^sup>*\<^sup>* d (d\<lparr>dv_sys := sys', dv_pc := pc\<rparr>)"
    using converse_rtranclp_into_rtranclp [of "dv_step (rt_max_retries rt)", OF s] by simp
  then show ?thesis ..
next
  case False
  then have "sys' = dv_sys d"
    using assms(3) by (auto simp: retrier_cycle_def raised_def split: if_splits sum.splits)
  then have "d = d\<lparr>dv_sys := sys', dv_pc := AtFetch\<rparr>" using assms(1) by simp
  then show ?thesis by (metis rtranclp.rtrancl_refl)
qed

lemma retrier_cycle_inv:
  assumes "dv_inv d" and "dv_pc d = AtFetch" and "\<forall>i. store_good (re_db (ce_rows e i))"
    and "retrier_cycle js_publish e (rt, dv_sys d) = (w, rt', sys')"
  shows "dv_inv (d\<lparr>dv_sys := sys'\<rparr>)"
proof -
  obtain pc where "(dv_step (rt_max_retries rt))\<^sup>*\<^sup>* d (d\<lparr>dv_sys := sys', dv_pc := pc\<rparr>)"
    using retrier_cycle_is_path [OF assms(2-4)] by blast
  then have "dv_inv (d\<lparr>dv_sys := sys', dv_pc := pc\<rparr>)" using inv_steps assms(1) by blast
  then show ?thesis using assms(2) by (simp add: dv_inv_def)
qed

end
