(* ===== verification/Gateway_Cycle.thy ===== *)
theory Gateway_Cycle
  imports Poller Dnp3_Reader Delivery
begin

text \<open>
  The poll cycle over the readers and the publisher of the gateway: \<open>polling\<close> interpreted for the
  yadnp3 reader, the dnp3py reader and the mock reader with the resilient JetStream publisher, the properties of a cycle,
  and what poller and retrier do together when the circuit breaker is open.
\<close>

interpretation yad_polling: polling yad_read yad_forget yad_live js_pub_good js_pub_inv js_pub_safe rp_outbox_full
  js_pub_publish
  by unfold_locales

interpretation dnp3_polling: polling dnp3_read dnp3_forget dnp3_live js_pub_good js_pub_inv js_pub_safe rp_outbox_full
  js_pub_publish
  by unfold_locales

interpretation mock_polling: polling mock_read mock_forget mock_live js_pub_good js_pub_inv js_pub_safe rp_outbox_full
  js_pub_publish
  by unfold_locales


definition sample_poll :: "('re, (js_reply, db_env) pub_env) poll_env \<Rightarrow> ('re, (js_reply, db_env) pub_env) cycle" where
  "sample_poll pe = \<lparr>cy_dev = (\<lambda>c. pe), cy_stop = (\<lambda>c. False), cy_order = (\<lambda>ds. ds), cy_fate = (\<lambda>c. InTime)\<rparr>"

definition sample_poll_env :: "'re \<Rightarrow> ('re, (js_reply, db_env) pub_env) poll_env" where
  "sample_poll_env re = \<lparr>pl_read = re, pl_corr = ''c1'', pl_iso = ''2024-01-01T00:00:00+00:00'', pl_ids = (\<lambda>i. ''m'' @ nat_str i),
     pl_pub = (\<lambda>i. sample_env JsAck DbOk)\<rparr>"

definition sample_state :: gw_state where
  "sample_state = snd (state_update True 90 (sample_config\<lparr>g_signals := [sample_signal]\<rparr>) (state_init True 24 NoFile))"

lemma sample_state_simps [simp]:
  "st_active sample_state" "st_signals sample_state = [sample_signal]" "st_devices sample_state = [sample_device]"
  "filter_readable_signals [sample_signal] = [sample_signal]"
  by (simp_all add: sample_state_def state_update_def state_init_def sample_config_def Let_def persist_def
      note_nonce_def filter_readable_signals_def readable_types_def sample_signal_def)


section \<open>Completeness and order\<close>

definition never_full :: "('pe \<Rightarrow> msg \<Rightarrow> 'b \<Rightarrow> unit res \<times> 'b) \<Rightarrow> bool" where
  "never_full pub \<longleftrightarrow> (\<forall>e m b x b'. pub e m b = (Inl x, b') \<longrightarrow> exc_class x \<noteq> ''OutboxFullError'')"

text \<open>The events of one read, numbered as in the loop.\<close>

definition events_of :: "string \<Rightarrow> device_config \<Rightarrow> ('re, 'pe) poll_env \<Rightarrow> nat \<Rightarrow> signal_reading list \<Rightarrow> msg list" where
  "events_of gw d e n rs = map (\<lambda>(i, r). reading_msg gw d e i r)
     (filter (\<lambda>(i, r). sr_quality r \<noteq> ''no_change'') (enumerate n rs))"

lemma publish_all:
  assumes "\<And>e m b. \<not> raised (fst (pub e m b))"
  shows "fst (publish_readings pub gw d e n rs b) = Inr (events_of gw d e n rs)"
proof (induction rs arbitrary: n b)
  case (Cons r rs)
  obtain u b1 where p: "pub (pl_pub e n) (reading_msg gw d e n r) b = (Inr u, b1)"
    using assms [of "pl_pub e n" "reading_msg gw d e n r" b]
    by (cases "pub (pl_pub e n) (reading_msg gw d e n r) b") (auto simp: raised_def split: sum.splits)
  obtain x b2 where "publish_readings pub gw d e (Suc n) rs b1 = (x, b2)" by fastforce
  then show ?case
    using Cons.IH [of "Suc n" b] Cons.IH [of "Suc n" b1] p by (simp add: events_of_def)
qed (simp add: events_of_def)

text \<open>C11: Every change is published, once and in order: when the reader answers and the publisher takes every
  message, a device's poll publishes exactly the readings that are not \<open>no_change\<close>, in signal order, each
  under its own id; when the reader raises, it publishes nothing.\<close>

theorem poll_device_complete:
  assumes "\<forall>e m b. \<not> raised (fst (pub e m b))" and "ss \<noteq> []" and "rd (pl_read e) d ss r = (x, r')"
  shows "\<exists>b'. poll_device rd pub gw e ss d (r, b) =
    (Inr (case x of Inl _ \<Rightarrow> [] | Inr rs \<Rightarrow> events_of gw d e 0 rs), r', b')"
proof (cases x)
  case (Inr rs)
  obtain z b1 where z: "publish_readings pub gw d e 0 rs b = (z, b1)" by fastforce
  then have "z = Inr (events_of gw d e 0 rs)" using publish_all [of pub gw d e 0 rs b] assms(1) by simp
  then show ?thesis using z Inr assms(2,3) by (simp add: poll_device_def)
qed (use assms(2,3) in \<open>simp add: poll_device_def\<close>)

theorem poll_device_complete_witness:
  "\<exists>b'. poll_device mock_read (\<lambda>e m b. (Inr (), b @ [m])) ''GW1'' (sample_poll_env [] :: (mock_draw list, (js_reply, db_env) pub_env) poll_env)
     [sample_signal] sample_device ((), []) =
   (Inr (events_of ''GW1'' sample_device (sample_poll_env [] :: (mock_draw list, (js_reply, db_env) pub_env) poll_env) 0
      [mock_generate \<lparr>md_unit = 0, md_int = 0\<rparr> sample_signal]), (), b')"
proof -
  have "mock_read (pl_read (sample_poll_env [] :: (mock_draw list, (js_reply, db_env) pub_env) poll_env)) sample_device [sample_signal] () =
      (Inr [mock_generate \<lparr>md_unit = 0, md_int = 0\<rparr> sample_signal], ())"
    by (simp add: mock_read_def sample_poll_env_def)
  from poll_device_complete [of "\<lambda>e m b. (Inr (), b @ [m])" "[sample_signal]" mock_read, OF _ _ this, of "''GW1''" "[]"]
  show ?thesis by simp
qed

section \<open>Which devices a cycle marks\<close>

lemma publish_readings_never_full:
  "never_full pub \<Longrightarrow> \<exists>ms. fst (publish_readings pub gw d e n rs b) = Inr ms"
proof (induction rs arbitrary: n b)
  case (Cons r rs)
  obtain u b1 where p: "pub (pl_pub e n) (reading_msg gw d e n r) b = (u, b1)" by fastforce
  obtain ms where "fst (publish_readings pub gw d e (Suc n) rs b1) = Inr ms" using Cons.IH Cons.prems by blast
  moreover obtain ms2 where "fst (publish_readings pub gw d e (Suc n) rs b) = Inr ms2"
    using Cons.IH Cons.prems by blast
  moreover have "exc_class x \<noteq> ''OutboxFullError''" if "u = Inl x" for x
    using Cons.prems p that unfolding never_full_def by blast
  ultimately show ?case using p by (auto split: sum.splits prod.splits)
qed simp

lemma poll_device_never_full: "never_full pub \<Longrightarrow> \<exists>ms. fst (poll_device rd pub gw e ss d x) = Inr ms"
  using publish_readings_never_full [of pub gw d e 0]
  by (auto simp: poll_device_def split: prod.splits sum.splits) (metis fst_conv)

text \<open>The serial path marks the due devices it got to, in order and at the cycle's time: always a prefix of
  the due list, and the whole list unless a shutdown was requested or a publish found the outbox full.\<close>

theorem serial_marks_prefix:
  assumes "serial_loop rd pub gw e now ss ds w = (ms, w')"
  shows "\<exists>k \<le> length ds. wd_state w' = marks (map (\<lambda>d. (d_code d, now)) (take k ds)) (wd_state w) \<and>
    (never_full pub \<and> (\<forall>d \<in> set ds. \<not> cy_stop e (d_code d)) \<longrightarrow> k = length ds)"
  using assms
proof (induction ds arbitrary: w ms)
  case (Cons d ds)
  show ?case
  proof (cases "cy_stop e (d_code d)")
    case False
    obtain r rd1 pb1 where p: "poll_device rd pub gw (cy_dev e (d_code d)) ss d (wd_reader w, wd_pub w) = (r, rd1, pb1)"
      by (metis prod_cases3)
    let ?w1 = "w\<lparr>wd_state := mark_read (d_code d) now (wd_state w), wd_reader := rd1, wd_pub := pb1\<rparr>"
    show ?thesis
    proof (cases r)
      case (Inl x)
      then have "wd_state w' = mark_read (d_code d) now (wd_state w)" "\<not> never_full pub"
        using Cons.prems False p poll_device_never_full [of pub rd gw "cy_dev e (d_code d)" ss d "(wd_reader w, wd_pub w)"]
        by (auto simp: Let_def)
      then show ?thesis by (intro exI [of _ 1]) simp
    next
      case (Inr ms1)
      obtain ms2 where s: "serial_loop rd pub gw e now ss ds ?w1 = (ms2, w')"
        using Cons.prems False p Inr by (auto simp: Let_def split: prod.splits)
      obtain k where "k \<le> length ds"
          "wd_state w' = marks (map (\<lambda>d. (d_code d, now)) (take k ds)) (wd_state ?w1)"
          "never_full pub \<and> (\<forall>d \<in> set ds. \<not> cy_stop e (d_code d)) \<longrightarrow> k = length ds"
        using Cons.IH [OF s] by blast
      then show ?thesis by (intro exI [of _ "Suc k"]) simp
    qed
  qed (use Cons.prems in \<open>auto intro!: exI [of _ 0]\<close>)
qed simp

theorem serial_marks_prefix_witness:
  "\<exists>k \<le> 1. wd_state (snd (serial_loop mock_read js_pub_publish ''GW1'' (sample_poll (sample_poll_env [])) 100 [sample_signal]
     [sample_device] \<lparr>wd_state = sample_state, wd_reader = (), wd_pub = sample_sys\<rparr>)) =
   marks (map (\<lambda>d. (d_code d, 100)) (take k [sample_device])) sample_state"
  using serial_marks_prefix [of mock_read js_pub_publish "''GW1''" "sample_poll (sample_poll_env [])" 100 "[sample_signal]"
     "[sample_device]" "\<lparr>wd_state = sample_state, wd_reader = (), wd_pub = sample_sys\<rparr>", OF surjective_pairing] by auto

section \<open>Serial and parallel path\<close>



section \<open>An open breaker with an empty outbox\<close>

text \<open>The poller's cycles, the retrier's turns and the connection's events, in any order.\<close>

datatype ('re, 'r) gw_event =
    PollCycle "('re, (js_reply, db_env) pub_env) cycle" clock int
  | RetrierTurn "js_reply cycle_env"
  | NetworkEvent jetstream

fun gw_event_step ::
  "('re \<Rightarrow> device_config \<Rightarrow> signal_config list \<Rightarrow> 'r \<Rightarrow> signal_reading list res \<times> 'r) \<Rightarrow>
   (string set \<Rightarrow> 'r \<Rightarrow> nat \<times> 'r) \<Rightarrow> string \<Rightarrow> ('re, 'r) gw_event \<Rightarrow>
   retrier \<times> ('r, (jetstream, outbox) pub_sys) world \<Rightarrow> retrier \<times> ('r, (jetstream, outbox) pub_sys) world" where
  "gw_event_step rd forget gw (PollCycle e now mp) (rt, w) =
     (rt, snd (run_poll_cycle rd forget js_pub_publish rp_outbox_full gw e now mp w))"
| "gw_event_step rd forget gw (RetrierTurn e) (rt, w) =
     (case retrier_cycle js_publish e (rt, wd_pub w) of (_, rt1, sys1) \<Rightarrow> (rt1, w\<lparr>wd_pub := sys1\<rparr>))"
| "gw_event_step rd forget gw (NetworkEvent js) (rt, w) = (rt, w\<lparr>wd_pub := (wd_pub w)\<lparr>ps_broker := js\<rparr>\<rparr>)"

lemma latched_poll:
  assumes "rp_outbox_full (wd_pub w)"
  shows "wd_pub (snd (run_poll_cycle rd forget pub rp_outbox_full gw e now mp w)) = wd_pub w"
  using assms by (auto simp: run_poll_cycle_def Let_def)

lemma latched_retrier:
  assumes "t_rows (work (ps_store sys)) = []"
  shows "snd (snd (retrier_cycle js_publish e (rt, sys))) = sys"
  using assms by (auto simp: retrier_cycle_def fetch_batch_def Let_def split: db_fault.splits)

text \<open>C34: A breaker that trips on an empty outbox never closes: once a publish failed because the database
  failed while the outbox held no row, no sequence of poll cycles, retrier turns and connection events,
  a recovered broker included, publishes anything or clears the flag; the poller waits for the retrier
  and the retrier has nothing to send.\<close>

theorem breaker_latch:
  assumes "rp_outbox_full (wd_pub w)" and "t_rows (work (ps_store (wd_pub w))) = []"
    and "fold (gw_event_step rd forget gw) evs (rt, w) = (rt', w')"
  shows "rp_outbox_full (wd_pub w') \<and> ps_store (wd_pub w') = ps_store (wd_pub w)"
  using assms
proof (induction evs arbitrary: rt w)
  case (Cons ev evs)
  obtain rt1 w1 where s: "gw_event_step rd forget gw ev (rt, w) = (rt1, w1)" by fastforce
  have "rp_outbox_full (wd_pub w1) \<and> ps_store (wd_pub w1) = ps_store (wd_pub w)"
  proof (cases ev)
    case (PollCycle e now mp)
    then show ?thesis using s latched_poll [OF Cons.prems(1), of rd forget js_pub_publish gw e now mp] Cons.prems(1) by auto
  next
    case (RetrierTurn e)
    then show ?thesis using s latched_retrier [OF Cons.prems(2), of e rt] Cons.prems(1) by (auto split: prod.splits)
  next
    case (NetworkEvent js)
    then show ?thesis using s Cons.prems(1) by (auto simp: rp_outbox_full_def)
  qed
  then show ?case using Cons.IH [of w1 rt1] Cons.prems s by auto
qed simp

theorem breaker_latch_witness:
  "rp_outbox_full (wd_pub (snd (fold (gw_event_step mock_read mock_forget ''GW1'')
     [NetworkEvent sample_js, RetrierTurn (sample_cycle JsAck), PollCycle (sample_poll (sample_poll_env [])) 100 1]
     (sample_retrier, \<lparr>wd_state = sample_state, wd_reader = (),
        wd_pub = \<lparr>ps_broker = sample_js, ps_store = sample_outbox, ps_rp = set_outbox_full 3 ''outbox_io_error'' rp_init\<rparr>\<rparr>))))"
proof -
  let ?w = "\<lparr>wd_state = sample_state, wd_reader = (),
        wd_pub = \<lparr>ps_broker = sample_js, ps_store = sample_outbox, ps_rp = set_outbox_full 3 ''outbox_io_error'' rp_init\<rparr>\<rparr>"
  have "rp_outbox_full (wd_pub ?w)" "t_rows (work (ps_store (wd_pub ?w))) = []"
    by (simp_all add: rp_outbox_full_def set_outbox_full_def sample_outbox_def outbox_init_def empty_tables_def)
  from breaker_latch [OF this surjective_pairing] show ?thesis by blast
qed

end
