(* ===== verification/Scrubbing.thy ===== *)
theory Scrubbing
  imports Prelude
begin

text \<open>
  Facts on \<open>str.replace\<close> with the mark \<open>***REDACTED***\<close>, shared by the configuration client and the log filter: the
  replaced text is gone, and what was absent stays absent.
\<close>

lemma replace_prefix:
  assumes "prefix q (replace_ne p (x # ys) s)" "x \<notin> set q"
  shows "prefix q s"
  using assms
proof (induction p "x # ys" s arbitrary: q rule: replace_ne.induct)
  case (2 p c cs)
  show ?case
  proof (cases "p \<noteq> [] \<and> prefix p (c # cs)")
    case True
    then have "prefix q (x # ys @ replace_ne p (x # ys) (drop (length p) (c # cs)))"
      using "2.prems"(1) by simp
    then have "q = []" using "2.prems"(2) by (cases q) auto
    then show ?thesis by simp
  next
    case False
    then have "prefix q (c # replace_ne p (x # ys) cs)" using "2.prems"(1) by auto
    then show ?thesis using "2.hyps"(2) [OF False] "2.prems"(2) by (cases q) auto
  qed
qed simp

lemma sublist_skip: "sublist p (x # ys) \<Longrightarrow> p \<noteq> [] \<Longrightarrow> x \<notin> set p \<Longrightarrow> sublist p ys"
  by (auto simp: sublist_Cons_right prefix_Cons)

lemma sublist_skip_mark:
  assumes "sublist p (a @ x # ys)" "p \<noteq> []" "x \<notin> set p"
  shows "sublist p a \<or> sublist p ys"
  using assms(1)
proof (induction a)
  case Nil
  then show ?case using sublist_skip assms(2,3) by fastforce
next
  case (Cons b a)
  then consider (1) "prefix p (b # a @ x # ys)" | (2) "sublist p (a @ x # ys)"
    by (auto simp: sublist_Cons_right)
  then show ?case
  proof cases
    case 1
    then have "prefix p (b # a)"
      using assms(3) prefix_append [of p "b # a" "x # ys"] by (auto simp: prefix_Cons)
    then show ?thesis by (simp add: prefix_imp_sublist)
  qed (use Cons.IH in \<open>auto simp: sublist_Cons_right\<close>)
qed

lemma sublist_redacted:
  assumes "sublist t (''***REDACTED***'' @ r)" "t \<noteq> []" "CHR ''*'' \<notin> set t"
  shows "sublist t ''REDACTED'' \<or> sublist t r"
proof -
  have "''***REDACTED***'' @ r = ''***REDACTED**'' @ CHR ''*'' # r" by simp
  then have "sublist t ''***REDACTED**'' \<or> sublist t r"
    using sublist_skip_mark [of t "''***REDACTED**''" "CHR ''*''" r] assms by simp
  moreover have "sublist t ''REDACTED''" if "sublist t ''***REDACTED**''"
  proof -
    have "''***REDACTED**'' = ''***REDACTED'' @ CHR ''*'' # ''*''" by simp
    then have "sublist t ''***REDACTED'' \<or> sublist t ''*''"
      using sublist_skip_mark [of t "''***REDACTED''" "CHR ''*''" "''*''"] assms(2,3) that by simp
    moreover have "\<not> sublist t ''*''"
      using sublist_skip [of t "CHR ''*''" "[]"] assms(2,3) by auto
    ultimately have "sublist t ''***REDACTED''" by simp
    from sublist_skip [OF sublist_skip [OF sublist_skip [OF this assms(2,3)] assms(2,3)] assms(2,3)]
    show ?thesis .
  qed
  ultimately show ?thesis by blast
qed

lemma replace_removes:
  assumes "t \<noteq> []" "CHR ''*'' \<notin> set t" "\<not> sublist t ''REDACTED''"
  shows "\<not> sublist t (replace_ne t ''***REDACTED***'' s)"
proof (induction s rule: length_induct)
  case (1 s)
  show ?case
  proof (cases s)
    case (Cons c cs)
    show ?thesis
    proof (cases "prefix t (c # cs)")
      case True
      have "length (drop (length t) (c # cs)) < length s" using Cons assms(1) by (cases t) auto
      then have "\<not> sublist t (replace_ne t ''***REDACTED***'' (drop (length t) (c # cs)))"
        using 1 by blast
      moreover have "replace_ne t ''***REDACTED***'' s =
          ''***REDACTED***'' @ replace_ne t ''***REDACTED***'' (drop (length t) (c # cs))"
        using True Cons assms(1) by simp
      ultimately show ?thesis
        using sublist_redacted [of t] assms by metis
    next
      case False
      then have r: "replace_ne t ''***REDACTED***'' s = c # replace_ne t ''***REDACTED***'' cs"
        using Cons by simp
      have "\<not> prefix t (c # replace_ne t ''***REDACTED***'' cs)"
      proof
        assume p: "prefix t (c # replace_ne t ''***REDACTED***'' cs)"
        then obtain q where q: "t = c # q" "prefix q (replace_ne t ''***REDACTED***'' cs)"
          using assms(1) by (cases t) auto
        then have "prefix q cs"
          using replace_prefix [of q t "CHR ''*''" "''**REDACTED***''" cs] assms(2) by auto
        with q(1) False show False by simp
      qed
      then show ?thesis
        unfolding r using 1 Cons by (auto simp: sublist_Cons_right)
    qed
  qed (use assms(1) in simp)
qed

lemma replace_absent: "\<not> sublist t s \<Longrightarrow> replace_ne t new s = s"
  by (induction s) (auto simp: sublist_Cons_right)

lemma replace_keeps_out:
  assumes "t \<noteq> []" "CHR ''*'' \<notin> set t" "\<not> sublist t ''REDACTED''"
  shows "\<not> sublist t s \<Longrightarrow> \<not> sublist t (replace_ne old ''***REDACTED***'' s)"
proof (induction s rule: length_induct)
  case (1 s)
  show ?case
  proof (cases s)
    case (Cons c cs)
    show ?thesis
    proof (cases "old \<noteq> [] \<and> prefix old (c # cs)")
      case True
      then have r: "replace_ne old ''***REDACTED***'' s =
          ''***REDACTED***'' @ replace_ne old ''***REDACTED***'' (drop (length old) (c # cs))"
        using Cons by simp
      have "length (drop (length old) (c # cs)) < length s" using Cons True by (cases old) auto
      moreover have "\<not> sublist t (drop (length old) (c # cs))"
        using "1.prems" Cons by (meson sublist_drop sublist_order.order.trans)
      ultimately have "\<not> sublist t (replace_ne old ''***REDACTED***'' (drop (length old) (c # cs)))"
        using "1.IH" by blast
      then show ?thesis unfolding r using sublist_redacted [of t] assms by metis
    next
      case False
      then have r: "replace_ne old ''***REDACTED***'' s = c # replace_ne old ''***REDACTED***'' cs" using Cons by auto
      have "\<not> prefix t (c # replace_ne old ''***REDACTED***'' cs)"
      proof
        assume "prefix t (c # replace_ne old ''***REDACTED***'' cs)"
        then obtain q where q: "t = c # q" "prefix q (replace_ne old ''***REDACTED***'' cs)"
          using assms(1) by (cases t) auto
        then have "prefix q cs"
          using replace_prefix [of q old "CHR ''*''" "''**REDACTED***''" cs] assms(2) by auto
        with q(1) show False using "1.prems" Cons by (simp add: prefix_imp_sublist)
      qed
      moreover have "\<not> sublist t cs" using "1.prems" Cons by (auto simp: sublist_Cons_right)
      then have "\<not> sublist t (replace_ne old ''***REDACTED***'' cs)" using "1.IH" Cons by simp
      ultimately show ?thesis unfolding r by (auto simp: sublist_Cons_right)
    qed
  qed (use assms(1) in simp)
qed

end
