(* ===== verification/Config_Parse.thy ===== *)
theory Config_Parse
  imports Config_Types Scrubbing
begin

text \<open>
  \<open>backend/config_client.py\<close>: what the gateway makes of the backend's answer. \<open>_parse_gateway_config\<close>
  takes any JSON object; the helpers turn its fields into numbers and texts. \<open>fetch_config\<close> reads the
  answer under a size limit. Logging is left out. \<open>shw\<close> is the text of floats and containers
  (\<open>py_str\<close>). Exceptions other than \<open>TypeError\<close> and \<open>ValueError\<close> pass through the handlers, as in
  Python.
\<close>

section \<open>Field parsers\<close>

text \<open>\<open>_parse_optional_dnp3_tcp_port\<close> and \<open>_parse_optional_master_address\<close>: the first key with a valid
  number wins.\<close>

fun first_in_range :: "int \<Rightarrow> int \<Rightarrow> json list \<Rightarrow> int option res" where
  "first_in_range lo hi [] = Inr None"
| "first_in_range lo hi (v # vs) =
     (if none_or_empty v then first_in_range lo hi vs
      else case py_int v of
        Inl x \<Rightarrow> if type_or_value_error x then first_in_range lo hi vs else Inl x
      | Inr p \<Rightarrow> if lo \<le> p \<and> p \<le> hi then Inr (Some p) else first_in_range lo hi vs)"

definition parse_optional_tcp_port :: "obj \<Rightarrow> int option res" where
  "parse_optional_tcp_port item =
     first_in_range 1 65535 (map (oget item) [''dnp3_tcp_port'', ''dnp3_port'', ''tcp_port''])"

definition parse_optional_master_address :: "obj \<Rightarrow> int option res" where
  "parse_optional_master_address item =
     first_in_range 0 65519 (map (oget item) [''master_address'', ''dnp3_master_address'', ''local_address''])"

definition rewrite_loopback_ip :: "bool \<Rightarrow> string \<Rightarrow> string" where
  "rewrite_loopback_ip enabled ip =
     (if enabled \<and> py_lower (py_strip ip) \<in> {''127.0.0.1'', ''localhost'', ''0.0.0.0'', ''::1''}
      then ''host.docker.internal'' else ip)"

definition rewrite_flag :: "string option \<Rightarrow> bool" where
  \<comment> \<open>\<open>REWRITE_LOOPBACK_TO_HOST\<close>\<close>
  "rewrite_flag env = (py_lower (py_strip (case env of None \<Rightarrow> ''true'' | Some s \<Rightarrow> s))
     \<notin> {''0'', ''false'', ''no'', ''off''})"

definition scrub_token :: "string \<Rightarrow> string option \<Rightarrow> string" where
  "scrub_token text token = (case token of None \<Rightarrow> text
     | Some t \<Rightarrow> if length t < 6 then text else py_replace t ''***REDACTED***'' text)"

definition truncate_field :: "(json \<Rightarrow> string) \<Rightarrow> json \<Rightarrow> nat \<Rightarrow> string" where
  "truncate_field shw v n = (if v = JNull then [] else take n (py_str shw v))"

definition is_safe_device_ip :: "string \<Rightarrow> bool" where
  "is_safe_device_ip ip \<longleftrightarrow> py_strip ip = [] \<or>
     (let s = py_strip ip in \<not> py_in ''://'' s \<and> CHR ''/'' \<notin> set s \<and> CHR 0x5C \<notin> set s \<and> CHR '' '' \<notin> set s)"

definition safe_int :: "json \<Rightarrow> int \<Rightarrow> int \<Rightarrow> int \<Rightarrow> int res" where
  "safe_int v dflt lo hi =
     (if none_or_empty v then Inr dflt
      else case py_int v of
        Inl x \<Rightarrow> if type_or_value_error x then Inr dflt else Inl x
      | Inr n \<Rightarrow> if n < lo \<or> n > hi then Inr dflt else Inr n)"

definition safe_finite_float :: "json \<Rightarrow> pyfloat \<Rightarrow> pyfloat res" where
  "safe_finite_float v dflt =
     (if none_or_empty v then Inr dflt
      else case py_float v of
        Inl x \<Rightarrow> if type_or_value_error x then Inr dflt else Inl x
      | Inr f \<Rightarrow> if is_finite f then Inr f else Inr dflt)"

section \<open>One device, one signal\<close>

text \<open>Sequencing of expressions that may raise.\<close>

definition and_then :: "'a res \<Rightarrow> ('a \<Rightarrow> 'b res) \<Rightarrow> 'b res" where
  "and_then r f = (case r of Inl x \<Rightarrow> Inl x | Inr v \<Rightarrow> f v)"

definition endpoint_type :: "(json \<Rightarrow> string) \<Rightarrow> obj \<Rightarrow> string" where
  "endpoint_type shw item =
     (let t = py_lower (py_strip (py_str shw (py_or (oget item ''ip_endpoint_type'') (JStr []))))
      in if t \<in> {''initiating'', ''listening''} then t else ''listening'')"

definition master_ip_port :: "obj \<Rightarrow> int option res" where
  "master_ip_port item = (let v = oget item ''master_ip_port'' in
     if none_or_empty v \<or> eq_zero v then Inr None
     else and_then (py_int v) (\<lambda>n. Inr (if 1 \<le> n \<and> n \<le> 65535 then Some n else None)))"

text \<open>The address is parsed with \<open>_safe_int\<close> and then compared with \<open>int(...)\<close> of the raw value for a
  log line; that \<open>int\<close> may raise.\<close>

definition device_address :: "obj \<Rightarrow> int res" where
  "device_address item = (let v = oget item ''dnp3_address'' in
     and_then (safe_int v 1 0 65519) (\<lambda>a.
       if none_or_empty v then Inr a
       else and_then (py_int (py_or v (JInt 0))) (\<lambda>_. Inr a)))"

definition build_device :: "(json \<Rightarrow> string) \<Rightarrow> bool \<Rightarrow> string \<Rightarrow> obj \<Rightarrow> device_config res" where
  "build_device shw rewrite raw_ip item =
     and_then (device_address item) (\<lambda>addr.
     and_then (parse_optional_tcp_port item) (\<lambda>tcp.
     and_then (parse_optional_master_address item) (\<lambda>maddr.
     and_then (master_ip_port item) (\<lambda>mport.
     and_then (safe_int (oget item ''poll_interval_sec'') 5 1 3600) (\<lambda>poll.
     and_then (safe_int (oget item ''timeout_ms'') 3000 100 60000) (\<lambda>tmo.
     and_then (safe_int (oget item ''retry_count'') 2 0 20) (\<lambda>retry.
       Inr \<lparr>d_code = truncate_field shw (oget item ''code'') 64,
            d_name = truncate_field shw (py_or (oget item ''name'') (oget item ''code'')) 256,
            d_ip = rewrite_loopback_ip rewrite raw_ip,
            d_address = addr, d_tcp_port = tcp, d_master_address = maddr,
            d_endpoint = endpoint_type shw item, d_master_port = mport,
            d_poll_interval = poll, d_timeout_ms = tmo, d_retry_count = retry,
            d_profile = truncate_field shw
              (py_or (oget item ''signal_profile'') (JStr ''horstmann_sn2_fixed'')) 64\<rparr>)))))))"

text \<open>\<open>None\<close> skips the entry: not an object, no code, an unsafe address, or a caught exception.\<close>

definition caught :: "'a res \<Rightarrow> 'a option res" where
  "caught r = (case r of Inl x \<Rightarrow> if type_or_value_error x then Inr None else Inl x
     | Inr v \<Rightarrow> Inr (Some v))"

definition parse_device :: "(json \<Rightarrow> string) \<Rightarrow> bool \<Rightarrow> json \<Rightarrow> device_config option res" where
  "parse_device shw rewrite j = (case j of
       JObj item \<Rightarrow>
         (if \<not> truthy (oget item ''code'') then Inr None
          else let raw_ip = py_str shw (py_or (oget item ''ip_address'') (JStr []))
               in if \<not> is_safe_device_ip raw_ip then Inr None
                  else caught (build_device shw rewrite raw_ip item))
     | _ \<Rightarrow> Inr None)"

definition build_signal :: "(json \<Rightarrow> string) \<Rightarrow> obj \<Rightarrow> signal_config res" where
  "build_signal shw item =
     and_then (safe_finite_float (oget item ''scale'') (Fin 1)) (\<lambda>sc.
     and_then (safe_finite_float (oget item ''offset'') (Fin 0)) (\<lambda>off.
     and_then (safe_int (oget item ''dnp3_object_group'') 30 0 255) (\<lambda>grp.
     and_then (safe_int (oget item ''dnp3_index'') 0 0 65535) (\<lambda>idx.
       Inr \<lparr>s_key = truncate_field shw (oget item ''key'') 64,
            s_label = truncate_field shw (py_or (oget item ''label'') (oget item ''key'')) 256,
            s_unit = (if truthy (oget item ''unit'')
                      then Some (truncate_field shw (oget item ''unit'') 32) else None),
            s_source = truncate_field shw (py_or (oget item ''source'') (JStr ''master'')) 64,
            s_class = truncate_field shw (py_or (oget item ''dnp3_class'') (JStr ''Class 1'')) 64,
            s_type = truncate_field shw (py_or (oget item ''data_type'') (JStr ''analog'')) 64,
            s_group = grp, s_index = idx, s_scale = sc, s_offset = off,
            s_alarm = truthy (oget item ''supports_alarm'')\<rparr>))))"

definition parse_signal :: "(json \<Rightarrow> string) \<Rightarrow> json \<Rightarrow> signal_config option res" where
  "parse_signal shw j = (case j of
       JObj item \<Rightarrow> if truthy (oget item ''key'') then caught (build_signal shw item) else Inr None
     | _ \<Rightarrow> Inr None)"

section \<open>The whole answer\<close>

fun collect :: "('a \<Rightarrow> 'b option res) \<Rightarrow> 'a list \<Rightarrow> 'b list res" where
  "collect f [] = Inr []"
| "collect f (x # xs) = (case f x of Inl e \<Rightarrow> Inl e
     | Inr y \<Rightarrow> and_then (collect f xs) (\<lambda>ys. Inr (case y of None \<Rightarrow> ys | Some z \<Rightarrow> z # ys)))"

definition config_error :: "string \<Rightarrow> pyexc" where
  "config_error t = PyExc ''GatewayConfigError'' t"

fun type_name :: "json \<Rightarrow> string" where
  "type_name JNull = ''NoneType''"
| "type_name (JBool _) = ''bool''"
| "type_name (JInt _) = ''int''"
| "type_name (JFloat _) = ''float''"
| "type_name (JStr _) = ''str''"
| "type_name (JArr _) = ''list''"
| "type_name (JObj _) = ''dict''"

definition as_list :: "string \<Rightarrow> json \<Rightarrow> json list res" where
  "as_list field v = (case py_or v (JArr []) of JArr xs \<Rightarrow> Inr xs
     | w \<Rightarrow> Inl (config_error (''config response '' @ [CHR 0x27] @ field @ [CHR 0x27] @
              '' list olmali (gelen tip: '' @ type_name w @ '')'')))"

definition nonce_of :: "json \<Rightarrow> int res" where
  "nonce_of v = (case py_int (py_or v (JInt 0)) of
       Inl x \<Rightarrow> if type_or_value_error x then Inr 0 else Inl x
     | Inr n \<Rightarrow> Inr n)"

definition parse_gateway_config ::
  "(json \<Rightarrow> string) \<Rightarrow> string option \<Rightarrow> obj \<Rightarrow> string \<Rightarrow> gateway_config res" where
  "parse_gateway_config shw env data default_code =
     and_then (as_list ''devices'' (oget data ''devices'')) (\<lambda>dr.
     and_then (collect (parse_device shw (rewrite_flag env)) (take 1000 dr)) (\<lambda>devs.
     and_then (as_list ''signals'' (oget data ''signals'')) (\<lambda>sr.
     and_then (collect (parse_signal shw) (take 5000 sr)) (\<lambda>sigs.
     and_then (nonce_of (oget data ''refresh_nonce'')) (\<lambda>nonce.
     and_then (py_int (py_or (oget_default data ''batch_interval_sec'' (JInt 5)) (JInt 5))) (\<lambda>batch.
     and_then (py_int (py_or (oget_default data ''max_devices'' (JInt 200)) (JInt 200))) (\<lambda>maxd.
       Inr \<lparr>g_code = py_str shw (py_or (oget data ''gateway_code'') (JStr default_code)),
            g_name = py_str shw (py_or (oget data ''gateway_name'') (JStr [])),
            g_batch_interval = batch, g_max_devices = maxd,
            g_active = truthy (oget_default data ''is_active'' (JBool True)),
            g_version = py_str shw (py_or (oget data ''config_version'') (JStr [])),
            g_devices = devs, g_signals = sigs, g_nonce = nonce\<rparr>)))))))"


section \<open>Fetching\<close>

text \<open>
  What the HTTP library reports: the request fails, or there is a response whose body arrives in
  chunks and may break off. \<open>loads\<close> is UTF-8 decoding and \<open>json.loads\<close> of the body, with the text of
  its exception.
\<close>

record http_response =
  hr_status :: int
  hr_content_length :: "string option"
  hr_preview :: string
  hr_chunks :: "string list"
  hr_broken :: "string option"

datatype http_result = HttpFailed string | HttpOk http_response

fun read_chunks :: "nat \<Rightarrow> nat \<Rightarrow> string list \<Rightarrow> string res" where
  "read_chunks limit got [] = Inr []"
| "read_chunks limit got (c # cs) =
     (if c = [] then read_chunks limit got cs
      else if got + length c > limit
      then Inl (config_error (''config response exceeded limit during streaming: received='' @
             nat_str (got + length c) @ '' bytes limit='' @ nat_str limit))
      else and_then (read_chunks limit (got + length c) cs) (\<lambda>b. Inr (c @ b)))"

definition content_length :: "http_response \<Rightarrow> int" where
  "content_length r = (case hr_content_length r of None \<Rightarrow> 0
     | Some s \<Rightarrow> (case parse_int (if s = [] then ''0'' else s) of None \<Rightarrow> 0 | Some n \<Rightarrow> n))"

definition response_limit :: "int \<Rightarrow> nat" where
  "response_limit n = nat (max (64 * 1024) n)"

definition read_body :: "nat \<Rightarrow> string \<Rightarrow> http_response \<Rightarrow> string res" where
  "read_body limit token r = and_then (read_chunks limit 0 (hr_chunks r)) (\<lambda>b.
     case hr_broken r of None \<Rightarrow> Inr b
     | Some t \<Rightarrow> Inl (config_error (''config response read failed: '' @ scrub_token t (Some token))))"

definition fetch_config ::
  "(json \<Rightarrow> string) \<Rightarrow> string option \<Rightarrow> (string \<Rightarrow> string + json) \<Rightarrow> int \<Rightarrow> string \<Rightarrow> string \<Rightarrow>
   http_result \<Rightarrow> gateway_config res" where
  "fetch_config shw env loads max_bytes token code h = (case h of
       HttpFailed t \<Rightarrow> Inl (config_error (''config request failed: '' @ scrub_token t (Some token)))
     | HttpOk r \<Rightarrow>
         (let limit = response_limit max_bytes in
          if content_length r > int limit
          then Inl (config_error (''config response too large: content_length='' @
                 int_str (content_length r) @ '' bytes (limit='' @ nat_str limit @ '')''))
          else if hr_status r \<noteq> 200
          then Inl (config_error (''config request returned '' @ int_str (hr_status r) @ '': '' @
                 scrub_token (take 200 (hr_preview r)) (Some token)))
          else and_then (read_body limit token r) (\<lambda>b. case loads b of
              Inl t \<Rightarrow> Inl (config_error (''config response is not json: '' @ t))
            | Inr (JObj data) \<Rightarrow> parse_gateway_config shw env data code
            | Inr v \<Rightarrow> Inl (config_error (''config response root must be object, got '' @ type_name v)))))"

section \<open>What a parsed configuration satisfies\<close>

definition opt_in :: "int \<Rightarrow> int \<Rightarrow> int option \<Rightarrow> bool" where
  "opt_in lo hi v \<longleftrightarrow> (case v of None \<Rightarrow> True | Some n \<Rightarrow> lo \<le> n \<and> n \<le> hi)"

definition device_ok :: "device_config \<Rightarrow> bool" where
  "device_ok d \<longleftrightarrow> length (d_code d) \<le> 64 \<and> length (d_name d) \<le> 256 \<and>
     0 \<le> d_address d \<and> d_address d \<le> 65519 \<and> opt_in 1 65535 (d_tcp_port d) \<and>
     opt_in 0 65519 (d_master_address d) \<and> d_endpoint d \<in> {''initiating'', ''listening''} \<and>
     opt_in 1 65535 (d_master_port d) \<and> 1 \<le> d_poll_interval d \<and> d_poll_interval d \<le> 3600 \<and>
     100 \<le> d_timeout_ms d \<and> d_timeout_ms d \<le> 60000 \<and> 0 \<le> d_retry_count d \<and> d_retry_count d \<le> 20 \<and>
     length (d_profile d) \<le> 64 \<and> is_safe_device_ip (d_ip d)"

definition signal_ok :: "signal_config \<Rightarrow> bool" where
  "signal_ok s \<longleftrightarrow> length (s_key s) \<le> 64 \<and> length (s_label s) \<le> 256 \<and>
     (case s_unit s of None \<Rightarrow> True | Some u \<Rightarrow> length u \<le> 32) \<and> length (s_source s) \<le> 64 \<and>
     length (s_class s) \<le> 64 \<and> length (s_type s) \<le> 64 \<and> 0 \<le> s_group s \<and> s_group s \<le> 255 \<and>
     0 \<le> s_index s \<and> s_index s \<le> 65535 \<and> is_finite (s_scale s) \<and> is_finite (s_offset s)"

definition config_ok :: "gateway_config \<Rightarrow> bool" where
  "config_ok g \<longleftrightarrow> length (g_devices g) \<le> 1000 \<and> length (g_signals g) \<le> 5000 \<and>
     list_all device_ok (g_devices g) \<and> list_all signal_ok (g_signals g)"

lemma and_then_Inr: "and_then r f = Inr y \<longleftrightarrow> (\<exists>v. r = Inr v \<and> f v = Inr y)"
  by (simp add: and_then_def split: sum.splits)

lemma and_then_simps [simp]: "and_then (Inr v) f = f v" "and_then (Inl x) f = Inl x"
  by (simp_all add: and_then_def)

lemma first_in_range_ok: "first_in_range lo hi vs = Inr p \<Longrightarrow> opt_in lo hi p"
  by (induction lo hi vs rule: first_in_range.induct)
    (auto simp: opt_in_def split: if_splits sum.splits)

lemma safe_int_ok: "safe_int v d lo hi = Inr n \<Longrightarrow> lo \<le> d \<Longrightarrow> d \<le> hi \<Longrightarrow> lo \<le> n \<and> n \<le> hi"
  by (auto simp: safe_int_def split: if_splits sum.splits)

lemma safe_finite_float_ok: "safe_finite_float v d = Inr f \<Longrightarrow> is_finite d \<Longrightarrow> is_finite f"
  by (auto simp: safe_finite_float_def split: if_splits sum.splits)

lemma truncate_field_len: "length (truncate_field shw v n) \<le> n"
  by (simp add: truncate_field_def)

lemma endpoint_type_ok: "endpoint_type shw item \<in> {''initiating'', ''listening''}"
  by (simp add: endpoint_type_def Let_def)

lemma host_is_safe: "is_safe_device_ip ''host.docker.internal''"
  by code_simp

lemma rewrite_safe: "is_safe_device_ip ip \<Longrightarrow> is_safe_device_ip (rewrite_loopback_ip b ip)"
  by (simp add: rewrite_loopback_ip_def host_is_safe)

lemma build_device_ok:
  assumes "build_device shw rw ip item = Inr d" "is_safe_device_ip ip"
  shows "device_ok d"
proof -
  obtain addr tcp maddr mport poll tmo retry where
    a: "device_address item = Inr addr" and b: "parse_optional_tcp_port item = Inr tcp"
    and c: "parse_optional_master_address item = Inr maddr" and e: "master_ip_port item = Inr mport"
    and f: "safe_int (oget item ''poll_interval_sec'') 5 1 3600 = Inr poll"
    and g: "safe_int (oget item ''timeout_ms'') 3000 100 60000 = Inr tmo"
    and h: "safe_int (oget item ''retry_count'') 2 0 20 = Inr retry"
    and d: "d = \<lparr>d_code = truncate_field shw (oget item ''code'') 64,
            d_name = truncate_field shw (py_or (oget item ''name'') (oget item ''code'')) 256,
            d_ip = rewrite_loopback_ip rw ip,
            d_address = addr, d_tcp_port = tcp, d_master_address = maddr,
            d_endpoint = endpoint_type shw item, d_master_port = mport,
            d_poll_interval = poll, d_timeout_ms = tmo, d_retry_count = retry,
            d_profile = truncate_field shw
              (py_or (oget item ''signal_profile'') (JStr ''horstmann_sn2_fixed'')) 64\<rparr>"
    using assms(1) unfolding build_device_def and_then_Inr by blast
  have "safe_int (oget item ''dnp3_address'') 1 0 65519 = Inr addr"
    using a by (auto simp: device_address_def Let_def and_then_Inr split: if_splits)
  then have "0 \<le> addr \<and> addr \<le> 65519" by (rule safe_int_ok) auto
  moreover have "1 \<le> poll \<and> poll \<le> 3600" using f by (rule safe_int_ok) auto
  moreover have "100 \<le> tmo \<and> tmo \<le> 60000" using g by (rule safe_int_ok) auto
  moreover have "0 \<le> retry \<and> retry \<le> 20" using h by (rule safe_int_ok) auto
  moreover have "opt_in 1 65535 tcp" "opt_in 0 65519 maddr"
    using b c unfolding parse_optional_tcp_port_def parse_optional_master_address_def
    by (blast intro: first_in_range_ok)+
  moreover have "opt_in 1 65535 mport"
    using e by (auto simp: master_ip_port_def Let_def and_then_Inr opt_in_def split: if_splits)
  ultimately show ?thesis
    using assms(2) endpoint_type_ok [of shw item]
    by (simp add: d device_ok_def truncate_field_len rewrite_safe)
qed

lemma build_signal_ok:
  assumes "build_signal shw item = Inr s"
  shows "signal_ok s"
proof -
  obtain sc off grp idx where
    a: "safe_finite_float (oget item ''scale'') (Fin 1) = Inr sc"
    and b: "safe_finite_float (oget item ''offset'') (Fin 0) = Inr off"
    and c: "safe_int (oget item ''dnp3_object_group'') 30 0 255 = Inr grp"
    and e: "safe_int (oget item ''dnp3_index'') 0 0 65535 = Inr idx"
    and s: "s = \<lparr>s_key = truncate_field shw (oget item ''key'') 64,
            s_label = truncate_field shw (py_or (oget item ''label'') (oget item ''key'')) 256,
            s_unit = (if truthy (oget item ''unit'')
                      then Some (truncate_field shw (oget item ''unit'') 32) else None),
            s_source = truncate_field shw (py_or (oget item ''source'') (JStr ''master'')) 64,
            s_class = truncate_field shw (py_or (oget item ''dnp3_class'') (JStr ''Class 1'')) 64,
            s_type = truncate_field shw (py_or (oget item ''data_type'') (JStr ''analog'')) 64,
            s_group = grp, s_index = idx, s_scale = sc, s_offset = off,
            s_alarm = truthy (oget item ''supports_alarm'')\<rparr>"
    using assms unfolding build_signal_def and_then_Inr by blast
  have "is_finite sc" "is_finite off" using a b by (auto intro: safe_finite_float_ok)
  moreover have "0 \<le> grp \<and> grp \<le> 255" using c by (rule safe_int_ok) auto
  moreover have "0 \<le> idx \<and> idx \<le> 65535" using e by (rule safe_int_ok) auto
  ultimately show ?thesis by (simp add: s signal_ok_def truncate_field_len)
qed

lemma parse_device_ok: "parse_device shw rw j = Inr (Some d) \<Longrightarrow> device_ok d"
  using build_device_ok
  by (auto simp: parse_device_def Let_def caught_def split: json.splits if_splits sum.splits)

lemma parse_signal_ok: "parse_signal shw j = Inr (Some s) \<Longrightarrow> signal_ok s"
  using build_signal_ok
  by (auto simp: parse_signal_def caught_def split: json.splits if_splits sum.splits)

lemma collect_ok:
  "collect f xs = Inr ys \<Longrightarrow> (\<And>x y. f x = Inr (Some y) \<Longrightarrow> P y) \<Longrightarrow> list_all P ys \<and> length ys \<le> length xs"
  by (induction xs arbitrary: ys) (fastforce simp: and_then_Inr split: sum.splits option.splits)+

lemma parse_config_limits:
  assumes "parse_gateway_config shw env data code = Inr g"
  shows "config_ok g"
proof -
  obtain dr devs sr sigs where d: "collect (parse_device shw (rewrite_flag env)) (take 1000 dr) = Inr devs"
    and s: "collect (parse_signal shw) (take 5000 sr) = Inr sigs"
    and g: "g_devices g = devs" "g_signals g = sigs"
    using assms unfolding parse_gateway_config_def and_then_Inr by auto
  have "list_all device_ok devs \<and> length devs \<le> length (take 1000 dr)"
    using collect_ok [OF d] parse_device_ok by blast
  moreover have "list_all signal_ok sigs \<and> length sigs \<le> length (take 5000 sr)"
    using collect_ok [OF s] parse_signal_ok by blast
  ultimately show ?thesis by (simp add: config_ok_def g)
qed

text \<open>C13: Whatever JSON object the backend sends, a configuration that comes out of the parser has at
  most 1000 devices and 5000 signals, every device has its addresses, ports, intervals and text
  lengths in range, an endpoint type the gateway knows and an address that is no URL, and every signal
  has a finite scale and offset and a 16-bit index.\<close>

theorem parsed_config_ok:
  assumes "parse_gateway_config shw env data code = Inr g"
  shows "config_ok g"
  using assms by (rule parse_config_limits)

theorem parsed_config_ok_witness:
  "\<exists>g. parse_gateway_config (\<lambda>v. []) None [(''devices'', JArr [JObj [(''code'', JStr ''D1'')]])] ''GW'' = Inr g \<and>
     config_ok g \<and> map d_code (g_devices g) = [''D1'']"
proof -
  have "map_sum (\<lambda>x. ()) (\<lambda>g. map d_code (g_devices g)) (parse_gateway_config (\<lambda>v. []) None
      [(''devices'', JArr [JObj [(''code'', JStr ''D1'')]])] ''GW'') = Inr [''D1'']"
    by code_simp
  then obtain g where g: "parse_gateway_config (\<lambda>v. []) None
      [(''devices'', JArr [JObj [(''code'', JStr ''D1'')]])] ''GW'' = Inr g" "map d_code (g_devices g) = [''D1'']"
    by (auto simp: map_sum_def split: sum.splits)
  show ?thesis by (rule exI [of _ g], intro conjI) (rule g(1), rule parsed_config_ok [OF g(1)], rule g(2))
qed


section \<open>When the answer is refused\<close>

text \<open>
  \<open>tame\<close> values are those no \<open>int(...)\<close> or \<open>float(...)\<close> overflows on: no infinite float, no integer
  beyond 53 bits.
\<close>

definition tame :: "json \<Rightarrow> bool" where
  "tame v \<longleftrightarrow> (case v of JFloat f \<Rightarrow> f \<noteq> PosInf \<and> f \<noteq> NegInf | JInt i \<Rightarrow> \<bar>i\<bar> \<le> 2 ^ 53 | _ \<Rightarrow> True)"

definition tame_entry :: "json \<Rightarrow> bool" where
  "tame_entry j \<longleftrightarrow> (case j of JObj d \<Rightarrow> list_all (tame \<circ> snd) d | _ \<Rightarrow> True)"

lemma tame_oget: "list_all (tame \<circ> snd) d \<Longrightarrow> tame (oget d k)"
  by (auto simp: oget_def tame_def list_all_iff dest!: map_of_SomeD split: option.splits)

lemma tame_int: "tame v \<Longrightarrow> py_int v = Inl x \<Longrightarrow> type_or_value_error x"
  by (drule py_int_raises) (auto simp: tame_def)

lemma tame_float: "tame v \<Longrightarrow> py_float v = Inl x \<Longrightarrow> type_or_value_error x"
  by (cases v) (auto simp: tame_def float_of_int_def rnd_int split: option.splits)

lemma safe_int_total: "tame v \<Longrightarrow> \<exists>n. safe_int v d lo hi = Inr n"
  using tame_int by (auto simp: safe_int_def split: sum.splits)

lemma safe_finite_float_total: "tame v \<Longrightarrow> \<exists>f. safe_finite_float v d = Inr f"
  using tame_float by (auto simp: safe_finite_float_def split: sum.splits)

lemma first_in_range_total: "list_all tame vs \<Longrightarrow> \<exists>p. first_in_range lo hi vs = Inr p"
  using tame_int by (induction lo hi vs rule: first_in_range.induct) (auto split: sum.splits)

lemma parse_ports_total:
  assumes "\<And>k. tame (oget item k)"
  shows "\<exists>p. parse_optional_tcp_port item = Inr p" "\<exists>p. parse_optional_master_address item = Inr p"
  unfolding parse_optional_tcp_port_def parse_optional_master_address_def
  by (rule first_in_range_total, simp add: assms)+

lemma build_device_raises:
  assumes "list_all (tame \<circ> snd) item" "build_device shw rw ip item = Inl x"
  shows "type_or_value_error x"
proof -
  note t = tame_oget [OF assms(1)]
  obtain tcp where tcp: "parse_optional_tcp_port item = Inr tcp"
    using parse_ports_total(1) t by blast
  obtain ma where ma: "parse_optional_master_address item = Inr ma"
    using parse_ports_total(2) t by blast
  obtain a where a: "safe_int (oget item ''dnp3_address'') 1 0 65519 = Inr a" using safe_int_total t by blast
  obtain p where p: "safe_int (oget item ''poll_interval_sec'') 5 1 3600 = Inr p" using safe_int_total t by blast
  obtain m where m: "safe_int (oget item ''timeout_ms'') 3000 100 60000 = Inr m" using safe_int_total t by blast
  obtain r where r: "safe_int (oget item ''retry_count'') 2 0 20 = Inr r" using safe_int_total t by blast
  have or0: "tame (py_or (oget item ''dnp3_address'') (JInt 0))" using t by (simp add: py_or_def tame_def)
  show ?thesis
    using assms(2) tame_int [OF or0] tame_int [OF t]
    by (auto simp: build_device_def device_address_def master_ip_port_def Let_def a tcp ma p m r and_then_def
        split: sum.splits if_splits)
qed

lemma parse_device_total: "tame_entry j \<Longrightarrow> \<exists>y. parse_device shw rw j = Inr y"
  using build_device_raises
  by (auto simp: tame_entry_def parse_device_def Let_def caught_def split: json.splits sum.splits)

lemma build_signal_total: "list_all (tame \<circ> snd) item \<Longrightarrow> \<exists>y. build_signal shw item = Inr y"
proof -
  assume "list_all (tame \<circ> snd) item"
  note t = tame_oget [OF this]
  obtain a where "safe_finite_float (oget item ''scale'') (Fin 1) = Inr a" using safe_finite_float_total t by blast
  moreover obtain b where "safe_finite_float (oget item ''offset'') (Fin 0) = Inr b"
    using safe_finite_float_total t by blast
  moreover obtain c where "safe_int (oget item ''dnp3_object_group'') 30 0 255 = Inr c"
    using safe_int_total t by blast
  moreover obtain d where "safe_int (oget item ''dnp3_index'') 0 0 65535 = Inr d"
    using safe_int_total t by blast
  ultimately show ?thesis by (simp add: build_signal_def)
qed

lemma parse_signal_total: "tame_entry j \<Longrightarrow> \<exists>y. parse_signal shw j = Inr y"
proof (cases j)
  case (JObj d)
  moreover assume "tame_entry j"
  ultimately obtain s where "build_signal shw d = Inr s"
    using build_signal_total by (auto simp: tame_entry_def)
  with JObj show ?thesis by (simp add: parse_signal_def caught_def)
qed (simp_all add: parse_signal_def)

text \<open>What the loop keeps of each entry, on its own.\<close>

definition kept :: "'a option res \<Rightarrow> 'a list" where
  "kept r = (case r of Inr (Some y) \<Rightarrow> [y] | _ \<Rightarrow> [])"

lemma collect_total:
  "\<forall>x \<in> set xs. \<exists>y. f x = Inr y \<Longrightarrow> collect f xs = Inr (concat (map (kept \<circ> f) xs))"
  by (induction xs) (fastforce simp: kept_def split: option.splits)+

lemma collect_raises:
  "\<forall>x \<in> set xs. \<exists>y. f x = Inr y \<Longrightarrow> f z = Inl e \<Longrightarrow> collect f (xs @ z # zs) = Inl e"
  by (induction xs) auto

text \<open>The parser never fails as a whole on a well-shaped answer: if \<open>devices\<close> and \<open>signals\<close> are lists,
  the scalar fields are usable and no number overflows, there is a configuration, and each of its
  entries is decided by its own JSON entry alone, in order; a malformed entry only drops itself.\<close>

theorem entries_are_independent:
  assumes "as_list ''devices'' (oget data ''devices'') = Inr dr"
    and "as_list ''signals'' (oget data ''signals'') = Inr sr"
    and "\<forall>j \<in> set (take 1000 dr). tame_entry j" and "\<forall>j \<in> set (take 5000 sr). tame_entry j"
    and "nonce_of (oget data ''refresh_nonce'') = Inr n"
    and "py_int (py_or (oget_default data ''batch_interval_sec'' (JInt 5)) (JInt 5)) = Inr b"
    and "py_int (py_or (oget_default data ''max_devices'' (JInt 200)) (JInt 200)) = Inr m"
  shows "\<exists>g. parse_gateway_config shw env data code = Inr g \<and> g_nonce g = n \<and> g_batch_interval g = b \<and>
    g_devices g = concat (map (kept \<circ> parse_device shw (rewrite_flag env)) (take 1000 dr)) \<and>
    g_signals g = concat (map (kept \<circ> parse_signal shw) (take 5000 sr))"
proof -
  have "collect (parse_device shw (rewrite_flag env)) (take 1000 dr) =
      Inr (concat (map (kept \<circ> parse_device shw (rewrite_flag env)) (take 1000 dr)))"
    using assms(3) parse_device_total by (blast intro: collect_total)
  moreover have "collect (parse_signal shw) (take 5000 sr) =
      Inr (concat (map (kept \<circ> parse_signal shw) (take 5000 sr)))"
    using assms(4) parse_signal_total by (blast intro: collect_total)
  ultimately show ?thesis
    using assms(1,2,5-7) by (simp add: parse_gateway_config_def)
qed

theorem entries_are_independent_witness:
  "\<exists>g. parse_gateway_config (\<lambda>v. []) None
     [(''devices'', JArr [JStr ''junk'', JObj [(''code'', JStr ''D1''), (''dnp3_address'', JStr ''abc'')]])] ''GW'' = Inr g \<and>
     g_devices g = []"
proof -
  let ?d1 = "JObj [(''code'', JStr ''D1''), (''dnp3_address'', JStr ''abc'')]"
  let ?data = "[(''devices'', JArr [JStr ''junk'', ?d1])]"
  have "as_list ''devices'' (oget ?data ''devices'') = Inr [JStr ''junk'', ?d1]"
    "as_list ''signals'' (oget ?data ''signals'') = Inr []" "nonce_of (oget ?data ''refresh_nonce'') = Inr 0"
    "py_int (py_or (oget_default ?data ''batch_interval_sec'' (JInt 5)) (JInt 5)) = Inr 5"
    "py_int (py_or (oget_default ?data ''max_devices'' (JInt 200)) (JInt 200)) = Inr 200"
    by (simp_all add: as_list_def oget_def oget_default_def py_or_def nonce_of_def)
  moreover have "\<forall>j \<in> set (take 1000 [JStr ''junk'', ?d1]). tame_entry j" "\<forall>j \<in> set (take 5000 []). tame_entry j"
    by (simp_all add: tame_entry_def tame_def)
  moreover have "concat (map (kept \<circ> parse_device (\<lambda>v. []) (rewrite_flag None)) (take 1000 [JStr ''junk'', ?d1])) = []"
    by code_simp
  ultimately show ?thesis
    using entries_are_independent [of ?data "[JStr ''junk'', ?d1]" "[]" 0 5 200 "\<lambda>v. []" None "''GW''"] by auto
qed

text \<open>C38: One infinite number refuses everything: if after well-behaved entries a device has an infinite
  DNP3 address (JSON \<open>1e999\<close>), the \<open>OverflowError\<close> of \<open>int\<close> is not caught and no configuration comes out,
  however many good devices the answer has; a text there only drops the device, although \<open>_safe_int\<close>
  would have used the default.\<close>

theorem infinite_address_refuses_all:
  assumes "as_list ''devices'' (oget data ''devices'') = Inr (good @ JObj item # rest)"
    and "length good < 1000" and "\<forall>j \<in> set good. tame_entry j"
    and "truthy (oget item ''code'')" and "is_safe_device_ip (py_str shw (py_or (oget item ''ip_address'') (JStr [])))"
    and "oget item ''dnp3_address'' = JFloat PosInf" and "oget item2 ''dnp3_address'' = JStr t"
    and "t \<noteq> []" and "parse_int t = None"
  shows "parse_gateway_config shw env data code = Inl overflow_error \<and>
    safe_int (oget item2 ''dnp3_address'') 1 0 65519 = Inr 1 \<and>
    parse_device shw rw (JObj item2) = Inr None"
proof -
  have "parse_device shw (rewrite_flag env) (JObj item) = Inl overflow_error"
    using assms(4,5,6)
    by (simp add: parse_device_def Let_def build_device_def device_address_def safe_int_def none_or_empty_def
        caught_def)
  moreover have "take 1000 (good @ JObj item # rest) = good @ JObj item # take (999 - length good) rest"
    using assms(2) by (simp add: take_Cons')
  ultimately have "collect (parse_device shw (rewrite_flag env)) (take 1000 (good @ JObj item # rest)) =
      Inl overflow_error"
    using collect_raises [of good "parse_device shw (rewrite_flag env)"] parse_device_total assms(3)
    by simp
  then have "parse_gateway_config shw env data code = Inl overflow_error"
    using assms(1) by (simp add: parse_gateway_config_def)
  moreover have "safe_int (oget item2 ''dnp3_address'') 1 0 65519 = Inr 1"
    using assms(7-9) by (simp add: safe_int_def none_or_empty_def)
  moreover have "build_device shw rw ip item2 = Inl value_error" for ip
    using assms(7-9)
    by (simp add: build_device_def device_address_def safe_int_def none_or_empty_def py_or_def)
  then have "parse_device shw rw (JObj item2) = Inr None"
    by (simp add: parse_device_def Let_def caught_def)
  ultimately show ?thesis by blast
qed

theorem infinite_address_refuses_all_witness:
  "parse_gateway_config (\<lambda>v. []) None [(''devices'', JArr [JObj [(''code'', JStr ''D1'')],
     JObj [(''code'', JStr ''D2''), (''dnp3_address'', JFloat PosInf)]])] ''GW'' = Inl overflow_error"
  using infinite_address_refuses_all [of "[(''devices'', JArr [JObj [(''code'', JStr ''D1'')],
     JObj [(''code'', JStr ''D2''), (''dnp3_address'', JFloat PosInf)]])]" "[JObj [(''code'', JStr ''D1'')]]"
     "[(''code'', JStr ''D2''), (''dnp3_address'', JFloat PosInf)]" "[]" "\<lambda>v. []"
     "[(''dnp3_address'', JStr ''abc'')]" "''abc''" None "''GW''" True]
  by (simp add: as_list_def oget_def py_or_def tame_entry_def tame_def is_safe_device_ip_def py_strip_def py_lstrip_def
      py_rstrip_by_def parse_int_def py_ws_def is_digit_char_def)

section \<open>The size limit\<close>

lemma read_chunks_ok:
  "read_chunks limit got cs = Inr b \<Longrightarrow> got \<le> limit \<Longrightarrow> b = concat cs \<and> got + length b \<le> limit"
  by (induction limit got cs arbitrary: b rule: read_chunks.induct) (auto simp: and_then_Inr split: if_splits)

text \<open>C23: \<open>fetch_config\<close> takes a configuration only from a complete 200 answer whose body, and whose announced
  length, is within the limit, and only when the body is a JSON object; it is then what the parser
  makes of that object.\<close>

theorem fetch_config_sound:
  assumes "fetch_config shw env loads max_bytes token code h = Inr g"
  shows "\<exists>r data. h = HttpOk r \<and> hr_status r = 200 \<and> hr_broken r = None \<and>
    length (concat (hr_chunks r)) \<le> response_limit max_bytes \<and>
    content_length r \<le> int (response_limit max_bytes) \<and>
    loads (concat (hr_chunks r)) = Inr (JObj data) \<and>
    parse_gateway_config shw env data code = Inr g"
proof -
  obtain r where h: "h = HttpOk r" using assms by (cases h) (simp_all add: fetch_config_def)
  have lim: "content_length r \<le> int (response_limit max_bytes)" "hr_status r = 200"
    using assms h by (auto simp: fetch_config_def Let_def split: if_splits)
  then obtain b where b: "read_body (response_limit max_bytes) token r = Inr b"
      "(case loads b of Inl t \<Rightarrow> Inl (config_error (''config response is not json: '' @ t))
            | Inr (JObj data) \<Rightarrow> parse_gateway_config shw env data code
            | Inr v \<Rightarrow> Inl (config_error (''config response root must be object, got '' @ type_name v))) = Inr g"
    using assms h by (auto simp: fetch_config_def Let_def and_then_Inr)
  then obtain data where "loads b = Inr (JObj data)" "parse_gateway_config shw env data code = Inr g"
    by (auto split: sum.splits json.splits)
  note r = h lim b(1) this
  have "read_chunks (response_limit max_bytes) 0 (hr_chunks r) = Inr b" "hr_broken r = None"
    using b(1) by (auto simp: read_body_def and_then_Inr split: option.splits)
  with r read_chunks_ok show ?thesis by fastforce
qed

theorem fetch_config_sound_witness:
  "\<exists>g. fetch_config (\<lambda>v. []) None (\<lambda>b. if b = ''{}'' then Inr (JObj []) else Inl ''bad'') 0 ''secret'' ''GW''
     (HttpOk \<lparr>hr_status = 200, hr_content_length = Some ''2'', hr_preview = [], hr_chunks = [''{'', ''}''],
        hr_broken = None\<rparr>) = Inr g \<and> config_ok g"
proof -
  let ?loads = "\<lambda>b. if b = ''{}'' then Inr (JObj []) else Inl ''bad''"
  let ?h = "HttpOk \<lparr>hr_status = 200, hr_content_length = Some ''2'', hr_preview = [], hr_chunks = [''{'', ''}''],
        hr_broken = None\<rparr>"
  obtain g where g: "parse_gateway_config (\<lambda>v. []) None [] ''GW'' = Inr g" "config_ok g"
    by (simp add: parse_gateway_config_def as_list_def oget_def oget_default_def py_or_def nonce_of_def config_ok_def)
  have "parse_int ''2'' = Some 2" by code_simp
  then have f: "fetch_config (\<lambda>v. []) None ?loads 0 ''secret'' ''GW'' ?h = Inr g"
    by (simp add: fetch_config_def read_body_def response_limit_def content_length_def g(1))
  from fetch_config_sound [OF f] f g(2) show ?thesis by blast
qed


section \<open>The token stays out of error texts\<close>

text \<open>No exception text that went through \<open>_scrub_token_from_text\<close> contains the gateway's token,
  wherever and however often the library put it in, provided the token is at least six characters,
  has no asterisk and is no part of the word REDACTED; a text without the token is not changed.\<close>

theorem scrub_hides_token:
  assumes "6 \<le> length t" and "CHR ''*'' \<notin> set t" and "\<not> py_in t ''REDACTED''"
  shows "\<not> py_in t (scrub_token text (Some t)) \<and>
    (\<not> py_in t text \<longrightarrow> scrub_token text (Some t) = text)"
proof -
  have t: "t \<noteq> []" "\<not> length t < 6" using assms(1) by auto
  have "\<not> sublist t ''REDACTED''" using assms(3) by (simp only: py_in_sublist not_False_eq_True)
  note hidden = replace_removes [OF t(1) assms(2) this] replace_absent [of t "text"]
  show ?thesis using hidden t by (auto simp: scrub_token_def py_replace_def py_in_sublist)
qed

theorem scrub_hides_token_witness:
  "\<not> py_in ''s3cret!'' (scrub_token ''GET /x?token=s3cret!s3cret! failed'' (Some ''s3cret!''))"
proof -
  have "\<not> py_in ''s3cret!'' ''REDACTED''" by code_simp
  then show ?thesis using scrub_hides_token [of "''s3cret!''" "''GET /x?token=s3cret!s3cret! failed''"] by simp
qed


section \<open>Sending a configuration\<close>

definition device_full :: "device_config \<Rightarrow> bool" where
  \<comment> \<open>the texts a default would replace are not empty\<close>
  "device_full d \<longleftrightarrow> d_code d \<noteq> [] \<and> d_name d \<noteq> [] \<and> d_profile d \<noteq> []"

definition signal_full :: "signal_config \<Rightarrow> bool" where
  "signal_full s \<longleftrightarrow> s_key s \<noteq> [] \<and> s_label s \<noteq> [] \<and> s_source s \<noteq> [] \<and> s_class s \<noteq> [] \<and> s_type s \<noteq> [] \<and>
     s_unit s \<noteq> Some []"

lemma safe_int_JInt: "lo \<le> n \<Longrightarrow> n \<le> hi \<Longrightarrow> safe_int (JInt n) d lo hi = Inr n"
  by (simp add: safe_int_def none_or_empty_def)

lemma first_in_range_opt:
  "opt_in lo hi v \<Longrightarrow> first_in_range lo hi [opt_json JInt v, JNull, JNull] = Inr v"
  by (cases v) (simp_all add: opt_json_def opt_in_def none_or_empty_def)

lemma endpoint_kept: "t \<in> {''initiating'', ''listening''} \<Longrightarrow> py_lower (py_strip t) = t"
proof -
  have "py_lower (py_strip ''initiating'') = ''initiating''" "py_lower (py_strip ''listening'') = ''listening''"
    by code_simp+
  then show "t \<in> {''initiating'', ''listening''} \<Longrightarrow> py_lower (py_strip t) = t" by auto
qed

lemma truncate_JStr: "length s \<le> n \<Longrightarrow> truncate_field shw (JStr s) n = s"
  by (simp add: truncate_field_def)

lemma parse_device_json:
  assumes "device_ok d" "device_full d"
  shows "parse_device shw False (device_json d) = Inr (Some d)"
proof -
  obtain item where item: "device_json d = JObj item"
    and g: "oget item ''code'' = JStr (d_code d)" "oget item ''name'' = JStr (d_name d)"
      "oget item ''ip_address'' = JStr (d_ip d)" "oget item ''dnp3_address'' = JInt (d_address d)"
      "map (oget item) [''dnp3_tcp_port'', ''dnp3_port'', ''tcp_port''] =
         [opt_json JInt (d_tcp_port d), JNull, JNull]"
      "map (oget item) [''master_address'', ''dnp3_master_address'', ''local_address''] =
         [opt_json JInt (d_master_address d), JNull, JNull]"
      "oget item ''ip_endpoint_type'' = JStr (d_endpoint d)"
      "oget item ''master_ip_port'' = opt_json JInt (d_master_port d)"
      "oget item ''poll_interval_sec'' = JInt (d_poll_interval d)" "oget item ''timeout_ms'' = JInt (d_timeout_ms d)"
      "oget item ''retry_count'' = JInt (d_retry_count d)" "oget item ''signal_profile'' = JStr (d_profile d)"
    by (simp add: device_json_def oget_def)
  have "parse_optional_tcp_port item = Inr (d_tcp_port d)"
    "parse_optional_master_address item = Inr (d_master_address d)"
    using assms(1) unfolding parse_optional_tcp_port_def parse_optional_master_address_def g
    by (auto simp: device_ok_def first_in_range_opt simp del: first_in_range.simps)
  moreover have "master_ip_port item = Inr (d_master_port d)"
    using assms(1) by (cases "d_master_port d")
      (auto simp: master_ip_port_def g opt_json_def none_or_empty_def device_ok_def opt_in_def)
  moreover have "device_address item = Inr (d_address d)"
    using assms(1) by (simp add: device_address_def g device_ok_def safe_int_JInt none_or_empty_def py_or_def)
  moreover have "endpoint_type shw item = d_endpoint d"
    using assms(1) endpoint_kept [of "d_endpoint d"]
    by (auto simp: endpoint_type_def g py_or_def device_ok_def)
  ultimately have "build_device shw False (d_ip d) item = Inr d"
    using assms by (simp add: build_device_def g safe_int_JInt device_ok_def device_full_def py_or_def truncate_JStr
        rewrite_loopback_ip_def)
  moreover have "py_str shw (py_or (JStr (d_ip d)) (JStr [])) = d_ip d" by (simp add: py_or_def)
  ultimately show ?thesis
    using assms by (simp add: item parse_device_def g device_full_def device_ok_def caught_def)
qed

lemma parse_signal_json:
  assumes "signal_ok s" "signal_full s"
  shows "parse_signal shw (signal_json s) = Inr (Some s)"
proof -
  have "safe_finite_float (JFloat f) d = Inr f" if "is_finite f" for f d
    using that by (simp add: safe_finite_float_def none_or_empty_def)
  then show ?thesis
    using assms
    by (cases "s_unit s") (simp_all add: signal_json_def parse_signal_def build_signal_def oget_def caught_def
        signal_ok_def signal_full_def safe_int_JInt truncate_JStr py_or_def opt_json_def)
qed



end
