(* ===== verification/Health.thy ===== *)
theory Health
  imports Gw_State Resilient Yad_Reader
begin

text \<open>
  \<open>health_server.py\<close>: the metric counters, the snapshot of the publisher, the body and the status code of
  \<open>/health\<close>, and the request handler with its authorization. The HTTP server of the standard library is
  what calls the handler; the provider of the publisher is the state passed in.
\<close>

section \<open>Metrics\<close>

record gw_metrics =
  mx_started_mono :: clock
  mx_started_epoch :: clock
  mx_cycles :: nat
  mx_published :: nat
  mx_skipped :: nat
  mx_publish_errors :: nat
  mx_read_errors :: nat
  mx_last_cycle :: "clock option"
  mx_last_published :: nat
  mx_last_devices :: nat

definition metrics_init :: "clock \<Rightarrow> clock \<Rightarrow> gw_metrics" where
  "metrics_init ticks epoch = \<lparr>mx_started_mono = ticks, mx_started_epoch = epoch, mx_cycles = 0, mx_published = 0,
     mx_skipped = 0, mx_publish_errors = 0, mx_read_errors = 0, mx_last_cycle = None, mx_last_published = 0,
     mx_last_devices = 0\<rparr>"

definition record_cycle :: "clock \<Rightarrow> nat \<Rightarrow> nat \<Rightarrow> gw_metrics \<Rightarrow> gw_metrics" where
  "record_cycle now devices published mx =
     mx\<lparr>mx_cycles := Suc (mx_cycles mx), mx_published := mx_published mx + published,
        mx_last_cycle := Some now, mx_last_published := published, mx_last_devices := devices\<rparr>"

definition inc_skipped_no_change :: "nat \<Rightarrow> gw_metrics \<Rightarrow> gw_metrics" where
  "inc_skipped_no_change n mx = mx\<lparr>mx_skipped := mx_skipped mx + n\<rparr>"

definition inc_publish_error :: "nat \<Rightarrow> gw_metrics \<Rightarrow> gw_metrics" where
  "inc_publish_error n mx = mx\<lparr>mx_publish_errors := mx_publish_errors mx + n\<rparr>"

definition inc_read_error :: "nat \<Rightarrow> gw_metrics \<Rightarrow> gw_metrics" where
  "inc_read_error n mx = mx\<lparr>mx_read_errors := mx_read_errors mx + n\<rparr>"

definition uptime :: "clock \<Rightarrow> gw_metrics \<Rightarrow> pyfloat" where
  "uptime ticks mx = py_round (Fin (ticks - mx_started_mono mx)) 2"

section \<open>The publisher as \<open>/health\<close> sees it\<close>

record outbox_snap =
  os_full :: bool
  os_full_since :: "clock option"
  os_pending :: "int option"
  os_dead :: "int option"
  os_max :: "int option"
  os_error :: "string option"
  os_ready :: "bool option"
  os_failures :: "nat option"
  os_successes :: "nat option"

text \<open>The fault is what the \<open>SELECT COUNT\<close> of the dead letters meets.\<close>

definition outbox_snapshot :: "db_fault \<Rightarrow> (jetstream, outbox) pub_sys option \<Rightarrow> outbox_snap" where
  "outbox_snapshot f p = (case p of
       None \<Rightarrow> \<lparr>os_full = False, os_full_since = None, os_pending = None, os_dead = None, os_max = None,
                os_error = None, os_ready = None, os_failures = None, os_successes = None\<rparr>
     | Some sys \<Rightarrow>
         \<lparr>os_full = rp_outbox_full sys, os_full_since = rp_full_since (ps_rp sys),
          os_pending = Some (rp_pending_count sys), os_dead = Some (rp_dead_letter_count f sys),
          os_max = Some (rp_outbox_max_pending sys),
          os_error = (case rp_last_error (ps_rp sys) of
              Some t \<Rightarrow> if t = [] then None else Some (take 200 t) | None \<Rightarrow> None),
          os_ready = Some (js_is_ready (ps_broker sys)),
          os_failures = Some (fst (js_counters_snapshot (ps_broker sys))),
          os_successes = Some (snd (js_counters_snapshot (ps_broker sys)))\<rparr>)"

section \<open>\<open>/health\<close>\<close>

text \<open>\<open>int(cap * 0.8)\<close>, which is \<open>4 cap / 5\<close> rounded down for every limit below \<open>2 ^ 50\<close>.\<close>

definition near_capacity :: "outbox_snap \<Rightarrow> bool" where
  "near_capacity os = (case (os_pending os, os_max os) of
       (Some p, Some cap) \<Rightarrow> p \<noteq> 0 \<and> cap > 0 \<and> p \<ge> cap * 4 div 5
     | _ \<Rightarrow> False)"

definition refresh_failing :: "state_snapshot \<Rightarrow> bool" where
  "refresh_failing sn = (case sn_refresh_error sn of
       Some t \<Rightarrow> t \<noteq> [] \<and> (case sn_since_ok sn of None \<Rightarrow> True | Some x \<Rightarrow> x > 150)
     | None \<Rightarrow> False)"

text \<open>The issues in the order they are appended, each with its severity.\<close>

definition health_issues :: "state_snapshot \<Rightarrow> bool \<Rightarrow> outbox_snap \<Rightarrow> nat \<Rightarrow> pyfloat \<Rightarrow> (string \<times> nat) list" where
  "health_issues sn active os cycles up =
     (if sn_stale sn then [(''config_cache_stale'', 1)] else []) @
     (if refresh_failing sn then [(''config_refresh_failing'', 1)] else []) @
     (if os_full os then [(''outbox_full'', 2)] else []) @
     (if near_capacity os then [(''outbox_near_capacity'', 1)] else []) @
     (if (case os_dead os of Some n \<Rightarrow> n > 0 | None \<Rightarrow> False) then [(''dead_letter_messages_present'', 1)] else []) @
     (if active \<and> cycles = 0 \<and> flt (Fin 60) up then [(''no_poll_cycles_yet'', 1)] else [])"

definition severity :: "(string \<times> nat) list \<Rightarrow> nat" where
  "severity xs = fold max (map snd xs) 0"

record health_body =
  hb_status :: string
  hb_issues :: "string list"
  hb_config :: state_snapshot
  hb_outbox :: outbox_snap
  hb_uptime :: pyfloat
  hb_metrics :: gw_metrics

definition build_health_body ::
  "clock \<Rightarrow> clock \<Rightarrow> db_fault \<Rightarrow> gw_state \<Rightarrow> bool \<Rightarrow> (jetstream, outbox) pub_sys option \<Rightarrow> gw_metrics \<Rightarrow>
   health_body \<times> nat" where
  "build_health_body now ticks f st ready p mx =
     (let sn = snapshot now st; os = outbox_snapshot f p;
          xs = health_issues sn (st_active st) os (mx_cycles mx) (uptime ticks mx);
          (status, code) =
            (if \<not> ready then (''starting'', 200)
             else if severity xs \<ge> 2 then (''unhealthy'', 503)
             else if severity xs \<ge> 1 then (''degraded'', 200)
             else (''ok'', 200))
      in (\<lparr>hb_status = status, hb_issues = map fst xs, hb_config = sn, hb_outbox = os,
           hb_uptime = uptime ticks mx, hb_metrics = mx\<rparr>, code))"

section \<open>Requests\<close>

record server_conf =
  sc_code :: string
  sc_mode :: string
  sc_instance :: string
  sc_env :: string
  sc_port :: int
  sc_refresh_token :: string
  sc_auth_required :: bool

record info_body =
  ib_code :: string
  ib_instance :: string
  ib_env :: string
  ib_mode :: string
  ib_port :: int
  ib_version :: string
  ib_active :: bool

datatype reply_body =
    NoBody
  | HealthBody health_body
  | InfoBody info_body
  | MetricsBody string gw_metrics pyfloat outbox_snap   \<comment> \<open>configuration version first\<close>
  | RefreshBody nat nat
  | DetailBody string

datatype http_method = Http_Get | Http_Post

text \<open>\<open>_check_bearer_auth\<close>: the code it answers with, \<open>None\<close> when the request may pass.\<close>

definition check_bearer :: "string \<Rightarrow> string option \<Rightarrow> nat option" where
  "check_bearer token auth =
     (if token = [] then Some 503
      else if (case auth of None \<Rightarrow> [] | Some a \<Rightarrow> a) \<noteq> ''Bearer '' @ token then Some 401
      else None)"

record health_env =
  he_now :: clock
  he_mono :: clock
  he_fault :: db_fault

definition do_get ::
  "server_conf \<Rightarrow> health_env \<Rightarrow> gw_state \<Rightarrow> bool \<Rightarrow> (jetstream, outbox) pub_sys option \<Rightarrow> gw_metrics \<Rightarrow>
   string \<Rightarrow> string option \<Rightarrow> nat \<times> reply_body" where
  "do_get sc e st ready p mx path auth =
     (if path = ''/health'' \<or> path = ''/healthz'' then
        (case build_health_body (he_now e) (he_mono e) (he_fault e) st ready p mx of (b, code) \<Rightarrow> (code, HealthBody b))
      else if path = ''/info'' then
        (case (if sc_auth_required sc then check_bearer (sc_refresh_token sc) auth else None) of
           Some code \<Rightarrow> (code, NoBody)
         | None \<Rightarrow> (200, InfoBody \<lparr>ib_code = sc_code sc, ib_instance = sc_instance sc, ib_env = sc_env sc,
             ib_mode = sc_mode sc, ib_port = sc_port sc, ib_version = st_version st, ib_active = st_active st\<rparr>))
      else if path = ''/metrics'' then
        (case (if sc_auth_required sc then check_bearer (sc_refresh_token sc) auth else None) of
           Some code \<Rightarrow> (code, NoBody)
         | None \<Rightarrow> (200, MetricsBody (st_version st) mx (uptime (he_mono e) mx) (outbox_snapshot (he_fault e) p)))
      else (404, NoBody))"

text \<open>\<open>refresh\<close> is the reader's \<open>refresh_all_devices\<close>, \<open>None\<close> when there is no reader yet or it has none.\<close>

definition do_post ::
  "server_conf \<Rightarrow> ('r \<Rightarrow> (nat \<times> nat) res \<times> 'r) option \<Rightarrow> string \<Rightarrow> string option \<Rightarrow> 'r \<Rightarrow> (nat \<times> reply_body) \<times> 'r" where
  "do_post sc refresh path auth r =
     (if path \<noteq> ''/refresh-all'' then ((404, NoBody), r)
      else case check_bearer (sc_refresh_token sc) auth of
        Some code \<Rightarrow> ((code, NoBody), r)
      | None \<Rightarrow> (case refresh of
            None \<Rightarrow> ((503, DetailBody ''Reader integrity-poll desteklemiyor''), r)
          | Some f \<Rightarrow> (case f r of
                (Inr (ok, n), r1) \<Rightarrow> ((200, RefreshBody ok n), r1)
              | (Inl x, r1) \<Rightarrow> ((500, DetailBody (exc_text x)), r1))))"

definition handle_request ::
  "server_conf \<Rightarrow> health_env \<Rightarrow> gw_state \<Rightarrow> bool \<Rightarrow> (jetstream, outbox) pub_sys option \<Rightarrow> gw_metrics \<Rightarrow>
   ('r \<Rightarrow> (nat \<times> nat) res \<times> 'r) option \<Rightarrow> http_method \<Rightarrow> string \<Rightarrow> string option \<Rightarrow> 'r \<Rightarrow> (nat \<times> reply_body) \<times> 'r" where
  "handle_request sc e st ready p mx refresh mt path auth r = (case mt of
       Http_Get \<Rightarrow> (do_get sc e st ready p mx path auth, r)
     | Http_Post \<Rightarrow> do_post sc refresh path auth r)"

section \<open>Properties\<close>

lemma fold_max_ge: "m \<le> fold max xs n \<longleftrightarrow> m \<le> n \<or> (\<exists>x \<in> set xs. m \<le> x)" for m n :: nat
  by (induction xs arbitrary: n) (auto simp: max_def)

lemma severity_ge: "0 < m \<Longrightarrow> m \<le> severity xs \<longleftrightarrow> (\<exists>x \<in> set xs. m \<le> snd x)"
  by (auto simp: severity_def fold_max_ge)

lemma issue_severities:
  "(\<exists>x \<in> set (health_issues sn a os n up). 2 \<le> snd x) \<longleftrightarrow> os_full os"
  "(\<exists>x \<in> set (health_issues sn a os n up). 1 \<le> snd x) \<longleftrightarrow> health_issues sn a os n up \<noteq> []"
  by (auto simp: health_issues_def)

text \<open>C25: The status code of \<open>/health\<close> is 503 exactly when the first configuration is there and the circuit
  breaker is open; before the first configuration the status is \<open>starting\<close>, and after it the status is
  \<open>ok\<close> exactly when the list of issues is empty, which has \<open>outbox_full\<close> exactly when the breaker is open.\<close>

theorem health_status:
  "(snd (build_health_body now ticks f st ready (Some sys) mx) = 503 \<longleftrightarrow> ready \<and> rp_outbox_full sys) \<and>
   (hb_status (fst (build_health_body now ticks f st ready (Some sys) mx)) = ''starting'' \<longleftrightarrow> \<not> ready) \<and>
   (hb_status (fst (build_health_body now ticks f st ready (Some sys) mx)) = ''ok'' \<longleftrightarrow>
      ready \<and> hb_issues (fst (build_health_body now ticks f st ready (Some sys) mx)) = []) \<and>
   (''outbox_full'' \<in> set (hb_issues (fst (build_health_body now ticks f st ready (Some sys) mx))) \<longleftrightarrow> rp_outbox_full sys)"
proof -
  let ?os = "outbox_snapshot f (Some sys)"
  let ?xs = "health_issues (snapshot now st) (st_active st) ?os (mx_cycles mx) (uptime ticks mx)"
  have full: "os_full ?os = rp_outbox_full sys" by (simp add: outbox_snapshot_def)
  have sev: "2 \<le> severity ?xs \<longleftrightarrow> rp_outbox_full sys" "1 \<le> severity ?xs \<longleftrightarrow> ?xs \<noteq> []"
    using issue_severities severity_ge full by simp_all
  have mem: "''outbox_full'' \<in> fst ` set ?xs \<longleftrightarrow> rp_outbox_full sys"
    unfolding health_issues_def full by (auto split: if_splits)
  show ?thesis using sev mem by (auto simp: build_health_body_def Let_def)
qed

text \<open>C19: The operational endpoints are closed: \<open>/refresh-all\<close>, and \<open>/info\<close> and \<open>/metrics\<close> when they need
  authorization, answer a request without the exact bearer token with 401, and every request with 503
  when no token is configured; the answer has no body and the reader is not touched.\<close>

theorem guarded_endpoints:
  assumes "mt = Http_Post \<and> path = ''/refresh-all'' \<or>
      mt = Http_Get \<and> sc_auth_required sc \<and> (path = ''/info'' \<or> path = ''/metrics'')"
    and "sc_refresh_token sc = [] \<or> auth \<noteq> Some (''Bearer '' @ sc_refresh_token sc)"
  shows "handle_request sc e st ready p mx refresh mt path auth r =
    ((if sc_refresh_token sc = [] then 503 else 401, NoBody), r)"
proof -
  have "check_bearer (sc_refresh_token sc) auth = Some (if sc_refresh_token sc = [] then 503 else 401)"
    using assms(2) by (cases auth) (auto simp: check_bearer_def)
  then show ?thesis using assms(1) by (auto simp: handle_request_def do_get_def do_post_def)
qed

definition sample_server :: server_conf where
  "sample_server = \<lparr>sc_code = ''GW1'', sc_mode = ''dnp3'', sc_instance = ''i1'', sc_env = ''production'',
     sc_port = 8020, sc_refresh_token = ''s3cret'', sc_auth_required = True\<rparr>"

theorem guarded_endpoints_witness:
  "handle_request sample_server \<lparr>he_now = 0, he_mono = 0, he_fault = DbOk\<rparr> (state_init True 24 NoFile) False None
     (metrics_init 0 0) (Some (\<lambda>r. (Inr (0, 0), r))) Http_Post ''/refresh-all'' (Some ''Bearer guess'') sample_yad =
   ((401, NoBody), sample_yad)"
  using guarded_endpoints [of Http_Post "''/refresh-all''" sample_server "Some ''Bearer guess''"
      "\<lparr>he_now = 0, he_mono = 0, he_fault = DbOk\<rparr>" "state_init True 24 NoFile" False None "metrics_init 0 0"
      "Some (\<lambda>r. (Inr (0, 0), r))" sample_yad]
  by (simp add: sample_server_def)

end
