(* ===== verification/Service.thy ===== *)
theory Service
  imports Gateway_Cycle Config_Parse Health
begin

text \<open>
  \<open>main.py\<close>: starting from the cache file, the thread that refreshes the configuration, the service loop
  over the poll cycles, and the shutdown. Waiting on the stop event is the end of a turn; which turn comes
  next, and when, is the list of turns.
\<close>

section \<open>Small helpers\<close>

definition mask_secret :: "string \<Rightarrow> nat \<Rightarrow> string" where
  "mask_secret value keep =
     (let v = py_strip value in
      if length v \<le> 2 * keep + 2 then ''***''
      else take keep v @ ''...'' @ drop (length v - keep) v)"

datatype tls_verify = VerifyFlag bool | VerifyBundle string

definition tls_verify_param :: "string option \<Rightarrow> bool \<Rightarrow> tls_verify" where
  "tls_verify_param ca_path verify_ssl = (case ca_path of
       Some p \<Rightarrow> if py_strip p \<noteq> [] then VerifyBundle (py_strip p) else VerifyFlag verify_ssl
     | None \<Rightarrow> VerifyFlag verify_ssl)"

section \<open>Starting\<close>

text \<open>\<open>run\<close> loads the cache with no handler around it: an exception ends the process. The flag is
  \<open>config_ready\<close>.\<close>

datatype start_result = Started bool gw_state | StartFailed pyexc | StartUntyped

definition gateway_start :: "(json \<Rightarrow> string) \<Rightarrow> rat \<Rightarrow> cache_file \<Rightarrow> start_result" where
  "gateway_start shw max_age_hours file =
     (case load_from_cache shw (state_init True max_age_hours file) of
        (Got b, st) \<Rightarrow> Started b st
      | (Raised x, st) \<Rightarrow> StartFailed x
      | (Untyped, st) \<Rightarrow> StartUntyped)"

section \<open>The refresh thread\<close>

record refresher =
  rf_last_active :: "bool option"
  rf_failures :: nat

record refresh_env =
  fe_now :: clock
  fe_write :: bool                       \<comment> \<open>whether the cache file can be written\<close>
  fe_fetch :: "gateway_config res"
  fe_jitter :: rat                       \<comment> \<open>the draw from \<open>uniform(-0.2, 0.2)\<close>\<close>

definition refresh_error_text :: "pyexc \<Rightarrow> string" where
  "refresh_error_text x =
     (if exc_class x = ''GatewayConfigError'' then exc_text x
      else ''unexpected_error: '' @ exc_class x @ '': '' @ exc_text x)"

definition refresh_wait :: "int \<Rightarrow> nat \<Rightarrow> rat \<Rightarrow> rat" where
  "refresh_wait refresh_sec fails jitter =
     (let base = of_int (max 5 refresh_sec); backoff = min 300 (base * 2 ^ min (fails - 1) 8)
      in max base (backoff + backoff * jitter))"

text \<open>One turn of the \<open>while\<close>: the pause it ends with, and the thread's variables, the state and the
  \<open>config_ready\<close> event after it.\<close>

definition refresh_turn ::
  "int \<Rightarrow> refresh_env \<Rightarrow> refresher \<times> gw_state \<times> bool \<Rightarrow> rat \<times> refresher \<times> gw_state \<times> bool" where
  "refresh_turn refresh_sec e x = (case x of (rf, st, ready) \<Rightarrow> (case fe_fetch e of
       Inr g \<Rightarrow>
         (of_int (max 5 refresh_sec), \<lparr>rf_last_active = Some (g_active g), rf_failures = 0\<rparr>,
          snd (state_update (fe_write e) (fe_now e) g st), True)
     | Inl y \<Rightarrow>
         (let rf1 = rf\<lparr>rf_failures := Suc (rf_failures rf)\<rparr>
          in (refresh_wait refresh_sec (rf_failures rf1) (fe_jitter e), rf1,
              record_refresh_error (fe_now e) (refresh_error_text y) st, ready))))"

fun refresh_run ::
  "int \<Rightarrow> refresh_env list \<Rightarrow> refresher \<times> gw_state \<times> bool \<Rightarrow> rat list \<times> refresher \<times> gw_state \<times> bool" where
  "refresh_run refresh_sec [] x = ([], x)"
| "refresh_run refresh_sec (e # es) x =
     (case refresh_turn refresh_sec e x of (w, x1) \<Rightarrow>
       (case refresh_run refresh_sec es x1 of (ws, x2) \<Rightarrow> (w # ws, x2)))"

section \<open>The service loop\<close>

record ('re, 'pe, 'r) turn_env =
  te_now :: clock                                      \<comment> \<open>\<open>time.monotonic()\<close>\<close>
  te_epoch :: clock                                    \<comment> \<open>\<open>time.time()\<close> after the cycle\<close>
  te_refresh :: "('r \<Rightarrow> (nat \<times> nat) res \<times> 'r) option"    \<comment> \<open>\<open>refresh_all_devices\<close>, if the reader has it\<close>
  te_cycle :: "('re, 'pe) cycle"

definition dispatch_refresh ::
  "('r \<Rightarrow> (nat \<times> nat) res \<times> 'r) option \<Rightarrow> ('r, 'b) world \<Rightarrow> ('r, 'b) world" where
  \<comment> \<open>an exception of the reader is logged\<close>
  "dispatch_refresh refresh w = (case take_refresh_request (wd_state w) of (req, st) \<Rightarrow>
     w\<lparr>wd_state := st,
       wd_reader := (case refresh of Some f \<Rightarrow> if req then snd (f (wd_reader w)) else wd_reader w
                       | None \<Rightarrow> wd_reader w)\<rparr>)"

definition service_turn ::
  "('re \<Rightarrow> device_config \<Rightarrow> signal_config list \<Rightarrow> 'r \<Rightarrow> signal_reading list res \<times> 'r) \<Rightarrow>
   (string set \<Rightarrow> 'r \<Rightarrow> nat \<times> 'r) \<Rightarrow> ('pe \<Rightarrow> msg \<Rightarrow> 'b \<Rightarrow> unit res \<times> 'b) \<Rightarrow> ('b \<Rightarrow> bool) \<Rightarrow>
   string \<Rightarrow> int \<Rightarrow> ('re, 'pe, 'r) turn_env \<Rightarrow> ('r, 'b) world \<times> gw_metrics \<Rightarrow>
   msg list \<times> ('r, 'b) world \<times> gw_metrics" where
  "service_turn rd forget pub full gw max_parallel e x = (case x of (w, mx) \<Rightarrow>
     let w1 = dispatch_refresh (te_refresh e) w; due = length (due_devices (te_now e) (wd_state w1))
     in case run_poll_cycle rd forget pub full gw (te_cycle e) (te_now e) max_parallel w1 of
          (ms, w2) \<Rightarrow>
            (ms, w2, if due \<noteq> 0 \<or> ms \<noteq> [] then record_cycle (te_epoch e) due (length ms) mx else mx))"

fun service_run ::
  "('re \<Rightarrow> device_config \<Rightarrow> signal_config list \<Rightarrow> 'r \<Rightarrow> signal_reading list res \<times> 'r) \<Rightarrow>
   (string set \<Rightarrow> 'r \<Rightarrow> nat \<times> 'r) \<Rightarrow> ('pe \<Rightarrow> msg \<Rightarrow> 'b \<Rightarrow> unit res \<times> 'b) \<Rightarrow> ('b \<Rightarrow> bool) \<Rightarrow>
   string \<Rightarrow> int \<Rightarrow> ('re, 'pe, 'r) turn_env list \<Rightarrow> ('r, 'b) world \<times> gw_metrics \<Rightarrow>
   msg list list \<times> ('r, 'b) world \<times> gw_metrics" where
  "service_run rd forget pub full gw mp [] x = ([], x)"
| "service_run rd forget pub full gw mp (e # es) x =
     (case service_turn rd forget pub full gw mp e x of (ms, x1) \<Rightarrow>
       (case service_run rd forget pub full gw mp es x1 of (mss, x2) \<Rightarrow> (ms # mss, x2)))"

section \<open>Shutdown\<close>

text \<open>Every step is guarded on its own: an exception of one does not keep the next from running. A step
  here is a close with the exception it may raise; what it raises does not change what it did.\<close>

definition retrier_stop :: "bool \<Rightarrow> retrier \<Rightarrow> retrier" where
  \<comment> \<open>\<open>stop\<close>: the flag says whether the thread ended within the timeout\<close>
  "retrier_stop joined rt = rt\<lparr>rt_thread := False, rt_alive := rt_alive rt \<and> \<not> joined\<rparr>"

definition rp_close :: "(jetstream, 's) pub_sys \<Rightarrow> (jetstream, 's) pub_sys" where
  "rp_close sys = sys\<lparr>ps_broker := js_close (ps_broker sys)\<rparr>"

fun guarded_steps :: "('s \<Rightarrow> pyexc option \<times> 's) list \<Rightarrow> 's \<Rightarrow> 's" where
  "guarded_steps [] s = s"
| "guarded_steps (f # fs) s = guarded_steps fs (snd (f s))"

record 'r process =
  pr_refreshing :: bool
  pr_reader :: 'r
  pr_retrier :: retrier
  pr_pub :: "(jetstream, outbox) pub_sys"
  pr_health :: bool

record shutdown_env =
  sd_refresh_joined :: bool
  sd_retrier_joined :: bool
  sd_raises :: "nat \<Rightarrow> pyexc option"    \<comment> \<open>what the i-th step raises after it did its work\<close>

definition shutdown :: "shutdown_env \<Rightarrow> ('r \<Rightarrow> 'r) \<Rightarrow> 'r process \<Rightarrow> 'r process" where
  "shutdown e close = guarded_steps
     [\<lambda>p. (sd_raises e 0, p\<lparr>pr_refreshing := pr_refreshing p \<and> \<not> sd_refresh_joined e\<rparr>),
      \<lambda>p. (sd_raises e 1, p\<lparr>pr_reader := close (pr_reader p)\<rparr>),
      \<lambda>p. (sd_raises e 2, p\<lparr>pr_retrier := retrier_stop (sd_retrier_joined e) (pr_retrier p)\<rparr>),
      \<lambda>p. (sd_raises e 3, p\<lparr>pr_pub := rp_close (pr_pub p)\<rparr>),
      \<lambda>p. (sd_raises e 4, p\<lparr>pr_health := False\<rparr>)]"


section \<open>Properties\<close>

text \<open>A gateway that starts without the backend polls at once: if the last configuration was written to
  the cache file, a new process starts from it with the configuration ready and its activity flag, and a
  device is due in the first turn as soon as the clock has passed its interval.\<close>

theorem offline_start:
  assumes "st_has_path st" and "state_update w now g st = (True, st1)" and "w"
    and "gateway_start shw hours (st_file st1) = r"
  shows "\<exists>st2. r = Started True st2 \<and> st_devices st2 = g_devices g \<and> st_signals st2 = g_signals g \<and>
    st_active st2 = g_active g \<and>
    (\<forall>t. due_devices t st2 = filter (\<lambda>d. t \<ge> of_int (max 1 (d_poll_interval d))) (g_devices g))"
proof -
  have f: "st_file st1 = CacheFile (snapshot_json now g)"
    using assms(1-3) by (auto simp: state_update_def Let_def persist_def note_nonce_def)
  let ?st0 = "state_init True hours (CacheFile (snapshot_json now g))"
  have "load_from_cache shw ?st0 = (Got True, ?st0\<lparr>st_devices := g_devices g, st_signals := g_signals g,
      st_active := g_active g, st_name := g_name g, st_version := g_version g, st_loaded_at := Some (Fin now)\<rparr>)"
    by (rule load_snapshot) (simp_all add: state_init_def)
  then have "r = Started True (?st0\<lparr>st_devices := g_devices g, st_signals := g_signals g,
      st_active := g_active g, st_name := g_name g, st_version := g_version g, st_loaded_at := Some (Fin now)\<rparr>)"
    using assms(4) by (simp add: gateway_start_def f)
  then show ?thesis by (simp add: due_devices_def is_due_def [abs_def] state_init_def)
qed

theorem offline_start_witness:
  "(case gateway_start (\<lambda>v. []) 24 (st_file (snd (state_update True 100 sample_config (state_init True 24 NoFile)))) of
      Started b st \<Rightarrow> b \<and> due_devices 60 st = [sample_device] | _ \<Rightarrow> False)"
proof -
  have "state_update True 100 sample_config (state_init True 24 NoFile) =
      (True, snd (state_update True 100 sample_config (state_init True 24 NoFile)))" "st_has_path (state_init True 24 NoFile)"
    by (auto simp: state_update_def state_init_def sample_config_def Let_def persist_def note_nonce_def)
  from offline_start [OF this(2,1) TrueI refl, of "\<lambda>v. []" 24]
  show ?thesis by (auto simp: sample_config_def sample_device_def default_device_def)
qed

text \<open>A cache file whose JSON is not an object keeps the gateway from starting: the \<open>AttributeError\<close>
  of \<open>load_from_cache\<close> ends \<open>run\<close>, while a missing or unreadable file only means waiting for the backend.\<close>

theorem odd_cache_stops_start:
  "gateway_start shw hours (CacheFile (JArr xs)) = StartFailed attribute_error \<and>
   gateway_start shw hours (CacheFile JNull) = StartFailed attribute_error \<and>
   gateway_start shw hours NoFile = Started False (state_init True hours NoFile) \<and>
   gateway_start shw hours BadFile = Started False (state_init True hours BadFile)"
  by (simp add: gateway_start_def load_from_cache_def state_init_def)

definition same_config :: "gw_state \<Rightarrow> gw_state \<Rightarrow> bool" where
  "same_config a b \<longleftrightarrow> st_devices a = st_devices b \<and> st_signals a = st_signals b \<and> st_active a = st_active b \<and>
     st_version a = st_version b \<and> st_last_read a = st_last_read b \<and> st_file a = st_file b"

lemma refresh_wait_bounds:
  assumes "\<bar>u\<bar> \<le> 1 / 5"
  shows "of_int (max 5 sec) \<le> refresh_wait sec n u \<and> refresh_wait sec n u \<le> max (of_int (max 5 sec)) 360"
proof -
  define b where "b = min 300 (of_int (max 5 sec) * 2 ^ min (n - 1) 8 :: rat)"
  have b: "0 \<le> b" "b \<le> 300" by (auto simp: b_def)
  have "b * u \<le> b * (1 / 5)" using assms b(1) by (intro mult_left_mono) auto
  then have "b + b * u \<le> 360" using b by simp
  moreover have "refresh_wait sec n u = max (of_int (max 5 sec)) (b + b * u)"
    by (simp only: refresh_wait_def Let_def b_def)
  ultimately show ?thesis by (auto simp: max_def)
qed

text \<open>C24: An unreachable backend changes nothing but the error: however many refreshes in a row fail, for
  whatever reason, the thread goes on, configuration, read times, cache file and \<open>config_ready\<close> stay, the
  failures are counted, the last error is recorded, and every pause is between the refresh interval and
  the larger of it and 360 seconds.\<close>

theorem refresh_outage:
  assumes "\<forall>e \<in> set es. raised (fe_fetch e) \<and> \<bar>fe_jitter e\<bar> \<le> 1 / 5"
    and "refresh_run sec es (rf, st, ready) = (ws, rf', st', ready')"
  shows "same_config st' st \<and> ready' = ready \<and> rf_failures rf' = rf_failures rf + length es \<and>
    (es \<noteq> [] \<longrightarrow> st_refresh_error st' \<noteq> None) \<and> length ws = length es \<and>
    (\<forall>w \<in> set ws. of_int (max 5 sec) \<le> w \<and> w \<le> max (of_int (max 5 sec)) 360)"
  using assms
proof (induction es arbitrary: rf st ready ws)
  case (Cons e es)
  obtain y where y: "fe_fetch e = Inl y" using Cons.prems(1) by (cases "fe_fetch e") (auto simp: raised_def)
  define st1 where "st1 = record_refresh_error (fe_now e) (refresh_error_text y) st"
  define rf1 where "rf1 = rf\<lparr>rf_failures := Suc (rf_failures rf)\<rparr>"
  obtain ws1 where r: "refresh_run sec es (rf1, st1, ready) = (ws1, rf', st', ready')"
    and ws: "ws = refresh_wait sec (Suc (rf_failures rf)) (fe_jitter e) # ws1"
    using Cons.prems(2) y by (auto simp: refresh_turn_def Let_def st1_def rf1_def split: prod.splits)
  have s: "same_config st1 st" "st_refresh_error st1 \<noteq> None" "rf_failures rf1 = Suc (rf_failures rf)"
    by (simp_all add: same_config_def st1_def rf1_def record_refresh_error_def)
  have ih: "same_config st' st1 \<and> ready' = ready \<and> rf_failures rf' = rf_failures rf1 + length es \<and>
    (es \<noteq> [] \<longrightarrow> st_refresh_error st' \<noteq> None) \<and> length ws1 = length es \<and>
    (\<forall>w \<in> set ws1. of_int (max 5 sec) \<le> w \<and> w \<le> max (of_int (max 5 sec)) 360)"
    using Cons.IH [OF _ r] Cons.prems(1) by simp
  moreover have "es = [] \<Longrightarrow> st' = st1" using r by simp
  moreover have "of_int (max 5 sec) \<le> refresh_wait sec (Suc (rf_failures rf)) (fe_jitter e) \<and>
      refresh_wait sec (Suc (rf_failures rf)) (fe_jitter e) \<le> max (of_int (max 5 sec)) 360"
    by (rule refresh_wait_bounds) (use Cons.prems(1) in simp)
  ultimately show ?case using s ws by (auto simp: same_config_def)
qed (simp add: same_config_def)

definition failed_refresh :: refresh_env where
  "failed_refresh = \<lparr>fe_now = 7, fe_write = True, fe_fetch = Inl (config_error ''config request failed''), fe_jitter = 1 / 10\<rparr>"

lemma refresh_run_split:
  "refresh_run sec es x = (fst (refresh_run sec es x), fst (snd (refresh_run sec es x)),
     fst (snd (snd (refresh_run sec es x))), snd (snd (snd (refresh_run sec es x))))"
  by simp

lemma service_run_split:
  "service_run rd forget pub full gw mp es x = (fst (service_run rd forget pub full gw mp es x),
     fst (snd (service_run rd forget pub full gw mp es x)), snd (snd (service_run rd forget pub full gw mp es x)))"
  by simp

theorem refresh_outage_witness:
  "rf_failures (fst (snd (refresh_run 30 [failed_refresh, failed_refresh]
     (\<lparr>rf_last_active = None, rf_failures = 0\<rparr>, sample_state, True)))) = 2"
  using refresh_outage [of "[failed_refresh, failed_refresh]" 30 "\<lparr>rf_last_active = None, rf_failures = 0\<rparr>"
      sample_state True, OF _ refresh_run_split]
  by (simp add: failed_refresh_def)

text \<open>The metrics count what they say: over any turns of the service loop the published counter grows by
  exactly the number of events published and the cycle counter by at most one per turn; the counters of
  skipped readings and of read and publish errors never move, whatever fails.\<close>

theorem metrics_count:
  assumes "service_run rd forget pub full gw mp es (w, mx) = (mss, w', mx')"
  shows "mx_published mx' = mx_published mx + length (concat mss) \<and>
    mx_cycles mx \<le> mx_cycles mx' \<and> mx_cycles mx' \<le> mx_cycles mx + length es \<and>
    (mx_skipped mx', mx_publish_errors mx', mx_read_errors mx') = (mx_skipped mx, mx_publish_errors mx, mx_read_errors mx)"
  using assms
proof (induction es arbitrary: w mx mss)
  case (Cons e es)
  obtain ms w1 mx1 where t: "service_turn rd forget pub full gw mp e (w, mx) = (ms, w1, mx1)" by (metis prod_cases3)
  obtain mss1 where r: "service_run rd forget pub full gw mp es (w1, mx1) = (mss1, w', mx')" and mss: "mss = ms # mss1"
    using Cons.prems t by (auto split: prod.splits)
  have "mx1 = mx \<and> ms = [] \<or> (\<exists>t n. mx1 = record_cycle t n (length ms) mx)"
    using t by (auto simp: service_turn_def Let_def split: prod.splits if_splits)
  then show ?case using Cons.IH [OF r] mss by (auto simp: record_cycle_def)
qed simp

theorem metrics_count_witness:
  "mx_read_errors (snd (snd (service_run mock_read mock_forget js_pub_publish rp_outbox_full ''GW1'' 1
     [\<lparr>te_now = 9, te_epoch = 9, te_refresh = None, te_cycle = sample_poll (sample_poll_env [])\<rparr>]
     (\<lparr>wd_state = sample_state, wd_reader = (), wd_pub = sample_sys\<rparr>, metrics_init 0 0)))) = 0"
  using metrics_count [OF service_run_split, of mock_read mock_forget js_pub_publish rp_outbox_full "''GW1''" 1
      "[\<lparr>te_now = 9, te_epoch = 9, te_refresh = None, te_cycle = sample_poll (sample_poll_env [])\<rparr>]"
      "\<lparr>wd_state = sample_state, wd_reader = (), wd_pub = sample_sys\<rparr>" "metrics_init 0 0"]
  by (simp add: metrics_init_def)

text \<open>A turn that an open breaker skips counts as a poll cycle, so \<open>no_poll_cycles_yet\<close> cannot show it.\<close>

lemma skipped_turn_counts:
  assumes "full (wd_pub w)" and "due_devices (te_now e) (wd_state w) \<noteq> []"
    and "service_turn rd forget pub full gw mp e (w, mx) = (ms, w', mx')"
  shows "ms = [] \<and> mx_cycles mx' = Suc (mx_cycles mx)"
proof -
  have "due_devices (te_now e) (wd_state (dispatch_refresh (te_refresh e) w)) = due_devices (te_now e) (wd_state w)"
    "wd_pub (dispatch_refresh (te_refresh e) w) = wd_pub w"
    by (auto simp: dispatch_refresh_def take_refresh_request_def due_devices_def is_due_def [abs_def] split: if_splits)
  then show ?thesis
    using assms by (auto simp: service_turn_def Let_def run_poll_cycle_def record_cycle_def split: prod.splits if_splits)
qed



end
