(* ===== verification/System.thy ===== *)
theory System
  imports Service
begin

text \<open>
  The running gateway: the service loop, the refresh thread, the retrier thread and the connection to the
  stream on one state, with restarts of the process on the files it left. A step is one turn of one thread
  (what two turns share is guarded by the locks of state, outbox and event loop; for the delivery path the
  finer interleaving is \<open>dv_step\<close>). The reader is any implementation of the reader contract.
\<close>

section \<open>State and steps\<close>

text \<open>Ghosts: \<open>sy_log\<close> are the events this process counted as published, \<open>sy_past\<close> those of earlier ones.\<close>

record 'r system =
  sy_world :: "('r, (jetstream, outbox) pub_sys) world"
  sy_retrier :: retrier
  sy_refresher :: refresher
  sy_ready :: bool
  sy_metrics :: gw_metrics
  sy_log :: "msg list"
  sy_past :: "msg set"

definition fetched :: "gateway_config res \<Rightarrow> bool" where
  "fetched r \<longleftrightarrow> (\<exists>shw env loads n token code h. r = fetch_config shw env loads n token code h)"

definition turn_good :: "('re, (js_reply, db_env) pub_env, 'r) turn_env \<Rightarrow> bool" where
  "turn_good e \<longleftrightarrow> (\<forall>c i. store_good (pe_store (pl_pub (cy_dev (te_cycle e) c) i))) \<and>
     (\<forall>ds. set (cy_order (te_cycle e) ds) = set ds)"

definition after_turn :: "msg list \<Rightarrow> ('r, (jetstream, outbox) pub_sys) world \<Rightarrow> gw_metrics \<Rightarrow> 'r system \<Rightarrow> 'r system" where
  "after_turn ms w mx s = s\<lparr>sy_world := w, sy_metrics := mx, sy_log := sy_log s @ ms\<rparr>"

definition after_refresh :: "refresher \<Rightarrow> gw_state \<Rightarrow> bool \<Rightarrow> 'r system \<Rightarrow> 'r system" where
  "after_refresh rf st ready s =
     s\<lparr>sy_world := (sy_world s)\<lparr>wd_state := st\<rparr>, sy_refresher := rf, sy_ready := ready\<rparr>"

definition with_pub :: "(jetstream, outbox) pub_sys \<Rightarrow> 'r system \<Rightarrow> 'r system" where
  "with_pub p s = s\<lparr>sy_world := (sy_world s)\<lparr>wd_pub := p\<rparr>\<rparr>"

text \<open>A new process on the outbox file and the cache file; the stream keeps what it has.\<close>

definition restarted :: "jetstream \<Rightarrow> retrier \<Rightarrow> 'r \<Rightarrow> clock \<times> clock \<Rightarrow> bool \<Rightarrow> gw_state \<Rightarrow> 'r system \<Rightarrow> 'r system" where
  "restarted js rt r now ready st s =
     \<lparr>sy_world = \<lparr>wd_state = st, wd_reader = r,
        wd_pub = \<lparr>ps_broker = js\<lparr>js_stored := js_stored (ps_broker (wd_pub (sy_world s)))\<rparr>,
          ps_store = outbox_restart (ps_store (wd_pub (sy_world s))), ps_rp = rp_init\<rparr>\<rparr>,
      sy_retrier = rt, sy_refresher = \<lparr>rf_last_active = None, rf_failures = 0\<rparr>, sy_ready = ready,
      sy_metrics = metrics_init (fst now) (snd now), sy_log = [], sy_past = set (sy_log s) \<union> sy_past s\<rparr>"

inductive sys_step ::
  "('re \<Rightarrow> device_config \<Rightarrow> signal_config list \<Rightarrow> 'r \<Rightarrow> signal_reading list res \<times> 'r) \<Rightarrow>
   (string set \<Rightarrow> 'r \<Rightarrow> nat \<times> 'r) \<Rightarrow> string \<Rightarrow> int \<Rightarrow> int \<Rightarrow> 'r system \<Rightarrow> 'r system \<Rightarrow> bool"
  for rd forget gw mp sec where
  sy_poll: "turn_good e \<Longrightarrow>
    service_turn rd forget js_pub_publish rp_outbox_full gw mp e (sy_world s, sy_metrics s) = (ms, w, mx) \<Longrightarrow>
    sys_step rd forget gw mp sec s (after_turn ms w mx s)"
| sy_refresh: "fetched (fe_fetch fe) \<Longrightarrow>
    refresh_turn sec fe (sy_refresher s, wd_state (sy_world s), sy_ready s) = (p, rf, st, ready) \<Longrightarrow>
    sys_step rd forget gw mp sec s (after_refresh rf st ready s)"
| sy_retry: "\<forall>i. store_good (re_db (ce_rows ce i)) \<Longrightarrow>
    retrier_cycle js_publish ce (sy_retrier s, wd_pub (sy_world s)) = (q, rt, sys) \<Longrightarrow>
    sys_step rd forget gw mp sec s (with_pub sys s\<lparr>sy_retrier := rt\<rparr>)"
| sy_network: "js_step (ps_broker (wd_pub (sy_world s))) js \<Longrightarrow>
    js_stored js = js_stored (ps_broker (wd_pub (sy_world s))) \<Longrightarrow>
    sys_step rd forget gw mp sec s (with_pub ((wd_pub (sy_world s))\<lparr>ps_broker := js\<rparr>) s)"
| sy_restart: "gateway_start shw hours (st_file (wd_state (sy_world s))) = Started ready st \<Longrightarrow>
    js_create True pre code = Some js \<Longrightarrow> rt = retrier_start (retrier_init poll batch retries bmin bmax factor) \<Longrightarrow>
    sys_step rd forget gw mp sec s (restarted js rt r now ready st s)"

section \<open>The invariant\<close>

definition sound_event :: "string \<Rightarrow> msg \<Rightarrow> bool" where
  "sound_event gw m \<longleftrightarrow> (\<exists>d s. device_ok d \<and> signal_ok s \<and> event_of gw [s] [d] m)"

definition config_fine :: "gw_state \<Rightarrow> bool" where
  "config_fine st \<longleftrightarrow> list_all device_ok (st_devices st) \<and> list_all signal_ok (st_signals st) \<and>
     length (st_devices st) \<le> 1000 \<and> length (st_signals st) \<le> 5000 \<and>
     (\<forall>j. st_file st = CacheFile j \<longrightarrow> (\<exists>now g. j = snapshot_json now g \<and> config_ok g))"

definition ghost :: "'r system \<Rightarrow> delivery" where
  "ghost s = \<lparr>dv_sys = wd_pub (sy_world s), dv_pc = AtFetch, dv_done = norm_msg ` (set (sy_log s) \<union> sy_past s),
     dv_tried = UNIV\<rparr>"

definition sys_inv :: "string \<Rightarrow> 'r system \<Rightarrow> bool" where
  "sys_inv gw s \<longleftrightarrow> dv_inv (ghost s) \<and> config_fine (wd_state (sy_world s)) \<and>
     (\<forall>m \<in> set (sy_log s) \<union> sy_past s. sound_event gw m) \<and> mx_published (sy_metrics s) = length (sy_log s)"

definition sys_start :: "'r system \<Rightarrow> bool" where
  "sys_start s \<longleftrightarrow> store_inv (ps_store (wd_pub (sy_world s))) \<and> config_fine (wd_state (sy_world s)) \<and>
     sy_log s = [] \<and> sy_past s = {} \<and> mx_published (sy_metrics s) = 0"

lemma sys_start_inv: "sys_start s \<Longrightarrow> sys_inv gw s"
  by (simp add: sys_start_def sys_inv_def dv_inv_def ghost_def)

subsection \<open>The configuration\<close>

text \<open>What the poller and the refresh request leave alone.\<close>

definition same_setup :: "gw_state \<Rightarrow> gw_state \<Rightarrow> bool" where
  "same_setup a b \<longleftrightarrow> st_devices a = st_devices b \<and> st_signals a = st_signals b \<and> st_file a = st_file b"

lemma same_setup_simps [simp]:
  "same_setup st st" "same_setup (mark_read c t st) st0 = same_setup st st0"
  "same_setup (snd (take_refresh_request st)) st" "same_setup (record_refresh_error t x st) st"
  by (auto simp: same_setup_def mark_read_def take_refresh_request_def record_refresh_error_def)

lemma same_setup_fine: "same_setup a b \<Longrightarrow> config_fine a = config_fine b"
  by (simp add: same_setup_def config_fine_def)

lemma serial_setup:
  "serial_loop rd pub gw e now ss ds w = (ms, w') \<Longrightarrow> same_setup (wd_state w) st0 \<Longrightarrow> same_setup (wd_state w') st0"
proof (induction ds arbitrary: w ms)
  case (Cons d ds)
  then show ?case by (fastforce simp: Let_def split: if_splits prod.splits sum.splits)
qed simp

lemma marks_setup: "same_setup (fold (\<lambda>d. mark_read (d_code d) now) ds st) st0 = same_setup st st0"
  by (induction ds arbitrary: st) simp_all

lemma cycle_setup:
  assumes "run_poll_cycle rd forget pub full gw e now mp w = (ms, w')"
  shows "same_setup (wd_state w') (wd_state w)"
  using assms
  by (auto simp: run_poll_cycle_def Let_def parallel_cycle_def marks_setup split: if_splits prod.splits
      intro: serial_setup [where w = "w\<lparr>wd_reader := r\<rparr>" for r])

lemma update_fine:
  assumes "config_fine st" "config_ok g"
  shows "config_fine (snd (state_update wr now g st))"
proof -
  have "list_all device_ok (g_devices g)" "list_all signal_ok (g_signals g)" "length (g_devices g) \<le> 1000"
    "length (g_signals g) \<le> 5000" using assms(2) by (simp_all add: config_ok_def)
  then show ?thesis using assms
    by (auto simp: config_fine_def state_update_def Let_def persist_def note_nonce_def)
qed

lemma started_fine:
  assumes "gateway_start shw hours (st_file st0) = Started ready st" "config_fine st0"
  shows "config_fine st"
proof (cases "st_file st0")
  case (CacheFile j)
  then obtain now g where j: "j = snapshot_json now g" and ok: "config_ok g" using assms(2) by (auto simp: config_fine_def)
  let ?st = "state_init True hours (CacheFile (snapshot_json now g))"
  have "load_from_cache shw ?st = (Got True, ?st\<lparr>st_devices := g_devices g, st_signals := g_signals g,
      st_active := g_active g, st_name := g_name g, st_version := g_version g, st_loaded_at := Some (Fin now)\<rparr>)"
    by (rule load_snapshot) (simp_all add: state_init_def)
  then have "st = ?st\<lparr>st_devices := g_devices g, st_signals := g_signals g,
      st_active := g_active g, st_name := g_name g, st_version := g_version g, st_loaded_at := Some (Fin now)\<rparr>"
    using assms(1) by (simp add: gateway_start_def CacheFile j)
  moreover have "st_file ?st = CacheFile (snapshot_json now g)" by (simp add: state_init_def)
  ultimately show ?thesis using ok by (auto simp: config_fine_def config_ok_def)
qed (use assms(1) in \<open>auto simp: gateway_start_def load_from_cache_def state_init_def config_fine_def\<close>)

lemma fetch_config_limits:
  assumes "fetch_config shw env loads n token code h = Inr g"
  shows "config_ok g"
proof (cases h)
  case (HttpOk r)
  then obtain b where "(case loads b of
              Inl t \<Rightarrow> Inl (config_error (''config response is not json: '' @ t))
            | Inr (JObj data) \<Rightarrow> parse_gateway_config shw env data code
            | Inr v \<Rightarrow> Inl (config_error (''config response root must be object, got '' @ type_name v))) = Inr g"
    using assms unfolding fetch_config_def by (auto simp: Let_def and_then_Inr simp del: json.case sum.case split: if_splits)
  then show ?thesis by (cases "loads b"; cases "projr (loads b)") (auto dest: parse_config_limits)
qed (use assms in \<open>simp add: fetch_config_def\<close>)

lemma fetched_ok: "fetched (Inr g) \<Longrightarrow> config_ok g"
  unfolding fetched_def using fetch_config_limits by metis

subsection \<open>Every reader runs under this publisher\<close>

sublocale telemetry_reader \<subseteq> js_polling: polling rd forget live js_pub_good js_pub_inv js_pub_safe rp_outbox_full
  js_pub_publish
  by unfold_locales

lemma dispatch_facts:
  "wd_pub (dispatch_refresh f w) = wd_pub w" "same_setup (wd_state (dispatch_refresh f w)) (wd_state w)"
  by (auto simp: dispatch_refresh_def split: prod.splits dest!: arg_cong [where f = snd])

lemma event_sound:
  assumes "event_of gw (filter_readable_signals (st_signals st)) (due_devices now st) m" "config_fine st"
  shows "sound_event gw m"
proof -
  obtain d s where ds: "d \<in> set (due_devices now st)" "s \<in> set (filter_readable_signals (st_signals st))"
    "event_of gw [s] [d] m" using assms(1) by (auto simp: event_of_def)
  then have "d \<in> set (st_devices st)" "s \<in> set (st_signals st)"
    by (auto simp: due_devices_def filter_readable_signals_def)
  then show ?thesis using ds(3) assms(2) by (auto simp: sound_event_def config_fine_def list_all_iff)
qed

context telemetry_reader
begin

lemma poll_inv:
  assumes "sys_inv gw s" "turn_good e"
    "service_turn rd forget js_pub_publish rp_outbox_full gw mp e (sy_world s, sy_metrics s) = (ms, w, mx)"
  shows "sys_inv gw (after_turn ms w mx s)"
proof -
  let ?w1 = "dispatch_refresh (te_refresh e) (sy_world s)"
  have c: "run_poll_cycle rd forget js_pub_publish rp_outbox_full gw (te_cycle e) (te_now e) mp ?w1 = (ms, w)"
    and mx: "mx = sy_metrics s \<and> ms = [] \<or> (\<exists>t n. mx = record_cycle t n (length ms) (sy_metrics s))"
    using assms(3) by (auto simp: service_turn_def Let_def split: prod.splits if_splits)
  have inv: "dv_inv (ghost s)" "config_fine (wd_state (sy_world s))" using assms(1) by (simp_all add: sys_inv_def)
  have fine: "config_fine (wd_state ?w1)" using inv(2) same_setup_fine dispatch_facts(2) by blast
  have o: "store_inv (ps_store (wd_pub w))" "js_pub_safe (wd_pub (sy_world s)) \<subseteq> js_pub_safe (wd_pub w)"
    "norm_msg ` set ms \<subseteq> js_pub_safe (wd_pub w)"
    "\<forall>m \<in> set ms. event_of gw (filter_readable_signals (st_signals (wd_state ?w1))) (due_devices (te_now e) (wd_state ?w1)) m"
    using js_polling.cycle_outcome [OF _ _ _ c] assms(2) inv(1)
    by (auto simp: turn_good_def js_pub_good_def js_pub_inv_def dispatch_facts(1) dv_inv_def ghost_def)
  have "config_fine (wd_state w)" using fine same_setup_fine cycle_setup [OF c] by blast
  moreover have "\<forall>m \<in> set ms. sound_event gw m" using o(4) event_sound fine by blast
  moreover have "dv_inv (ghost (after_turn ms w mx s))"
    using inv(1) o(1-3) by (auto simp: dv_inv_def ghost_def after_turn_def js_pub_safe_def)
  moreover have "mx_published mx = mx_published (sy_metrics s) + length ms" using mx by (auto simp: record_cycle_def)
  ultimately show ?thesis using assms(1) by (auto simp: sys_inv_def after_turn_def)
qed

lemma sys_step_inv: "sys_step rd forget gw mp sec s s' \<Longrightarrow> sys_inv gw s \<Longrightarrow> sys_inv gw s'"
proof (induction rule: sys_step.induct)
  case (sy_poll e s ms w mx)
  then show ?case using poll_inv by blast
next
  case (sy_refresh fe s p rf st ready)
  have "config_fine st"
  proof (cases "fe_fetch fe")
    case (Inl x)
    then have "same_setup st (wd_state (sy_world s))" using sy_refresh.hyps(2) by (auto simp: refresh_turn_def Let_def)
    then show ?thesis using sy_refresh.prems same_setup_fine by (auto simp: sys_inv_def)
  next
    case (Inr g)
    then have "st = snd (state_update (fe_write fe) (fe_now fe) g (wd_state (sy_world s)))"
      using sy_refresh.hyps(2) by (simp add: refresh_turn_def)
    then show ?thesis using update_fine fetched_ok sy_refresh.hyps(1) sy_refresh.prems Inr by (auto simp: sys_inv_def)
  qed
  then show ?case using sy_refresh.prems by (simp add: sys_inv_def after_refresh_def ghost_def)
next
  case (sy_retry ce s q rt sys)
  have "dv_inv ((ghost s)\<lparr>dv_sys := sys\<rparr>)"
    using retrier_cycle_inv [of "ghost s" ce "sy_retrier s" q rt sys] sy_retry by (simp add: sys_inv_def ghost_def)
  then show ?case using sy_retry.prems by (simp add: sys_inv_def with_pub_def ghost_def)
next
  case (sy_network s js)
  then show ?case by (simp add: sys_inv_def with_pub_def ghost_def dv_inv_def js_accepted_def)
next
  case (sy_restart shw hours s ready st pre code js rt poll batch retries bmin bmax factor r now)
  have "dv_inv (crash js (ghost s))"
    using inv_step [OF dv_crash [OF sy_restart.hyps(2)]] sy_restart.prems by (simp add: sys_inv_def)
  moreover have "config_fine st" using started_fine sy_restart.hyps(1) sy_restart.prems by (auto simp: sys_inv_def)
  ultimately show ?case using sy_restart.prems
    by (auto simp: sys_inv_def restarted_def ghost_def crash_def metrics_init_def)
qed

lemma sys_steps_inv: "(sys_step rd forget gw mp sec)\<^sup>*\<^sup>* s s' \<Longrightarrow> sys_inv gw s \<Longrightarrow> sys_inv gw s'"
  by (induction rule: rtranclp_induct) (auto dest: sys_step_inv)

end

definition sample_system :: "yad_reader system" where
  "sample_system = \<lparr>sy_world = \<lparr>wd_state = sample_state, wd_reader = sample_yad, wd_pub = sample_sys\<rparr>,
     sy_retrier = sample_retrier, sy_refresher = \<lparr>rf_last_active = None, rf_failures = 0\<rparr>, sy_ready = True,
     sy_metrics = metrics_init 0 0, sy_log = [], sy_past = {}\<rparr>"

definition sample_turn :: "(yad_env, (js_reply, db_env) pub_env, yad_reader) turn_env" where
  "sample_turn = \<lparr>te_now = 100, te_epoch = 1700000000, te_refresh = None,
     te_cycle = sample_poll (sample_poll_env \<lparr>ye_now = 100, ye_create = None, ye_poll = True\<rparr>)\<rparr>"

lemma sample_turn_good: "turn_good sample_turn"
  by (simp add: turn_good_def sample_turn_def sample_poll_def sample_poll_env_def sample_env_def store_good_def)

lemma sample_system_start: "sys_start sample_system"
proof -
  have "is_safe_device_ip (d_ip sample_device)" by code_simp
  then have ok: "config_ok (sample_config\<lparr>g_signals := [sample_signal]\<rparr>)"
    by (simp add: config_ok_def sample_config_def device_ok_def signal_ok_def sample_device_def default_device_def
        sample_signal_def opt_in_def)
  have "config_fine (state_init True 24 NoFile)" by (simp add: config_fine_def state_init_def)
  then have "config_fine sample_state" unfolding sample_state_def using update_fine ok by blast
  then show ?thesis by (simp add: sys_start_def sample_system_def sample_sys_def sample_stored_inv metrics_init_def)
qed

end
