(* ===== verification/Settings.thy ===== *)
theory Settings
  imports Py_Values "HOL-Library.Word"
begin

text \<open>
  \<open>config.py\<close>: the settings with the bounds of their fields, the field validators and the check of the
  staging and production safeguards. pydantic runs the bounds, then the field validators, then the model
  validator, and turns every \<open>ValueError\<close> into its own error. Of the standard library, \<open>urlparse\<close> and the
  IPv4 half of \<open>ipaddress\<close> are modelled; the IPv6 half is the parameter \<open>ip6\<close>: \<open>None\<close> for a text that is no
  IPv6 address, else whether the address is private, loopback or link-local.
\<close>

section \<open>Fields\<close>

record settings =
  cf_code :: string
  cf_token :: string
  cf_refresh_token :: string
  cf_name :: string
  cf_instance :: string
  cf_state_dir :: string
  cf_env :: string
  cf_min_staging :: int
  cf_min_production :: int
  cf_insecure :: bool
  cf_mode :: string
  cf_library :: string
  cf_backend_url :: string
  cf_verify_ssl :: bool
  cf_ca_path :: "string option"
  cf_refresh_sec :: int
  cf_config_timeout :: int
  cf_cache_hours :: rat
  cf_nats_url :: string
  cf_subject_prefix :: string
  cf_nats_connect :: int
  cf_nats_publish :: rat
  cf_dual_publish :: bool
  cf_rabbit_url :: string
  cf_rabbit_exchange :: string
  cf_rabbit_routing :: string
  cf_health_host :: string
  cf_health_port :: int
  cf_poll_interval :: int
  cf_max_parallel :: int
  cf_device_timeout :: rat
  cf_cycle_timeout :: rat
  cf_rewrite_loopback :: bool
  cf_max_pending :: int
  cf_max_retries :: int
  cf_min_backoff :: rat
  cf_max_backoff :: rat
  cf_retrier_poll :: rat
  cf_batch :: int
  cf_local_address :: int
  cf_tcp_port :: int
  cf_integrity_min :: int
  cf_response_timeout :: int
  cf_strategy :: string
  cf_baseline :: int
  cf_max_points :: int
  cf_sparse :: int
  cf_confirm :: bool
  cf_link_reset :: bool
  cf_disable_unsol :: bool
  cf_unsol_mask :: int
  cf_raw_frames :: bool
  cf_threads :: int
  cf_log_level :: string
  cf_log_format :: string
  cf_show_token :: bool
  cf_log_file :: string
  cf_log_max :: int
  cf_log_backups :: int
  cf_response_max :: int

text \<open>The defaults of the fields, in force where neither the environment nor the \<open>.env\<close> file names one.\<close>

definition default_settings :: settings where
  "default_settings =
     \<lparr>cf_code = ''GW-001'', cf_token = ''gw-default-token'', cf_refresh_token = [],
      cf_name = ''EnerjiOne DNP3 Gateway'', cf_instance = [], cf_state_dir = ''.gateway_state'',
      cf_env = ''development'', cf_min_staging = 16, cf_min_production = 32, cf_insecure = False,
      cf_mode = ''mock'', cf_library = ''yadnp3'', cf_backend_url = ''http://127.0.0.1:8000/api/v1'',
      cf_verify_ssl = True, cf_ca_path = None, cf_refresh_sec = 30, cf_config_timeout = 5, cf_cache_hours = 24,
      cf_nats_url = ''nats://localhost:4222'', cf_subject_prefix = ''e1.telemetry.raw'', cf_nats_connect = 5,
      cf_nats_publish = 1 / 2, cf_dual_publish = False, cf_rabbit_url = [], cf_rabbit_exchange = ''hsl.events'',
      cf_rabbit_routing = ''telemetry.raw_received'', cf_health_host = ''127.0.0.1'', cf_health_port = 8020,
      cf_poll_interval = 1, cf_max_parallel = 100, cf_device_timeout = 30, cf_cycle_timeout = 120,
      cf_rewrite_loopback = True, cf_max_pending = 500000, cf_max_retries = 100, cf_min_backoff = 1,
      cf_max_backoff = 60, cf_retrier_poll = 2, cf_batch = 200, cf_local_address = 1, cf_tcp_port = 20000,
      cf_integrity_min = 60, cf_response_timeout = 15, cf_strategy = ''event_driven'', cf_baseline = 60,
      cf_max_points = 24, cf_sparse = 4, cf_confirm = False, cf_link_reset = True, cf_disable_unsol = False,
      cf_unsol_mask = 7, cf_raw_frames = False, cf_threads = 0, cf_log_level = ''INFO'', cf_log_format = ''text'',
      cf_show_token = False, cf_log_file = [], cf_log_max = 20971520, cf_log_backups = 10,
      cf_response_max = 10485760\<rparr>"

text \<open>The bounds \<open>ge\<close> and \<open>le\<close> of the fields, by the sections of the class.\<close>

definition core_bounds :: "settings \<Rightarrow> (int \<times> int \<times> int) list" where
  "core_bounds s =
     [(cf_min_staging s, 8, 256), (cf_min_production s, 16, 256), (cf_refresh_sec s, 5, 3600),
      (cf_config_timeout s, 1, 60), (cf_nats_connect s, 1, 60), (cf_health_port s, 0, 65535)]"

definition poll_bounds :: "settings \<Rightarrow> (int \<times> int \<times> int) list" where
  "poll_bounds s =
     [(cf_poll_interval s, 1, 3600), (cf_max_parallel s, 1, 500), (cf_max_pending s, 1000, 10000000),
      (cf_max_retries s, 1, 10000), (cf_batch s, 1, 2000)]"

definition dnp3_bounds :: "settings \<Rightarrow> (int \<times> int \<times> int) list" where
  "dnp3_bounds s =
     [(cf_local_address s, 0, 65519), (cf_tcp_port s, 1, 65535), (cf_integrity_min s, 1, 86400),
      (cf_response_timeout s, 1, 120), (cf_baseline s, 5, 86400), (cf_max_points s, 1, 250),
      (cf_sparse s, 2, 20), (cf_unsol_mask s, 0, 7), (cf_threads s, 0, 64)]"

definition log_bounds :: "settings \<Rightarrow> (int \<times> int \<times> int) list" where
  "log_bounds s =
     [(cf_log_max s, 1048576, 2147483648), (cf_log_backups s, 1, 100), (cf_response_max s, 65536, 209715200)]"

definition int_bounds :: "settings \<Rightarrow> (int \<times> int \<times> int) list" where
  "int_bounds s = core_bounds s @ poll_bounds s @ dnp3_bounds s @ log_bounds s"

lemmas int_bounds_defs = int_bounds_def core_bounds_def poll_bounds_def dnp3_bounds_def log_bounds_def

definition float_bounds :: "settings \<Rightarrow> (rat \<times> rat \<times> rat) list" where
  "float_bounds s =
     [(cf_cache_hours s, 1, 720), (cf_nats_publish s, 1 / 10, 30), (cf_device_timeout s, 1, 600),
      (cf_cycle_timeout s, 10, 3600), (cf_min_backoff s, 1 / 10, 60), (cf_max_backoff s, 1, 600),
      (cf_retrier_poll s, 1 / 2, 60)]"

definition bounds_ok :: "settings \<Rightarrow> bool" where
  "bounds_ok s \<longleftrightarrow> list_all (\<lambda>(v, lo, hi). lo \<le> v \<and> v \<le> hi) (int_bounds s) \<and>
     list_all (\<lambda>(v, lo, hi). lo \<le> v \<and> v \<le> hi) (float_bounds s)"

section \<open>Addresses\<close>

definition settings_error :: "string \<Rightarrow> pyexc" where
  "settings_error t = PyExc ''ValidationError'' t"

text \<open>\<open>urlparse\<close>: leading control characters go, tabs and line ends go everywhere, the scheme is lower case.\<close>

record url =
  u_scheme :: string
  u_netloc :: string

definition scheme_char :: "char \<Rightarrow> bool" where
  "scheme_char c = (let n = (of_char c :: nat) in
     48 \<le> n \<and> n \<le> 57 \<or> 65 \<le> n \<and> n \<le> 90 \<or> 97 \<le> n \<and> n \<le> 122 \<or> c \<in> {CHR ''+'', CHR ''-'', CHR ''.''})"

definition alpha_char :: "char \<Rightarrow> bool" where
  "alpha_char c = (let n = (of_char c :: nat) in 65 \<le> n \<and> n \<le> 90 \<or> 97 \<le> n \<and> n \<le> 122)"

definition url_clean :: "string \<Rightarrow> string" where
  "url_clean s = filter (\<lambda>c. c \<notin> {CHR 0x09, CHR 0x0A, CHR 0x0D}) (dropWhile (\<lambda>c. (of_char c :: nat) \<le> 32) s)"

definition split_scheme :: "string \<Rightarrow> string \<times> string" where
  "split_scheme s =
     (let p = takeWhile (\<lambda>c. c \<noteq> CHR '':'') s; r = drop (length p) s in
      if r \<noteq> [] \<and> p \<noteq> [] \<and> alpha_char (hd p) \<and> list_all scheme_char p then (py_lower p, tl r) else ([], s))"

text \<open>Brackets must be balanced around an IPv6 address.\<close>

definition bracketed :: "string \<Rightarrow> string" where
  "bracketed n = takeWhile (\<lambda>c. c \<noteq> CHR '']'') (tl (dropWhile (\<lambda>c. c \<noteq> CHR ''['') n))"

definition netloc_ok :: "(string \<Rightarrow> bool option) \<Rightarrow> string \<Rightarrow> bool" where
  "netloc_ok ip6 n \<longleftrightarrow> (CHR ''['' \<in> set n \<longleftrightarrow> CHR '']'' \<in> set n) \<and>
     (CHR ''['' \<in> set n \<longrightarrow> ip6 (bracketed n) \<noteq> None \<or> take 1 (bracketed n) = ''v'')"

definition urlparse :: "(string \<Rightarrow> bool option) \<Rightarrow> string \<Rightarrow> url res" where
  "urlparse ip6 s = (case split_scheme (url_clean s) of (sch, rest) \<Rightarrow>
     let n = (if take 2 rest = ''//'' then takeWhile (\<lambda>c. c \<notin> {CHR ''/'', CHR ''?'', CHR ''#''}) (drop 2 rest) else [])
     in if netloc_ok ip6 n then Inr \<lparr>u_scheme = sch, u_netloc = n\<rparr> else Inl value_error)"

definition url_hostname :: "url \<Rightarrow> string" where
  \<comment> \<open>empty for \<open>None\<close>\<close>
  "url_hostname u =
     (let h = rev (takeWhile (\<lambda>c. c \<noteq> CHR ''@'') (rev (u_netloc u))) in
      py_lower (if CHR ''['' \<in> set h then bracketed h else takeWhile (\<lambda>c. c \<noteq> CHR '':'') h))"

text \<open>IPv4: four decimal octets without leading zeros.\<close>

fun split_on :: "char \<Rightarrow> string \<Rightarrow> string list" where
  "split_on d [] = [[]]"
| "split_on d (c # cs) = (case split_on d cs of
       [] \<Rightarrow> [[c]]
     | w # ws \<Rightarrow> if c = d then [] # w # ws else (c # w) # ws)"

definition octet :: "string \<Rightarrow> nat option" where
  "octet w =
     (if w = [] \<or> \<not> list_all is_digit_char w \<or> length w > 3 \<or> (length w > 1 \<and> hd w = CHR ''0'') then None
      else (let n = foldl (\<lambda>a c. 10 * a + nat (digit_val c)) 0 w in if n \<le> 255 then Some n else None))"

definition ip4 :: "string \<Rightarrow> 32 word option" where
  "ip4 s = (case map octet (split_on (CHR ''.'') s) of
       [Some a, Some b, Some c, Some d] \<Rightarrow> Some (of_nat (((a * 256 + b) * 256 + c) * 256 + d))
     | _ \<Rightarrow> None)"

definition in_net :: "32 word \<Rightarrow> nat \<Rightarrow> 32 word \<Rightarrow> bool" where
  "in_net net bits a \<longleftrightarrow> drop_bit (32 - bits) a = drop_bit (32 - bits) net"

definition ip4_local :: "32 word \<Rightarrow> bool" where
  \<comment> \<open>\<open>is_private\<close>, \<open>is_loopback\<close> or \<open>is_link_local\<close>\<close>
  "ip4_local a \<longleftrightarrow>
     list_ex (\<lambda>(net, bits). in_net net bits a)
       [(0, 8), (0x0A000000, 8), (0x7F000000, 8), (0xA9FE0000, 16), (0xAC100000, 12), (0xC0000000, 24),
        (0xC0000200, 24), (0xC0A80000, 16), (0xC6120000, 15), (0xC6336400, 24), (0xCB007100, 24),
        (0xF0000000, 4)] \<and>
     a \<noteq> 0xC0000009 \<and> a \<noteq> 0xC000000A"

definition py_endswith :: "string \<Rightarrow> string \<Rightarrow> bool" where
  "py_endswith suf s = suffix suf s"

definition host_is_private :: "(string \<Rightarrow> bool option) \<Rightarrow> string \<Rightarrow> bool" where
  "host_is_private ip6 host =
     (let h = py_lower (py_strip host) in
      if h = [] then False
      else if h = ''localhost'' \<or> h = ''localhost.localdomain'' then True
      else if py_endswith ''.local'' h \<or> py_endswith ''.lan'' h \<or> py_endswith ''.internal'' h then True
      else
        (let h1 = (if hd h = CHR ''['' \<and> last h = CHR '']'' then butlast (tl h) else h) in
         case ip4 h1 of
           Some a \<Rightarrow> ip4_local a
         | None \<Rightarrow> (case ip6 h1 of Some b \<Rightarrow> b | None \<Rightarrow> False)))"

section \<open>Field validators\<close>

definition keyword_field :: "string list \<Rightarrow> string \<Rightarrow> string res" where
  "keyword_field valid v =
     (let s = py_lower (py_strip v) in if s \<in> set valid then Inr s else Inl (settings_error v))"

definition py_upper_ascii :: "char \<Rightarrow> char" where
  "py_upper_ascii c = (let n = (of_char c :: nat) in if 97 \<le> n \<and> n \<le> 122 then char_of (n - 32) else c)"

definition validate_log_level :: "string \<Rightarrow> string res" where
  "validate_log_level v =
     (let s = map py_upper_ascii (py_strip (if v = [] then ''INFO'' else v)) in
      if s \<in> {''DEBUG'', ''INFO'', ''WARNING'', ''ERROR'', ''CRITICAL''} then Inr s else Inl (settings_error v))"

definition validate_backend_url :: "(string \<Rightarrow> bool option) \<Rightarrow> string \<Rightarrow> string res" where
  "validate_backend_url ip6 v =
     (if py_strip v = [] then Inl (settings_error ''BACKEND_API_URL'')
      else case urlparse ip6 (py_strip v) of
        Inl x \<Rightarrow> Inl (settings_error ''BACKEND_API_URL'')
      | Inr u \<Rightarrow>
          if u_scheme u \<notin> {''http'', ''https''} \<or> u_netloc u = [] then Inl (settings_error ''BACKEND_API_URL'')
          else Inr (py_strip v))"

definition validate_rabbitmq_url :: "(string \<Rightarrow> bool option) \<Rightarrow> string \<Rightarrow> string res" where
  "validate_rabbitmq_url ip6 v =
     (if py_strip v = [] then Inr []
      else case urlparse ip6 (py_strip v) of
        Inl x \<Rightarrow> Inl (settings_error ''RABBITMQ_URL'')
      | Inr u \<Rightarrow> if u_scheme u \<in> {''amqp'', ''amqps''} then Inr (py_strip v) else Inl (settings_error ''RABBITMQ_URL''))"

section \<open>The safeguards\<close>

definition env_name :: "string \<Rightarrow> string" where
  "env_name e = py_lower (py_strip (if e = [] then ''development'' else e))"

definition is_prod :: "string \<Rightarrow> bool" where
  "is_prod e \<longleftrightarrow> env_name e \<in> {''production'', ''prod''}"

definition is_staged :: "string \<Rightarrow> bool" where
  "is_staged e \<longleftrightarrow> is_prod e \<or> env_name e \<in> {''staging'', ''stg''}"

definition backend_guard :: "(string \<Rightarrow> bool option) \<Rightarrow> settings \<Rightarrow> bool" where
  "backend_guard ip6 s \<longleftrightarrow> cf_verify_ssl s \<and>
     (case urlparse ip6 (cf_backend_url s) of
        Inl x \<Rightarrow> False
      | Inr u \<Rightarrow> u_scheme u = ''https'' \<or> host_is_private ip6 (url_hostname u) \<or> cf_insecure s)"

definition nats_guard :: "(string \<Rightarrow> bool option) \<Rightarrow> settings \<Rightarrow> bool" where
  "nats_guard ip6 s \<longleftrightarrow> py_strip (cf_nats_url s) \<noteq> [] \<and>
     (case urlparse ip6 (py_strip (cf_nats_url s)) of
        Inl x \<Rightarrow> False
      | Inr u \<Rightarrow> u_scheme u = ''tls'' \<or>
          u_scheme u = ''nats'' \<and> (host_is_private ip6 (url_hostname u) \<or> cf_insecure s))"

definition token_guard :: "settings \<Rightarrow> bool" where
  "token_guard s \<longleftrightarrow> \<not> cf_show_token s \<and>
     (cf_refresh_token s = [] \<or> cf_token s = [] \<or> py_strip (cf_refresh_token s) \<noteq> py_strip (cf_token s))"

definition safeguards :: "(string \<Rightarrow> bool option) \<Rightarrow> settings \<Rightarrow> settings res" where
  "safeguards ip6 s =
     (if is_staged (cf_env s) \<and> \<not> backend_guard ip6 s then Inl (settings_error ''GUVENLIK: BACKEND_API_URL'')
      else if is_prod (cf_env s) \<and> \<not> nats_guard ip6 s then Inl (settings_error ''GUVENLIK: NATS_URL'')
      else if is_prod (cf_env s) \<and> \<not> token_guard s then Inl (settings_error ''GUVENLIK: TOKEN'')
      else Inr s)"

definition and_field :: "'a res \<Rightarrow> ('a \<Rightarrow> 'b res) \<Rightarrow> 'b res" where
  "and_field r f = (case r of Inl x \<Rightarrow> Inl x | Inr v \<Rightarrow> f v)"

definition validate :: "(string \<Rightarrow> bool option) \<Rightarrow> settings \<Rightarrow> settings res" where
  "validate ip6 s =
     (if \<not> bounds_ok s then Inl (settings_error ''bounds'')
      else
        and_field (keyword_field [''event_driven'', ''direct'', ''class0'', ''integrity''] (cf_strategy s)) (\<lambda>strategy.
        and_field (keyword_field [''yadnp3'', ''dnp3py''] (cf_library s)) (\<lambda>library.
        and_field (keyword_field [''mock'', ''dnp3''] (cf_mode s)) (\<lambda>mode.
        and_field (keyword_field [''text'', ''json''] (cf_log_format s)) (\<lambda>fmt.
        and_field (validate_log_level (cf_log_level s)) (\<lambda>level.
        and_field (validate_backend_url ip6 (cf_backend_url s)) (\<lambda>backend.
        and_field (validate_rabbitmq_url ip6 (cf_rabbit_url s)) (\<lambda>rabbit.
          safeguards ip6 (s\<lparr>cf_strategy := strategy, cf_library := library, cf_mode := mode, cf_log_format := fmt,
            cf_log_level := level, cf_backend_url := backend, cf_rabbit_url := rabbit\<rparr>)))))))))"

definition is_mock_mode :: "settings \<Rightarrow> bool" where
  "is_mock_mode s \<longleftrightarrow> py_lower (py_strip (cf_mode s)) = ''mock''"

definition is_dnp3_mode :: "settings \<Rightarrow> bool" where
  "is_dnp3_mode s \<longleftrightarrow> py_lower (py_strip (cf_mode s)) = ''dnp3''"

end
