(* ===== verification/Identity.thy ===== *)
theory Identity
  imports Settings Dnp3_Reader
begin

text \<open>
  \<open>auth/identity.py\<close>, \<open>auth/headers.py\<close> and \<open>adapters/factory.py\<close>: the check of the credentials, the
  instance id and its file, the headers of a configuration request, and the reader the settings choose;
  and what the settings that pass every check guarantee.
\<close>

section \<open>Names\<close>

definition word_char :: "char \<Rightarrow> bool" where
  \<comment> \<open>\<open>\w\<close> for one character below U+0100\<close>
  "word_char c = (let n = (of_char c :: nat) in
     48 \<le> n \<and> n \<le> 57 \<or> 65 \<le> n \<and> n \<le> 90 \<or> n = 95 \<or> 97 \<le> n \<and> n \<le> 122 \<or>
     n \<in> {170, 178, 179, 181, 185, 186, 188, 189, 190} \<or> 192 \<le> n \<and> n \<noteq> 215 \<and> n \<noteq> 247)"

definition code_char :: "char \<Rightarrow> bool" where
  "code_char c \<longleftrightarrow> word_char c \<or> c = CHR ''-''"

definition code_safe :: "string \<Rightarrow> bool" where
  \<comment> \<open>\<open>^[\w][\w-]{0,62}$\<close>\<close>
  "code_safe s \<longleftrightarrow> s \<noteq> [] \<and> word_char (hd s) \<and> list_all code_char (tl s) \<and> length s \<le> 63"

definition instance_safe :: "string \<Rightarrow> bool" where
  \<comment> \<open>\<open>^[\w.-]{0,120}$\<close>\<close>
  "instance_safe s \<longleftrightarrow> list_all (\<lambda>c. code_char c \<or> c = CHR ''.'') s \<and> length s \<le> 120"

definition system_exit :: "string \<Rightarrow> pyexc" where
  "system_exit t = PyExc ''SystemExit'' t"

section \<open>Credentials\<close>

definition placeholder_tokens :: "string list" where
  "placeholder_tokens = [''gw-default-token'', ''change-me'', ''changeme'']"

definition ensure_credentials_allowed :: "settings \<Rightarrow> unit res" where
  "ensure_credentials_allowed s =
     (let code = py_strip (cf_code s); token = py_strip (cf_token s); env = py_lower (py_strip (cf_env s)) in
      if \<not> code_safe code then Inl (system_exit ''GATEWAY_CODE gecersiz'')
      else if token = [] then Inl (system_exit ''GATEWAY_TOKEN bos olamaz'')
      else if env \<notin> {''development'', ''staging'', ''production'', ''dev'', ''stg'', ''prod''}
        then Inl (system_exit ''APP_ENVIRONMENT'')
      else if env \<in> {''dev'', ''development''} then Inr ()
      else if py_lower token \<in> py_lower ` set placeholder_tokens then Inl (system_exit ''placeholder token'')
      else if int (length token) < (if env \<in> {''staging'', ''stg''} then cf_min_staging s else cf_min_production s)
        then Inl (system_exit ''GATEWAY_TOKEN cok kisa'')
      else Inr ())"

section \<open>The instance id\<close>

fun squeeze :: "string \<Rightarrow> string" where
  \<comment> \<open>\<open>re.sub(r"[^\w-]+", "_", s)\<close>\<close>
  "squeeze [] = []"
| "squeeze (c # cs) =
     (if code_char c then c # squeeze cs
      else if cs = [] \<or> code_char (hd cs) then CHR ''_'' # squeeze cs else squeeze cs)"

definition instance_file_name :: "string \<Rightarrow> string" where
  "instance_file_name code =
     (let s = take 50 (squeeze (py_strip code)) in ''instance_'' @ (if s = [] then ''gw'' else s) @ ''.id'')"

datatype id_file = IdAbsent | IdUnreadable | IdUndecodable | IdText string

record id_env =
  ie_mkdir :: bool
  ie_uuid :: string
  ie_writable :: bool

text \<open>The file is the one of \<open>instance_file_name\<close>; the result is the id and the file afterwards. Only
  \<open>OSError\<close> is caught, so a file that is no UTF-8 leaves with its own exception.\<close>

definition resolve_instance_id :: "id_env \<Rightarrow> settings \<Rightarrow> id_file \<Rightarrow> string res \<times> id_file" where
  "resolve_instance_id e s f =
     (let raw = py_strip (cf_instance s) in
      if raw \<noteq> [] then (if instance_safe raw then Inr raw else Inl (system_exit ''GATEWAY_INSTANCE_ID''), f)
      else if \<not> ie_mkdir e then (Inl (system_exit ''GATEWAY_STATE_DIR''), f)
      else case f of
        IdUnreadable \<Rightarrow> (Inl (system_exit ''instance id okunamadi''), f)
      | IdUndecodable \<Rightarrow> (Inl (PyExc ''UnicodeDecodeError'' ''utf-8''), f)
      | IdText t \<Rightarrow>
          if py_strip t \<noteq> [] \<and> instance_safe (py_strip t) then (Inr (py_strip t), f)
          else if ie_writable e then (Inr (ie_uuid e), IdText (ie_uuid e @ [CHR 0x0A]))
          else (Inl (system_exit ''instance id yazilamadi''), f)
      | IdAbsent \<Rightarrow>
          if ie_writable e then (Inr (ie_uuid e), IdText (ie_uuid e @ [CHR 0x0A]))
          else (Inl (system_exit ''instance id yazilamadi''), f))"

record gateway_identity =
  gi_code :: string
  gi_token :: string
  gi_instance :: string
  gi_version :: string
  gi_env :: string

definition environment_of :: "string \<Rightarrow> string" where
  "environment_of env =
     (if env \<in> {''dev'', ''development''} then ''development''
      else if env \<in> {''stg'', ''staging''} then ''staging''
      else if env \<in> {''prod'', ''production''} then ''production'' else env)"

definition bootstrap_identity :: "id_env \<Rightarrow> settings \<Rightarrow> string \<Rightarrow> id_file \<Rightarrow> gateway_identity res \<times> id_file" where
  "bootstrap_identity e s version f = (case ensure_credentials_allowed s of
       Inl x \<Rightarrow> (Inl x, f)
     | Inr _ \<Rightarrow> (case resolve_instance_id e s f of
           (Inl x, f1) \<Rightarrow> (Inl x, f1)
         | (Inr i, f1) \<Rightarrow>
             (Inr \<lparr>gi_code = py_strip (cf_code s), gi_token = py_strip (cf_token s), gi_instance = i,
                gi_version = version, gi_env = environment_of (py_lower (py_strip (cf_env s)))\<rparr>, f1)))"

definition config_request_headers :: "gateway_identity \<Rightarrow> string \<Rightarrow> (string \<times> string) list" where
  "config_request_headers gi correlation =
     [(''X-Gateway-Token'', gi_token gi), (''X-Gateway-Code'', gi_code gi),
      (''X-Gateway-Instance-Id'', gi_instance gi), (''X-Request-Id'', correlation),
      (''User-Agent'', ''EnerjiOne-Dnp3Gateway/'' @ gi_version gi @ '' (env='' @ gi_env gi @ '')''),
      (''X-Gateway-Client'', ''dnp3-gateway/'' @ gi_version gi)]"

section \<open>The reader\<close>

datatype 'm adapter = MockAdapter | YadAdapter yad_reader | Dnp3Adapter "'m dnp3_reader"

text \<open>\<open>installed\<close> says which of the optional packages \<open>yadnp3\<close> and \<open>dnp3py\<close> can be imported.\<close>

definition build_adapter :: "string set \<Rightarrow> settings \<Rightarrow> 'm adapter res" where
  "build_adapter installed s =
     (let mode = py_lower (py_strip (cf_mode s));
          library = py_lower (py_strip (if cf_library s = [] then ''yadnp3'' else cf_library s)) in
      if mode = ''mock'' then Inr MockAdapter
      else if mode \<noteq> ''dnp3'' then Inl value_error
      else if library \<in> {''yadnp3'', ''opendnp3''} then
        if ''yadnp3'' \<notin> installed then Inl (PyExc ''Yadnp3AdapterError'' ''yadnp3 yuklu degil'')
        else Inr (YadAdapter (yad_init (cf_local_address s) (cf_tcp_port s) (cf_poll_interval s) (cf_baseline s) (cf_threads s)))
      else if library = ''dnp3py'' then
        if ''dnp3py'' \<notin> installed then Inl (adapter_error ''dnp3 yuklu degil'')
        else Inr (Dnp3Adapter (dnp3_init (cf_local_address s) (cf_tcp_port s)
          (dnp3_opts_init (cf_strategy s) (cf_max_points s) (cf_sparse s) (cf_link_reset s) (cf_disable_unsol s)
             (cf_unsol_mask s) (cf_baseline s))))
      else Inl value_error)"

section \<open>Blanks around a text\<close>

lemma py_strip_no_blanks: "s = [] \<or> \<not> py_ws (hd s) \<and> \<not> py_ws (last s) \<Longrightarrow> py_strip s = s"
proof (cases s)
  case (Cons x xs)
  assume "s = [] \<or> \<not> py_ws (hd s) \<and> \<not> py_ws (last s)"
  then have "dropWhile py_ws s = s" "dropWhile py_ws (rev s) = rev s"
    using Cons by (simp_all add: dropWhile_eq_self_iff hd_rev del: rev.simps last.simps)
  then show ?thesis by (simp add: py_strip_def py_rstrip_by_def py_lstrip_def)
qed (simp add: py_strip_def py_rstrip_by_def py_lstrip_def)

lemma py_strip_ends:
  assumes ne: "py_strip s \<noteq> []"
  shows "\<not> py_ws (hd (py_strip s)) \<and> \<not> py_ws (last (py_strip s))"
proof -
  define a where "a = dropWhile py_ws s"
  have s: "py_strip s = rev (dropWhile py_ws (rev a))"
    by (simp add: py_strip_def py_rstrip_by_def py_lstrip_def a_def)
  have "prefix (py_strip s) a" unfolding s using suffix_dropWhile [of py_ws "rev a"] by (simp add: suffix_to_prefix)
  then have "hd (py_strip s) = hd a" "a \<noteq> []" using ne by (auto simp: prefix_def)
  then have "\<not> py_ws (hd (py_strip s))" using hd_dropWhile [of py_ws s] by (simp add: a_def)
  moreover have "\<not> py_ws (last (py_strip s))"
    using ne hd_dropWhile [of py_ws "rev a"] unfolding s by (simp add: last_rev)
  ultimately show ?thesis by simp
qed

lemma py_strip_idem [simp]: "py_strip (py_strip s) = py_strip s"
  using py_strip_no_blanks py_strip_ends by blast

section \<open>What validated settings guarantee\<close>

lemma and_field_Inr: "and_field r f = Inr y \<longleftrightarrow> (\<exists>v. r = Inr v \<and> f v = Inr y)"
  by (cases r) (simp_all add: and_field_def)

lemma keyword_field_Inr: "keyword_field valid v = Inr s \<Longrightarrow> s \<in> set valid"
  by (simp add: keyword_field_def Let_def split: if_splits)

lemma validate_parts:
  assumes "validate ip6 s = Inr s'"
  shows "cf_strategy s' \<in> set [''event_driven'', ''direct'', ''class0'', ''integrity'']"
    and "cf_library s' \<in> set [''yadnp3'', ''dnp3py'']" and "cf_mode s' \<in> set [''mock'', ''dnp3'']"
    and "safeguards ip6 s' = Inr s'" and "bounds_ok s'"
proof -
  have b: "bounds_ok s" using assms by (simp add: validate_def split: if_splits)
  obtain st li mo fm le ba ra where f:
    "keyword_field [''event_driven'', ''direct'', ''class0'', ''integrity''] (cf_strategy s) = Inr st"
    "keyword_field [''yadnp3'', ''dnp3py''] (cf_library s) = Inr li"
    "keyword_field [''mock'', ''dnp3''] (cf_mode s) = Inr mo"
    and g: "safeguards ip6 (s\<lparr>cf_strategy := st, cf_library := li, cf_mode := mo, cf_log_format := fm,
            cf_log_level := le, cf_backend_url := ba, cf_rabbit_url := ra\<rparr>) = Inr s'"
    using assms b unfolding validate_def and_field_Inr if_not_P [OF notnotD] by (auto simp: and_field_Inr)
  then have s': "s' = s\<lparr>cf_strategy := st, cf_library := li, cf_mode := mo, cf_log_format := fm,
            cf_log_level := le, cf_backend_url := ba, cf_rabbit_url := ra\<rparr>"
    by (simp add: safeguards_def split: if_splits)
  show "cf_strategy s' \<in> set [''event_driven'', ''direct'', ''class0'', ''integrity'']"
    "cf_library s' \<in> set [''yadnp3'', ''dnp3py'']" "cf_mode s' \<in> set [''mock'', ''dnp3'']"
    using f [THEN keyword_field_Inr] by (simp_all add: s')
  show "safeguards ip6 s' = Inr s'" using g s' by simp
  show "bounds_ok s'" using b by (simp add: s' bounds_ok_def int_bounds_defs float_bounds_def)
qed

definition needs_installed :: "settings \<Rightarrow> string set" where
  "needs_installed s = (if cf_mode s = ''mock'' then {} else {cf_library s})"

definition valid_reader :: "settings \<Rightarrow> 'm adapter \<Rightarrow> bool" where
  "valid_reader s ad = (case ad of
       MockAdapter \<Rightarrow> cf_mode s = ''mock''
     | YadAdapter r \<Rightarrow> cf_mode s = ''dnp3'' \<and> cf_library s = ''yadnp3'' \<and> 0 \<le> yr_local r \<and> yr_local r \<le> 65519 \<and>
         1 \<le> yr_port r \<and> yr_port r \<le> 65535 \<and> 1 \<le> yr_threads r \<and> yr_threads r \<le> 64 \<and> yr_masters r = []
     | Dnp3Adapter r \<Rightarrow> cf_mode s = ''dnp3'' \<and> cf_library s = ''dnp3py'' \<and> 0 \<le> dr_local r \<and> dr_local r \<le> 65519 \<and>
         1 \<le> dr_port r \<and> dr_port r \<le> 65535 \<and> dr_sessions r = [] \<and> dr_events r = [] \<and>
         1 \<le> do_max_points (dr_opts r) \<and> do_max_points (dr_opts r) = cf_max_points s \<and>
         do_sparse_ratio (dr_opts r) = cf_sparse s \<and> do_unsol_mask (dr_opts r) = cf_unsol_mask s \<and>
         do_baseline_interval (dr_opts r) = cf_baseline s \<and>
         (do_strategy (dr_opts r), cf_strategy s) \<in> {(Rs_Event_Driven, ''event_driven''), (Rs_Direct, ''direct''),
            (Rs_Class0, ''class0''), (Rs_Integrity, ''integrity'')})"

lemma bounds_okD:
  assumes "bounds_ok s"
  shows "0 \<le> cf_local_address s \<and> cf_local_address s \<le> 65519" "1 \<le> cf_tcp_port s \<and> cf_tcp_port s \<le> 65535"
    "0 \<le> cf_threads s \<and> cf_threads s \<le> 64" "1 \<le> cf_max_points s" "2 \<le> cf_sparse s"
    "0 \<le> cf_unsol_mask s \<and> cf_unsol_mask s \<le> 7" "5 \<le> cf_baseline s" "16 \<le> cf_min_production s"
    "8 \<le> cf_min_staging s"
  using assms by (simp_all add: bounds_ok_def int_bounds_defs)

lemma library_text: "py_lower (py_strip ''yadnp3'') = ''yadnp3''" "py_lower (py_strip ''dnp3py'') = ''dnp3py''"
  "py_lower (py_strip ''mock'') = ''mock''" "py_lower (py_strip ''dnp3'') = ''dnp3''"
  by code_simp+

lemma strategy_text:
  "normalize_read_strategy ''event_driven'' = Rs_Event_Driven" "normalize_read_strategy ''direct'' = Rs_Direct"
  "normalize_read_strategy ''class0'' = Rs_Class0" "normalize_read_strategy ''integrity'' = Rs_Integrity"
  by code_simp+

lemma build_adapter_valid:
  assumes "validate ip6 s = Inr s'" and "build_adapter installed s' = Inr (ad :: 'm adapter)"
  shows "valid_reader s' ad"
proof -
  note p = validate_parts [OF assms(1)]
  note b = bounds_okD [OF p(5)]
  consider "cf_mode s' = ''mock''" | "cf_mode s' = ''dnp3''" "cf_library s' = ''yadnp3''"
    | "cf_mode s' = ''dnp3''" "cf_library s' = ''dnp3py''" using p(2,3) by auto
  then show ?thesis
  proof cases
    case 3
    then have ad: "ad = Dnp3Adapter (dnp3_init (cf_local_address s') (cf_tcp_port s')
        (dnp3_opts_init (cf_strategy s') (cf_max_points s') (cf_sparse s') (cf_link_reset s') (cf_disable_unsol s')
           (cf_unsol_mask s') (cf_baseline s')))"
      using assms(2) by (simp add: build_adapter_def library_text split: if_splits)
    show ?thesis using 3 b p(1)
      by (auto simp: ad valid_reader_def dnp3_init_def dnp3_opts_init_def strategy_text)
  next
    case 2
    then have "ad = YadAdapter (yad_init (cf_local_address s') (cf_tcp_port s') (cf_poll_interval s') (cf_baseline s')
        (cf_threads s'))"
      using assms(2) by (simp add: build_adapter_def library_text split: if_splits)
    then show ?thesis using 2 b by (simp add: valid_reader_def yad_init_def)
  qed (use assms(2) in \<open>simp add: build_adapter_def library_text valid_reader_def\<close>)
qed

lemma build_adapter_needs:
  assumes "validate ip6 s = Inr s'"
  shows "raised (build_adapter installed s' :: 'm adapter res) \<longleftrightarrow> \<not> needs_installed s' \<subseteq> installed"
  using validate_parts(2,3) [OF assms]
  by (cases "needs_installed s' \<subseteq> installed")
    (auto simp: raised_def needs_installed_def build_adapter_def library_text split: if_splits)


definition sample_settings :: settings where
  "sample_settings = default_settings\<lparr>cf_code := ''GW1'', cf_token := ''0123456789abcdef0123456789abcdef'',
     cf_env := ''production'', cf_mode := ''dnp3'',
     cf_backend_url := ''https://api.example.com'', cf_nats_url := ''nats://10.0.0.5:4222'',
     cf_strategy := '' Direct '', cf_log_level := ''info''\<rparr>"

definition validated_sample :: settings where
  "validated_sample = sample_settings\<lparr>cf_strategy := ''direct'', cf_log_level := ''INFO''\<rparr>"

lemma sample_texts:
  "keyword_field [''event_driven'', ''direct'', ''class0'', ''integrity''] '' Direct '' = Inr ''direct''"
  "keyword_field [''yadnp3'', ''dnp3py''] ''yadnp3'' = Inr ''yadnp3''"
  "keyword_field [''mock'', ''dnp3''] ''dnp3'' = Inr ''dnp3''"
  "keyword_field [''text'', ''json''] ''text'' = Inr ''text''"
  "validate_log_level ''info'' = Inr ''INFO''" "validate_rabbitmq_url (\<lambda>h. None) [] = Inr []"
  "env_name ''production'' = ''production''"
  "py_strip ''https://api.example.com'' = ''https://api.example.com''"
  "py_strip ''nats://10.0.0.5:4222'' = ''nats://10.0.0.5:4222''" "py_lower (py_strip ''10.0.0.5'') = ''10.0.0.5''"
  by code_simp+

lemma sample_urls:
  "urlparse (\<lambda>h. None) ''https://api.example.com'' = Inr \<lparr>u_scheme = ''https'', u_netloc = ''api.example.com''\<rparr>"
  "urlparse (\<lambda>h. None) ''nats://10.0.0.5:4222'' = Inr \<lparr>u_scheme = ''nats'', u_netloc = ''10.0.0.5:4222''\<rparr>"
  by (simp_all add: urlparse_def url_clean_def split_scheme_def alpha_char_def scheme_char_def py_lower_def
      py_lower_char_def netloc_ok_def)

lemma sample_host: "host_is_private (\<lambda>h. None) (url_hostname \<lparr>u_scheme = ''nats'', u_netloc = ''10.0.0.5:4222''\<rparr>)"
proof -
  have h: "url_hostname \<lparr>u_scheme = ''nats'', u_netloc = ''10.0.0.5:4222''\<rparr> = ''10.0.0.5''" by code_simp
  have "map octet (split_on (CHR ''.'') ''10.0.0.5'') = [Some 10, Some 0, Some 0, Some 5]" by code_simp
  then have i: "ip4 ''10.0.0.5'' = Some 0x0A000005" by (simp only: ip4_def) simp
  have "ip4_local 0x0A000005" by (simp add: ip4_local_def in_net_def)
  then show ?thesis using i by (simp add: host_is_private_def Let_def h sample_texts)
qed

lemma sample_settings_valid: "validate (\<lambda>h. None) sample_settings = Inr validated_sample"
proof -
  have "bounds_ok sample_settings"
    by (simp add: bounds_ok_def int_bounds_defs float_bounds_def sample_settings_def default_settings_def)
  moreover have "validate_backend_url (\<lambda>h. None) ''https://api.example.com'' = Inr ''https://api.example.com''"
    by (simp add: validate_backend_url_def sample_texts sample_urls)
  ultimately show ?thesis
    by (simp add: validate_def validated_sample_def sample_settings_def default_settings_def and_field_def sample_texts safeguards_def
        is_staged_def is_prod_def backend_guard_def nats_guard_def token_guard_def sample_urls sample_host)
qed


section \<open>A gateway that starts in production\<close>

lemma safeguards_prod:
  assumes "safeguards ip6 s = Inr s'" and "is_prod (cf_env s)"
  shows "backend_guard ip6 s" "nats_guard ip6 s" "token_guard s"
  using assms by (auto simp: safeguards_def is_staged_def split: if_splits)

lemma credentials_prod:
  assumes "ensure_credentials_allowed s = Inr ()" and "is_prod (cf_env s)"
  shows "code_safe (py_strip (cf_code s))" and "py_lower (py_strip (cf_token s)) \<notin> py_lower ` set placeholder_tokens"
    and "cf_min_production s \<le> int (length (py_strip (cf_token s)))"
    and "environment_of (py_lower (py_strip (cf_env s))) = ''production''"
proof -
  have d: "env_name [] = ''development''" by code_simp
  then have "cf_env s \<noteq> []" using assms(2) by (auto simp: is_prod_def)
  then have e: "py_lower (py_strip (cf_env s)) \<in> {''production'', ''prod''}"
    using assms(2) by (simp add: is_prod_def env_name_def)
  then show "environment_of (py_lower (py_strip (cf_env s))) = ''production''" by (auto simp: environment_of_def)
  show "code_safe (py_strip (cf_code s))" "py_lower (py_strip (cf_token s)) \<notin> py_lower ` set placeholder_tokens"
    "cf_min_production s \<le> int (length (py_strip (cf_token s)))"
    using assms(1) e by (auto simp: ensure_credentials_allowed_def Let_def split: if_splits)
qed

lemma bootstrap_parts:
  assumes "bootstrap_identity e s v f = (Inr gi, f')"
  shows "ensure_credentials_allowed s = Inr ()" "resolve_instance_id e s f = (Inr (gi_instance gi), f')"
    "gi_code gi = py_strip (cf_code s)" "gi_token gi = py_strip (cf_token s)"
    "gi_env gi = environment_of (py_lower (py_strip (cf_env s)))"
  using assms by (auto simp: bootstrap_identity_def split: sum.splits prod.splits)


definition uuid_like :: "string \<Rightarrow> bool" where
  "uuid_like u \<longleftrightarrow> length u = 36 \<and> list_all (\<lambda>c. c \<in> set ''0123456789abcdef-'') u"

definition sample_uuid :: string where
  "sample_uuid = ''123e4567-e89b-42d3-a456-426614174000''"

definition sample_id_env :: id_env where
  "sample_id_env = \<lparr>ie_mkdir = True, ie_uuid = sample_uuid, ie_writable = True\<rparr>"

definition sample_identity :: gateway_identity where
  "sample_identity = \<lparr>gi_code = ''GW1'', gi_token = ''0123456789abcdef0123456789abcdef'', gi_instance = sample_uuid,
     gi_version = ''1.0'', gi_env = ''production''\<rparr>"

lemma sample_bootstrap:
  "bootstrap_identity sample_id_env validated_sample ''1.0'' IdAbsent =
    (Inr sample_identity, IdText (sample_uuid @ [CHR 0x0A]))"
proof -
  have "code_safe (py_strip ''GW1'')" "py_strip ''GW1'' = ''GW1''"
    "py_strip ''0123456789abcdef0123456789abcdef'' = ''0123456789abcdef0123456789abcdef''"
    "py_lower ''0123456789abcdef0123456789abcdef'' = ''0123456789abcdef0123456789abcdef''"
    "py_lower (py_strip ''production'') = ''production''" "py_strip [] = []"
    "py_lower ` set placeholder_tokens = {''gw-default-token'', ''change-me'', ''changeme''}"
    by code_simp+
  then show ?thesis
    by (simp add: bootstrap_identity_def ensure_credentials_allowed_def validated_sample_def sample_settings_def default_settings_def
        resolve_instance_id_def sample_id_env_def sample_identity_def environment_of_def Let_def)
qed


section \<open>The instance id survives restarts\<close>

lemma uuid_chars: "list_all (\<lambda>c. code_char c \<and> \<not> py_ws c) ''0123456789abcdef-''"
  by code_simp

lemma uuid_like_safe:
  assumes "uuid_like u"
  shows "instance_safe u" "u \<noteq> []" "py_strip (u @ [CHR 0x0A]) = u"
proof -
  have c: "code_char c \<and> \<not> py_ws c" if "c \<in> set u" for c
    using that assms uuid_chars unfolding uuid_like_def list_all_iff by blast
  then show "instance_safe u" using assms by (auto simp: instance_safe_def uuid_like_def list_all_iff)
  show ne: "u \<noteq> []" using assms by (auto simp: uuid_like_def)
  have "\<not> py_ws (hd u)" "\<not> py_ws (last u)" using c ne by auto
  moreover have "py_ws (CHR 0x0A)" by code_simp
  ultimately show "py_strip (u @ [CHR 0x0A]) = u"
  proof -
    assume h: "\<not> py_ws (hd u)" "\<not> py_ws (last u)" "py_ws (CHR 0x0A)"
    then have "dropWhile py_ws (u @ [CHR 0x0A]) = u @ [CHR 0x0A]" "dropWhile py_ws (rev u) = rev u"
      using ne by (simp_all add: dropWhile_eq_self_iff hd_rev)
    then show ?thesis using h by (simp add: py_strip_def py_rstrip_by_def py_lstrip_def)
  qed
qed

text \<open>C27: The instance id of a gateway is stable: once a start has found or written one, every later start
  with the same settings gets the same id from the file it left, whatever fresh id it would draw and even if the directory
  is no longer writable, and does not touch the file; the id is never empty and safe for a header.\<close>

theorem instance_id_stable:
  assumes "resolve_instance_id e s f = (Inr i, f')" and "uuid_like (ie_uuid e)"
  shows "i \<noteq> [] \<and> instance_safe i \<and>
    resolve_instance_id \<lparr>ie_mkdir = True, ie_uuid = u, ie_writable = w\<rparr> s f' = (Inr i, f')"
proof (cases "py_strip (cf_instance s) = []")
  case True
  have "i \<noteq> [] \<and> instance_safe i \<and> (\<exists>t. f' = IdText t \<and> py_strip t = i)"
    using assms(1) True uuid_like_safe [OF assms(2)]
    by (auto simp: resolve_instance_id_def Let_def split: id_file.splits if_splits)
  then show ?thesis using True by (auto simp: resolve_instance_id_def Let_def)
qed (use assms(1) in \<open>auto simp: resolve_instance_id_def Let_def split: if_splits\<close>)

theorem instance_id_stable_witness:
  "resolve_instance_id \<lparr>ie_mkdir = True, ie_uuid = ''other'', ie_writable = False\<rparr> validated_sample
     (IdText (sample_uuid @ [CHR 0x0A])) = (Inr sample_uuid, IdText (sample_uuid @ [CHR 0x0A]))"
proof -
  have "uuid_like (ie_uuid sample_id_env)" by (simp add: uuid_like_def sample_id_env_def sample_uuid_def)
  moreover have "resolve_instance_id sample_id_env validated_sample IdAbsent = (Inr sample_uuid, IdText (sample_uuid @ [CHR 0x0A]))"
    using bootstrap_parts(2) [OF sample_bootstrap] by (simp add: sample_identity_def)
  ultimately show ?thesis using instance_id_stable [of sample_id_env validated_sample IdAbsent] by blast
qed

end
