(* ===== verification/Log_Redaction.thy ===== *)
theory Log_Redaction
  imports Scrubbing Py_Values
begin

text \<open>
  \<open>logging_setup.py\<close>: the registry of secrets, the scrubbing of messages, the log filter and the two
  formatters, the path of the log file and the handlers of the root logger. The \<open>%\<close> formatting of a record
  and the layout of \<open>logging.Formatter\<close> are parameters.
\<close>

section \<open>The registry\<close>

definition register_secret :: "string option \<Rightarrow> string list \<Rightarrow> string list" where
  "register_secret v reg = (case v of
       None \<Rightarrow> reg
     | Some t \<Rightarrow> if t = [] \<or> length (py_strip t) < 4 \<or> py_strip t \<in> set reg then reg else reg @ [py_strip t])"

section \<open>Scrubbing\<close>

text \<open>Longest secret first, ties in the order of registration.\<close>

definition scrub_message :: "string list \<Rightarrow> string \<Rightarrow> string" where
  "scrub_message reg s =
     (if s = [] \<or> reg = [] then s
      else fold (\<lambda>t s. if t \<noteq> [] \<and> py_in t s then py_replace t ''***REDACTED***'' s else s)
             (sort_key (\<lambda>t. - int (length t)) reg) s)"

text \<open>\<open>(amqp[s]?://[^:@\s/]+):([^@\s/]+)@\<close>, ignoring case, at the beginning of the text: the first group and the
  rest. The classes exclude the characters that follow them, so each run is maximal.\<close>

definition user_char :: "char \<Rightarrow> bool" where
  "user_char c \<longleftrightarrow> c \<noteq> CHR '':'' \<and> c \<noteq> CHR ''@'' \<and> \<not> py_ws c \<and> c \<noteq> CHR ''/''"

definition pass_char :: "char \<Rightarrow> bool" where
  "pass_char c \<longleftrightarrow> c \<noteq> CHR ''@'' \<and> \<not> py_ws c \<and> c \<noteq> CHR ''/''"

definition amqp_scheme :: "string \<Rightarrow> nat option" where
  \<comment> \<open>the length of \<open>amqp[s]?://\<close>\<close>
  "amqp_scheme s =
     (if py_lower (take 7 s) = ''amqp://'' then Some 7
      else if py_lower (take 8 s) = ''amqps://'' then Some 8 else None)"

definition amqp_match :: "string \<Rightarrow> (string \<times> string) option" where
  "amqp_match s = (case amqp_scheme s of
       None \<Rightarrow> None
     | Some n \<Rightarrow>
         (let u = takeWhile user_char (drop n s); s1 = drop (n + length u) s;
              p = takeWhile pass_char (tl s1); s2 = drop (length p) (tl s1)
          in if u \<noteq> [] \<and> s1 \<noteq> [] \<and> hd s1 = CHR '':'' \<and> p \<noteq> [] \<and> s2 \<noteq> [] \<and> hd s2 = CHR ''@''
             then Some (take (n + length u) s, tl s2) else None))"

lemma if_Some_pair: "(if c1 \<and> c2 \<and> c3 \<and> c4 \<and> c5 \<and> c6 then Some (a, b) else None) = Some (c, d) \<Longrightarrow>
    c1 \<and> c2 \<and> c3 \<and> c4 \<and> c5 \<and> c6 \<and> c = a \<and> d = b"
  by (simp split: if_splits)

lemma amqp_match_parts:
  assumes "amqp_match s = Some (pre, rest)"
  obtains p where "s = pre @ CHR '':'' # p @ CHR ''@'' # rest"
proof -
  obtain n where n: "amqp_scheme s = Some n" using assms by (cases "amqp_scheme s") (auto simp: amqp_match_def)
  define u where "u = takeWhile user_char (drop n s)"
  define s1 where "s1 = drop (n + length u) s"
  define p where "p = takeWhile pass_char (tl s1)"
  define s2 where "s2 = drop (length p) (tl s1)"
  have "u \<noteq> [] \<and> s1 \<noteq> [] \<and> hd s1 = CHR '':'' \<and> p \<noteq> [] \<and> s2 \<noteq> [] \<and> hd s2 = CHR ''@'' \<and>
      pre = take (n + length u) s \<and> rest = tl s2"
    using assms [unfolded amqp_match_def n option.case Let_def, folded u_def, folded s1_def, folded p_def, folded s2_def]
    by (rule if_Some_pair)
  then have f: "s1 \<noteq> []" "hd s1 = CHR '':''" "s2 \<noteq> []" "hd s2 = CHR ''@''" "pre = take (n + length u) s" "rest = tl s2"
    by blast+
  obtain t1 where t1: "s1 = CHR '':'' # t1" using f(1,2) by (cases s1) auto
  obtain t2 where t2: "s2 = CHR ''@'' # t2" using f(3,4) by (cases s2) auto
  have "t1 = p @ s2" using t1 by (simp add: p_def s2_def flip: dropWhile_eq_drop)
  moreover have "s = pre @ s1" by (simp add: f(5) s1_def)
  ultimately have "s = pre @ CHR '':'' # p @ CHR ''@'' # rest" using t1 t2 f(6) by simp
  then show ?thesis by (rule that)
qed

function amqp_sub :: "string \<Rightarrow> string" where
  "amqp_sub [] = []"
| "amqp_sub (c # cs) = (case amqp_match (c # cs) of
       Some (pre, rest) \<Rightarrow> pre @ '':***@'' @ amqp_sub rest
     | None \<Rightarrow> c # amqp_sub cs)"
  by pat_completeness auto
termination
proof (relation "measure length")
  fix c cs x pre rest
  assume "amqp_match (c # cs) = Some x" "(pre, rest) = x"
  then obtain p where "c # cs = pre @ CHR '':'' # p @ CHR ''@'' # rest" using amqp_match_parts by metis
  then have "length (c # cs) = length (pre @ CHR '':'' # p @ CHR ''@'' # rest)" by simp
  then show "(rest, c # cs) \<in> measure length" by simp
qed auto

declare amqp_sub.simps(2) [simp del]

definition scrub_amqp_passwords :: "string \<Rightarrow> string" where
  "scrub_amqp_passwords s = (if s = [] \<or> \<not> py_in ''amqp'' (py_lower s) then s else amqp_sub s)"

definition sanitize :: "string list \<Rightarrow> string \<Rightarrow> string" where
  \<comment> \<open>the composition every use in the file has\<close>
  "sanitize reg s = scrub_amqp_passwords (scrub_message reg s)"

section \<open>Records and formatters\<close>

datatype log_arg = LogText string | LogOther json

record log_record =
  lg_msg :: log_arg
  lg_args :: "log_arg list"
  lg_level :: string
  lg_logger :: string
  lg_exc :: "string option"
  lg_ctx :: "(string \<times> log_arg) list"     \<comment> \<open>the \<open>ctx_\<close> attributes\<close>

definition clean_arg :: "string list \<Rightarrow> log_arg \<Rightarrow> log_arg" where
  "clean_arg reg a = (case a of LogText s \<Rightarrow> LogText (sanitize reg s) | LogOther v \<Rightarrow> LogOther v)"

definition redaction_filter :: "string list \<Rightarrow> log_record \<Rightarrow> log_record" where
  "redaction_filter reg r = r\<lparr>lg_msg := clean_arg reg (lg_msg r), lg_args := map (clean_arg reg) (lg_args r)\<rparr>"

text \<open>\<open>get_message\<close> is \<open>record.getMessage()\<close>, \<open>layout\<close> the formatting of the base class.\<close>

definition json_format ::
  "string list \<Rightarrow> (log_record \<Rightarrow> string) \<Rightarrow> string \<Rightarrow> log_record \<Rightarrow> (string \<times> log_arg) list" where
  "json_format reg get_message ts r =
     [(''ts'', LogText ts), (''level'', LogText (lg_level r)), (''logger'', LogText (lg_logger r)),
      (''msg'', LogText (sanitize reg (get_message r)))] @
     (case lg_exc r of None \<Rightarrow> [] | Some t \<Rightarrow> [(''exc'', LogText (sanitize reg t))]) @
     map (\<lambda>(k, a). (k, clean_arg reg a)) (lg_ctx r)"

definition text_format :: "string list \<Rightarrow> (log_record \<Rightarrow> string) \<Rightarrow> log_record \<Rightarrow> string" where
  "text_format reg layout r = sanitize reg (layout r)"

section \<open>Handlers\<close>

definition safe_component :: "string \<Rightarrow> string \<Rightarrow> string" where
  \<comment> \<open>separators become underscores; the default stands for an empty text\<close>
  "safe_component dflt v =
     map (\<lambda>c. if c = CHR ''/'' \<or> c = CHR 0x5C then CHR ''_'' else c)
       (let s = py_strip v in if s = [] then dflt else s)"

datatype handler =
    ForeignHandler nat
  | StreamHandler bool                       \<comment> \<open>with the JSON formatter\<close>
  | FileHandler bool string int int          \<comment> \<open>path, size and number of backups\<close>

definition own_handler :: "handler \<Rightarrow> bool" where
  "own_handler h = (case h of ForeignHandler _ \<Rightarrow> False | _ \<Rightarrow> True)"

text \<open>\<open>render\<close> is \<open>str.format\<close> with the two fields, \<open>None\<close> when it raises \<open>KeyError\<close> or \<open>IndexError\<close>;
  \<open>opens\<close> says whether the file can be opened.\<close>

definition resolve_log_file_path ::
  "(string \<Rightarrow> string \<Rightarrow> string \<Rightarrow> string option) \<Rightarrow> string \<Rightarrow> string \<Rightarrow> string \<Rightarrow> string" where
  "resolve_log_file_path render template code instance_id =
     (case render template (safe_component ''default'' code) (safe_component ''noid'' instance_id) of
        Some t \<Rightarrow> t | None \<Rightarrow> template)"

definition configure_logging ::
  "(string \<Rightarrow> string \<Rightarrow> string \<Rightarrow> string option) \<Rightarrow> (string \<Rightarrow> bool) \<Rightarrow> string \<Rightarrow> string \<Rightarrow> int \<Rightarrow> int \<Rightarrow>
   string \<Rightarrow> string \<Rightarrow> handler list \<Rightarrow> handler list" where
  "configure_logging render opens fmt file_path max_bytes backups code instance_id hs =
     (let json = (py_lower (py_strip fmt) = ''json'');
          base = filter (\<lambda>h. \<not> own_handler h) hs @ [StreamHandler json];
          path = resolve_log_file_path render (py_strip file_path) code instance_id
      in if py_strip file_path = [] \<or> \<not> opens path then base
         else base @ [FileHandler json path (max (1024 * 1024) max_bytes) (max 1 backups)])"

section \<open>No secret in the log\<close>

definition scrubbable :: "string \<Rightarrow> bool" where
  "scrubbable t \<longleftrightarrow> t \<noteq> [] \<and> CHR ''*'' \<notin> set t \<and> \<not> sublist t ''REDACTED''"

definition scrub_one :: "string \<Rightarrow> string \<Rightarrow> string" where
  "scrub_one t s = (if t \<noteq> [] \<and> py_in t s then py_replace t ''***REDACTED***'' s else s)"

lemma scrub_one_keeps_out: "scrubbable q \<Longrightarrow> \<not> sublist q s \<Longrightarrow> \<not> sublist q (scrub_one t s)"
  unfolding scrubbable_def scrub_one_def using replace_keeps_out [of q s t] by (simp add: py_replace_def)

lemma scrub_one_removes: "scrubbable t \<Longrightarrow> \<not> sublist t (scrub_one t s)"
  using replace_removes [of t s] by (simp add: scrubbable_def scrub_one_def py_replace_def py_in_sublist)

lemma scrub_all_keeps_out: "scrubbable q \<Longrightarrow> \<not> sublist q s \<Longrightarrow> \<not> sublist q (fold scrub_one ts s)"
  by (induction ts arbitrary: s) (simp_all add: scrub_one_keeps_out)

lemma scrub_all_removes: "q \<in> set ts \<Longrightarrow> scrubbable q \<Longrightarrow> \<not> sublist q (fold scrub_one ts s)"
  by (induction ts arbitrary: s) (auto simp: scrub_one_removes scrub_all_keeps_out)

lemma scrub_message_removes: "q \<in> set reg \<Longrightarrow> scrubbable q \<Longrightarrow> \<not> sublist q (scrub_message reg s)"
  using scrub_all_removes [of q "sort_key (\<lambda>t. - int (length t)) reg" s]
  by (auto simp: scrub_message_def scrub_one_def [abs_def] scrubbable_def)

lemma amqp_prefix: "prefix q (amqp_sub s) \<Longrightarrow> CHR ''*'' \<notin> set q \<Longrightarrow> prefix q s"
proof (induction s arbitrary: q rule: amqp_sub.induct)
  case (2 c cs)
  show ?case
  proof (cases "amqp_match (c # cs)")
    case None
    then show ?thesis using "2.prems" "2.IH"(1) by (cases q) (auto simp: amqp_sub.simps(2))
  next
    case (Some x)
    obtain pre rest where x: "x = (pre, rest)" by fastforce
    obtain p where s: "c # cs = pre @ CHR '':'' # p @ CHR ''@'' # rest" using amqp_match_parts Some x by metis
    have "prefix q ((pre @ '':'') @ ''***@'' @ amqp_sub rest)" using "2.prems"(1) Some x by (simp add: amqp_sub.simps(2))
    then have "prefix q (pre @ '':'')"
      using "2.prems"(2) by (auto simp: prefix_append prefix_Cons)
    then show ?thesis unfolding s by (metis append.assoc append_Cons append_Nil prefix_prefix)
  qed
qed simp

lemma amqp_keeps_out: "t \<noteq> [] \<Longrightarrow> CHR ''*'' \<notin> set t \<Longrightarrow> \<not> sublist t s \<Longrightarrow> \<not> sublist t (amqp_sub s)"
proof (induction s rule: amqp_sub.induct)
  case (2 c cs)
  have tail: "\<not> sublist t (d # amqp_sub ds)" if "\<not> sublist t (d # ds)" "\<not> sublist t (amqp_sub ds)" for d ds
  proof
    assume "sublist t (d # amqp_sub ds)"
    then have "prefix t (d # amqp_sub ds)" using that(2) by (auto simp: sublist_Cons_right)
    then have "prefix t (d # ds)" using amqp_prefix "2.prems"(1,2) by (cases t) auto
    then show False using that(1) by (simp add: prefix_imp_sublist)
  qed
  show ?case
  proof (cases "amqp_match (c # cs)")
    case None
    have "\<not> sublist t cs" using "2.prems"(3) by (auto simp: sublist_Cons_right)
    then show ?thesis using tail [of c cs] "2.IH"(1) [OF None] "2.prems" None by (simp add: amqp_sub.simps(2))
  next
    case (Some x)
    obtain pre rest where x: "x = (pre, rest)" by fastforce
    obtain p where s: "c # cs = pre @ CHR '':'' # p @ CHR ''@'' # rest" using amqp_match_parts Some x by metis
    have parts: "sublist (pre @ '':'') (c # cs)" "sublist (CHR ''@'' # rest) (c # cs)" "sublist rest (c # cs)"
      unfolding s
      using sublist_append_rightI [of "pre @ '':''" "p @ CHR ''@'' # rest"]
        sublist_append_leftI [of "CHR ''@'' # rest" "pre @ CHR '':'' # p"]
        sublist_append_leftI [of rest "pre @ CHR '':'' # p @ ''@''"] by simp_all
    then have out: "\<not> sublist t (pre @ '':'')" "\<not> sublist t (CHR ''@'' # rest)" "\<not> sublist t rest"
      using "2.prems"(3) by (meson sublist_order.order.trans)+
    then have "\<not> sublist t (CHR ''@'' # amqp_sub rest)"
      using tail "2.IH"(2) [OF Some x [symmetric]] "2.prems"(1,2) by blast
    then have "\<not> sublist t (''**@'' @ amqp_sub rest)"
      using sublist_skip [of t "CHR ''*''" "CHR ''@'' # amqp_sub rest"]
        sublist_skip [of t "CHR ''*''" "CHR ''*'' # CHR ''@'' # amqp_sub rest"] "2.prems"(1,2) by auto
    then show ?thesis
      using sublist_skip_mark [of t "pre @ '':''" "CHR ''*''" "''**@'' @ amqp_sub rest"] out(1) "2.prems"(1,2) Some x
      by (auto simp: amqp_sub.simps(2))
  qed
qed simp

lemma sanitize_hides: "q \<in> set reg \<Longrightarrow> scrubbable q \<Longrightarrow> \<not> sublist q (sanitize reg s)"
  using scrub_message_removes [of q reg s] amqp_keeps_out [of q "scrub_message reg s"]
  by (auto simp: sanitize_def scrub_amqp_passwords_def scrubbable_def)


lemma registered:
  assumes "Some v \<in> set vs" "4 \<le> length (py_strip v)"
  shows "py_strip v \<in> set (fold register_secret vs reg)"
proof -
  have keep: "t \<in> set reg \<Longrightarrow> t \<in> set (fold register_secret vs reg)" for t reg
    by (induction vs arbitrary: reg) (auto simp: register_secret_def split: option.splits)
  have "v \<noteq> []" using assms(2) by (auto simp: py_strip_def py_lstrip_def py_rstrip_by_def)
  then have "py_strip v \<in> set (register_secret (Some v) reg)" for reg
    using assms(2) by (auto simp: register_secret_def)
  then show ?thesis using assms(1)
  proof (induction vs arbitrary: reg)
    case (Cons x vs)
    have "t \<in> set reg \<Longrightarrow> t \<in> set (fold register_secret vs reg)" for t reg
      by (induction vs arbitrary: reg) (auto simp: register_secret_def split: option.splits)
    then show ?case using Cons by auto
  qed simp
qed

text \<open>C18: No registered secret reaches the log: whatever the record, and whatever other secrets are
  registered, the text formatter's line, and in the JSON formatter's output the message, the exception
  text and the context values, do not contain a secret of at least four characters, nor does any text the
  filter leaves in message and arguments, provided it has no asterisk and is no part of the word REDACTED.\<close>

theorem log_hides_secrets:
  assumes "Some v \<in> set vs" and "reg = fold register_secret vs []" and "t = py_strip v" and "4 \<le> length t"
    and "CHR ''*'' \<notin> set t" and "\<not> py_in t ''REDACTED''"
  shows "\<not> py_in t (text_format reg layout r) \<and>
    (\<forall>(k, a) \<in> set (json_format reg get_message ts r). k \<notin> {''ts'', ''level'', ''logger''} \<longrightarrow>
       (\<forall>s. a = LogText s \<longrightarrow> \<not> py_in t s)) \<and>
    (\<forall>s. LogText s \<in> insert (lg_msg (redaction_filter reg r)) (set (lg_args (redaction_filter reg r))) \<longrightarrow> \<not> py_in t s)"
proof -
  have "t \<in> set reg" using registered [OF assms(1)] assms(2-4) by simp
  moreover have "scrubbable t" using assms(4-6) by (auto simp: scrubbable_def py_in_sublist)
  ultimately have clean: "\<not> py_in t (sanitize reg s)" for s using sanitize_hides by (simp add: py_in_sublist)
  have arg: "clean_arg reg a = LogText s \<Longrightarrow> \<not> py_in t s" for a s
    using clean by (auto simp: clean_arg_def split: log_arg.splits)
  have filt: "LogText s \<in> insert (lg_msg (redaction_filter reg r)) (set (lg_args (redaction_filter reg r))) \<Longrightarrow>
      \<not> py_in t s" for s
    using arg by (simp add: redaction_filter_def) (metis imageE)
  show ?thesis using clean arg filt by (auto simp: text_format_def json_format_def split: option.splits)
qed

theorem log_hides_secrets_witness:
  "\<not> py_in ''tok-4711'' (text_format (fold register_secret [Some ''tok-4711''] []) lg_level
     \<lparr>lg_msg = LogText [], lg_args = [], lg_level = ''bad token tok-4711'', lg_logger = [], lg_exc = None, lg_ctx = []\<rparr>)"
proof -
  have "\<not> py_in ''tok-4711'' ''REDACTED''" "py_strip ''tok-4711'' = ''tok-4711''" by code_simp+
  then show ?thesis using log_hides_secrets [of "''tok-4711''" "[Some ''tok-4711'']" _ "''tok-4711''" lg_level
      "\<lparr>lg_msg = LogText [], lg_args = [], lg_level = ''bad token tok-4711'', lg_logger = [], lg_exc = None, lg_ctx = []\<rparr>"
      lg_level "[]"] by simp
qed

text \<open>The password of an AMQP address is masked even when nobody registered it.\<close>

lemma amqp_matchI:
  assumes "amqp_scheme s = Some n" "drop n s = u @ CHR '':'' # p @ CHR ''@'' # rest"
    and "u \<noteq> []" "list_all user_char u" "p \<noteq> []" "list_all pass_char p"
  shows "amqp_match s = Some (take n s @ u, rest)"
proof -
  have tu: "takeWhile user_char (u @ CHR '':'' # x) = u" for x
    using assms(4) by (induction u) (auto simp: user_char_def)
  have tp: "takeWhile pass_char (p @ CHR ''@'' # x) = p" for x
    using assms(6) by (induction p) (auto simp: pass_char_def)
  have "drop (n + length u) s = drop (length u) (drop n s)" by (simp add: add.commute)
  then have d: "drop (n + length u) s = CHR '':'' # p @ CHR ''@'' # rest" by (simp add: assms(2))
  have "take (n + length u) s = take n s @ u" by (simp add: take_add assms(2))
  then show ?thesis using assms(3,5) by (simp add: amqp_match_def assms(1,2) Let_def tu tp d del: drop_eq_Nil drop_eq_Nil2)
qed

lemma amqp_password_masked:
  assumes "u \<noteq> []" "list_all user_char u" "p \<noteq> []" "list_all pass_char p"
  shows "amqp_sub (''amqp://'' @ u @ '':'' @ p @ ''@'' @ rest) = ''amqp://'' @ u @ '':***@'' @ amqp_sub rest"
proof -
  let ?s = "''amqp://'' @ u @ '':'' @ p @ ''@'' @ rest"
  have n: "amqp_scheme ?s = Some 7"
    by (simp add: amqp_scheme_def) code_simp
  have "amqp_match ?s = Some (take 7 ?s @ u, rest)"
    by (rule amqp_matchI [OF n _ assms]) simp
  then show ?thesis by (simp add: amqp_sub.simps(2))
qed

text \<open>Configuring the root logger twice leaves the same handlers as once, and foreign handlers alone.\<close>

lemma configure_logging_idem:
  "configure_logging render opens fmt path mb bk code iid (configure_logging render opens fmt path mb bk code iid hs) =
   configure_logging render opens fmt path mb bk code iid hs"
  by (simp add: configure_logging_def Let_def own_handler_def o_def)

end
