(* ===== verification/Startup.thy ===== *)
theory Startup
  imports Service Identity Log_Redaction
begin

text \<open>
  \<open>main.run\<close> up to its loop, \<open>start_health_server\<close> and \<open>__main__.py\<close>: the overrides of the command line,
  the secrets registered for the log, and the start of every component in order, each with the exceptions
  that end the process. The environment of a start (files, ports, packages, clocks) is a record.
\<close>

section \<open>The command line\<close>

record cli_args =
  ca_code :: "string option"
  ca_port :: "int option"
  ca_parallel :: "int option"
  ca_env_file :: "string option"

definition apply_cli_overrides :: "cli_args \<Rightarrow> (string \<rightharpoonup> string) \<Rightarrow> (string \<rightharpoonup> string)" where
  "apply_cli_overrides a env =
     (let env1 = (case ca_code a of Some c \<Rightarrow> if c = [] then env else env(''GATEWAY_CODE'' \<mapsto> c) | None \<Rightarrow> env);
          env2 = (case ca_port a of Some p \<Rightarrow> env1(''WORKER_HEALTH_PORT'' \<mapsto> int_str p) | None \<Rightarrow> env1)
      in case ca_parallel a of Some n \<Rightarrow> env2(''MAX_PARALLEL_DEVICES'' \<mapsto> int_str n) | None \<Rightarrow> env2)"

section \<open>Secrets\<close>

definition url_password :: "url \<Rightarrow> string option" where
  \<comment> \<open>\<open>urlparse(...).password\<close>: after the first colon before the last at sign\<close>
  "url_password u =
     (if CHR ''@'' \<notin> set (u_netloc u) then None
      else let ui = rev (tl (dropWhile (\<lambda>c. c \<noteq> CHR ''@'') (rev (u_netloc u))));
               p = dropWhile (\<lambda>c. c \<noteq> CHR '':'') ui
           in if p = [] then None else Some (tl p))"

text \<open>An address that \<open>urlparse\<close> refuses ends the block; what was registered before it stays.\<close>

definition register_url :: "(string \<Rightarrow> bool option) \<Rightarrow> string \<Rightarrow> string list \<Rightarrow> string list option" where
  "register_url ip6 addr reg =
     (if addr = [] then Some reg
      else case urlparse ip6 addr of
        Inl x \<Rightarrow> None
      | Inr u \<Rightarrow> Some (case url_password u of
            Some p \<Rightarrow> if p = [] then reg else register_secret (Some p) reg | None \<Rightarrow> reg))"

definition register_secrets :: "(string \<Rightarrow> bool option) \<Rightarrow> string \<Rightarrow> settings \<Rightarrow> string list \<Rightarrow> string list" where
  "register_secrets ip6 token s reg =
     (let reg1 = register_secret (Some token) reg;
          reg2 = (if cf_refresh_token s = [] then reg1 else register_secret (Some (cf_refresh_token s)) reg1)
      in case register_url ip6 (cf_nats_url s) reg2 of
           None \<Rightarrow> reg2
         | Some reg3 \<Rightarrow> (case register_url ip6 (cf_rabbit_url s) reg3 of None \<Rightarrow> reg3 | Some reg4 \<Rightarrow> reg4))"

definition token_line :: "settings \<Rightarrow> gateway_identity \<Rightarrow> string" where
  \<comment> \<open>what the console shows of the token\<close>
  "token_line s gi =
     (if cf_show_token s then ''[dnp3-gateway] GATEWAY_TOKEN='' @ gi_token gi
      else ''[dnp3-gateway] GATEWAY_TOKEN (maskeli)='' @ mask_secret (gi_token gi) 2)"

section \<open>The configuration client\<close>

record config_client =
  cc_base :: string
  cc_code :: string
  cc_timeout :: int
  cc_verify :: tls_verify
  cc_limit :: nat

definition config_client_init :: "settings \<Rightarrow> gateway_identity \<Rightarrow> config_client" where
  "config_client_init s gi =
     \<lparr>cc_base = py_rstrip_by (\<lambda>c. c = CHR ''/'') (cf_backend_url s), cc_code = gi_code gi,
      cc_timeout = cf_config_timeout s, cc_verify = tls_verify_param (cf_ca_path s) (cf_verify_ssl s),
      cc_limit = response_limit (cf_response_max s)\<rparr>"

definition config_url :: "config_client \<Rightarrow> string" where
  "config_url c = cc_base c @ ''/gateways/'' @ cc_code c @ ''/config''"

section \<open>Starting\<close>

record boot_env =
  be_version :: string
  be_id :: id_env
  be_id_file :: id_file
  be_render :: "string \<Rightarrow> string \<Rightarrow> string \<Rightarrow> string option"   \<comment> \<open>\<open>str.format\<close> of the log path\<close>
  be_opens :: "string \<Rightarrow> bool"
  be_shw :: "json \<Rightarrow> string"
  be_cache :: cache_file
  be_bind :: "int \<Rightarrow> int res"             \<comment> \<open>the port a server socket gets, or the exception\<close>
  be_clocks :: "clock \<times> clock"            \<comment> \<open>monotonic and wall clock\<close>
  be_nats :: bool                          \<comment> \<open>the \<open>nats\<close> package is there\<close>
  be_connect :: "connect_result option"    \<comment> \<open>the first connect, \<open>None\<close> when it is still running\<close>
  be_db :: "pyexc option"                  \<comment> \<open>what opening the outbox file raises\<close>
  be_count :: bool
  be_dead_count :: db_fault
  be_disk :: tables
  be_installed :: "string set"

record 'm gateway =
  gw_handlers :: "handler list"
  gw_registry :: "string list"
  gw_identity :: gateway_identity
  gw_id_file :: id_file
  gw_console :: string
  gw_state_of :: gw_state
  gw_ready :: bool
  gw_server :: server_conf
  gw_mx :: gw_metrics
  gw_pub :: "(jetstream, outbox) pub_sys"
  gw_retrier :: retrier
  gw_reader :: "'m adapter"
  gw_client :: config_client
  gw_refresher :: refresher

datatype 'a boot = Booted 'a | BootFailed pyexc | BootUntyped

definition start_health_server :: "(int \<Rightarrow> int res) \<Rightarrow> settings \<Rightarrow> gateway_identity \<Rightarrow> server_conf res" where
  "start_health_server bind s gi = (case bind (cf_health_port s) of
       Inl x \<Rightarrow> Inl x
     | Inr port \<Rightarrow> Inr \<lparr>sc_code = gi_code gi, sc_mode = cf_mode s, sc_instance = gi_instance gi, sc_env = gi_env gi,
         sc_port = port, sc_refresh_token = py_strip (cf_refresh_token s), sc_auth_required = True\<rparr>)"

definition open_outbox :: "boot_env \<Rightarrow> int \<Rightarrow> outbox res" where
  \<comment> \<open>opening, and the count of the dead letters for the log\<close>
  "open_outbox e limit = (case be_db e of
       Some x \<Rightarrow> Inl x
     | None \<Rightarrow> (let ob = outbox_init (be_count e) limit (be_disk e) in
         case dead_letter_count (be_dead_count e) ob of Inl x \<Rightarrow> Inl x | Inr n \<Rightarrow> Inr ob))"

definition start_broker :: "boot_env \<Rightarrow> settings \<Rightarrow> gateway_identity \<Rightarrow> jetstream res" where
  "start_broker e s gi = (case js_create (be_nats e) (cf_subject_prefix s) (gi_code gi) of
       None \<Rightarrow> Inl (system_exit ''1'')
     | Some js \<Rightarrow> Inr (js_start (be_connect e) js))"

text \<open>What follows the configuration cache: health server, broker, outbox, retrier, reader and client.\<close>

definition start_parts ::
  "(string \<Rightarrow> bool option) \<Rightarrow> boot_env \<Rightarrow> settings \<Rightarrow> handler list \<Rightarrow> string list \<Rightarrow> gateway_identity \<Rightarrow> id_file \<Rightarrow>
   gw_state \<Rightarrow> bool \<Rightarrow> 'm gateway res" where
  "start_parts ip6 e s hs reg gi f st ready =
     and_field (start_health_server (be_bind e) s gi) (\<lambda>sc.
     and_field (start_broker e s gi) (\<lambda>js.
     and_field (open_outbox e (cf_max_pending s)) (\<lambda>ob.
     and_field (build_adapter (be_installed e) s) (\<lambda>ad.
       Inr \<lparr>gw_handlers = hs, gw_registry = reg, gw_identity = gi, gw_id_file = f, gw_console = token_line s gi,
            gw_state_of = st, gw_ready = ready, gw_server = sc,
            gw_mx = metrics_init (fst (be_clocks e)) (snd (be_clocks e)),
            gw_pub = \<lparr>ps_broker = js, ps_store = ob, ps_rp = rp_init\<rparr>,
            gw_retrier = retrier_start (retrier_init (cf_retrier_poll s) (cf_batch s) (cf_max_retries s)
              (cf_min_backoff s) (cf_max_backoff s) (3 / 2)),
            gw_reader = ad, gw_client = config_client_init s gi,
            gw_refresher = \<lparr>rf_last_active = None, rf_failures = 0\<rparr>\<rparr>))))"

definition boot ::
  "(string \<Rightarrow> bool option) \<Rightarrow> boot_env \<Rightarrow> settings \<Rightarrow> handler list \<Rightarrow> string list \<Rightarrow> 'm gateway boot" where
  "boot ip6 e s hs reg =
     (let hs1 = configure_logging (be_render e) (be_opens e) (cf_log_format s) [] 20971520 10 [] [] hs in
      case bootstrap_identity (be_id e) s (be_version e) (be_id_file e) of
        (Inl x, f) \<Rightarrow> BootFailed x
      | (Inr gi, f) \<Rightarrow>
          (let hs2 = configure_logging (be_render e) (be_opens e) (cf_log_format s) (cf_log_file s) (cf_log_max s)
                 (cf_log_backups s) (gi_code gi) (gi_instance gi) hs1;
               reg1 = register_secrets ip6 (gi_token gi) s reg
           in case gateway_start (be_shw e) (cf_cache_hours s) (be_cache e) of
                StartFailed x \<Rightarrow> BootFailed x
              | StartUntyped \<Rightarrow> BootUntyped
              | Started ready st \<Rightarrow> (case start_parts ip6 e s hs2 reg1 gi f st ready of
                    Inl x \<Rightarrow> BootFailed x | Inr g \<Rightarrow> Booted g)))"

text \<open>\<open>python -m dnp3_gateway\<close>: \<open>load\<close> is the construction of the settings from the environment and the
  environment file, the default one when none is named; its validation is \<open>validate\<close>. Importing \<open>config.py\<close>
  builds its \<open>settings\<close> first, from the default file and the environment without the overrides.\<close>

definition cli_main ::
  "(string option \<Rightarrow> (string \<rightharpoonup> string) \<Rightarrow> settings) \<Rightarrow> (string \<Rightarrow> bool option) \<Rightarrow> boot_env \<Rightarrow> cli_args \<Rightarrow>
   (string \<rightharpoonup> string) \<Rightarrow> handler list \<Rightarrow> string list \<Rightarrow> 'm gateway boot" where
  "cli_main load ip6 e a env hs reg =
     (let file = (case ca_env_file a of Some p \<Rightarrow> if p = [] then None else Some p | None \<Rightarrow> None) in
      case validate ip6 (load None env) of
        Inl x \<Rightarrow> BootFailed x
      | Inr _ \<Rightarrow> (case validate ip6 (load file (apply_cli_overrides a env)) of
            Inl x \<Rightarrow> BootFailed x
          | Inr s \<Rightarrow> boot ip6 e s hs reg))"

lemma cli_main_validates:
  "cli_main load ip6 e a env hs reg = Booted g \<Longrightarrow> \<exists>s s'. validate ip6 s = Inr s' \<and> boot ip6 e s' hs reg = Booted g"
  by (auto simp: cli_main_def Let_def split: sum.splits)

text \<open>Naming another environment file does not help when the default one is invalid.\<close>

lemma default_file_must_be_valid:
  "validate ip6 (load None env) = Inl x \<Longrightarrow> cli_main load ip6 e a env hs reg = BootFailed x"
  by (simp add: cli_main_def Let_def)

section \<open>When a gateway starts\<close>

text \<open>What can keep it from starting, once the identity is there and the cache file was read.\<close>

definition parts_available :: "boot_env \<Rightarrow> settings \<Rightarrow> bool" where
  "parts_available e s \<longleftrightarrow> \<not> raised (be_bind e (cf_health_port s)) \<and> be_nats e \<and> be_db e = None \<and>
     be_dead_count e = DbOk \<and> needs_installed s \<subseteq> be_installed e"

lemma start_parts_raised:
  assumes "validate ip6 s = Inr s'"
  shows "raised (start_parts ip6 e s' hs reg gi f st ready :: 'm gateway res) \<longleftrightarrow> \<not> parts_available e s'"
  using build_adapter_needs [OF assms, where installed = "be_installed e" and 'm = 'm]
  by (auto simp: start_parts_def parts_available_def and_field_def raised_def start_health_server_def start_broker_def
      js_create_def open_outbox_def dead_letter_count_def Let_def
      split: sum.splits option.splits db_fault.splits)

text \<open>C16: A gateway with valid settings starts exactly when it has a permitted identity, the cache file does
  not raise, the health port can be bound, the NATS package and the package of its reader are installed and
  the outbox file opens and can be counted; backend, broker and devices need not be there.\<close>

theorem boot_succeeds:
  assumes "validate ip6 s = Inr s'" and "bootstrap_identity (be_id e) s' (be_version e) (be_id_file e) = (i, f)"
  shows "(\<exists>g :: 'm gateway. boot ip6 e s' hs reg = Booted g) \<longleftrightarrow>
    \<not> raised i \<and> (\<exists>b st. gateway_start (be_shw e) (cf_cache_hours s') (be_cache e) = Started b st) \<and>
    parts_available e s'"
proof (cases i)
  case (Inr gi)
  show ?thesis
  proof (cases "gateway_start (be_shw e) (cf_cache_hours s') (be_cache e)")
    case (Started ready st)
    have "(\<exists>g :: 'm gateway. boot ip6 e s' hs reg = Booted g) \<longleftrightarrow>
        \<not> raised (start_parts ip6 e s' (configure_logging (be_render e) (be_opens e) (cf_log_format s') (cf_log_file s')
          (cf_log_max s') (cf_log_backups s') (gi_code gi) (gi_instance gi)
          (configure_logging (be_render e) (be_opens e) (cf_log_format s') [] 20971520 10 [] [] hs))
          (register_secrets ip6 (gi_token gi) s' reg) gi f st ready :: 'm gateway res)"
      using Inr Started assms(2) by (simp add: boot_def Let_def raised_def split: sum.split)
    then show ?thesis using start_parts_raised [OF assms(1), where 'm = 'm] Started Inr by (simp add: raised_def)
  qed (use Inr assms(2) in \<open>simp_all add: boot_def Let_def\<close>)
qed (use assms(2) in \<open>simp add: boot_def Let_def raised_def\<close>)

definition sample_boot :: boot_env where
  "sample_boot = \<lparr>be_version = ''1.0'', be_id = sample_id_env, be_id_file = IdAbsent, be_render = (\<lambda>t c i. None),
     be_opens = (\<lambda>p. True), be_shw = (\<lambda>v. []), be_cache = NoFile, be_bind = Inr, be_clocks = (5, 1700000000),
     be_nats = True, be_connect = None, be_db = None, be_count = True, be_dead_count = DbOk,
     be_disk = disk sample_stored, be_installed = {''yadnp3''}\<rparr>"

lemma sample_boot_identity:
  "bootstrap_identity (be_id sample_boot) validated_sample (be_version sample_boot) (be_id_file sample_boot) =
    (Inr sample_identity, IdText (sample_uuid @ [CHR 0x0A]))"
  using sample_bootstrap by (simp add: sample_boot_def)

lemma sample_boot_parts:
  "gateway_start (be_shw sample_boot) h (be_cache sample_boot) = Started False (state_init True h NoFile)"
  "parts_available sample_boot validated_sample"
  by (simp_all add: sample_boot_def gateway_start_def load_from_cache_def state_init_def parts_available_def raised_def
      needs_installed_def validated_sample_def sample_settings_def default_settings_def)

theorem boot_succeeds_witness:
  "\<exists>g :: unit gateway. boot (\<lambda>h. None) sample_boot validated_sample [] [] = Booted g"
proof (rule boot_succeeds [OF sample_settings_valid sample_boot_identity, THEN iffD2], intro conjI)
  show "\<not> raised (Inr sample_identity :: gateway_identity res)" by (simp add: raised_def)
qed (use sample_boot_parts in blast)+

section \<open>What a started gateway looks like\<close>

lemma bounds_timing:
  assumes "bounds_ok s"
  shows "1 / 2 \<le> cf_retrier_poll s" "1 \<le> cf_batch s" "1 \<le> cf_max_retries s" "1 / 10 \<le> cf_min_backoff s"
    "1000 \<le> cf_max_pending s"
  using assms by (simp_all add: bounds_ok_def int_bounds_defs float_bounds_def)

lemma boot_parts:
  assumes "boot ip6 e s hs reg = Booted g"
  obtains gi f hs2 st ready where "bootstrap_identity (be_id e) s (be_version e) (be_id_file e) = (Inr gi, f)"
    "gateway_start (be_shw e) (cf_cache_hours s) (be_cache e) = Started ready st"
    "start_parts ip6 e s hs2 (register_secrets ip6 (gi_token gi) s reg) gi f st ready = Inr g"
  using assms by (auto simp: boot_def Let_def split: prod.splits sum.splits start_result.splits)

lemma start_parts_parts:
  assumes "start_parts ip6 e s hs reg gi f st ready = Inr g"
  obtains js where "start_broker e s gi = Inr js" "open_outbox e (cf_max_pending s) = Inr (ps_store (gw_pub g))"
    "build_adapter (be_installed e) s = Inr (gw_reader g)" "ps_broker (gw_pub g) = js" "ps_rp (gw_pub g) = rp_init"
    "gw_retrier g = retrier_start (retrier_init (cf_retrier_poll s) (cf_batch s) (cf_max_retries s)
       (cf_min_backoff s) (cf_max_backoff s) (3 / 2))"
    "gw_registry g = reg" "gw_identity g = gi" "gw_state_of g = st" "gw_ready g = ready" "gw_console g = token_line s gi"
    "gw_server g = \<lparr>sc_code = gi_code gi, sc_mode = cf_mode s, sc_instance = gi_instance gi, sc_env = gi_env gi,
         sc_port = sc_port (gw_server g), sc_refresh_token = py_strip (cf_refresh_token s), sc_auth_required = True\<rparr>"
  using assms by (auto simp: start_parts_def and_field_Inr start_health_server_def split: sum.splits)

lemma start_broker_reachable: "start_broker e s gi = Inr js \<Longrightarrow> js_reachable js \<and> js_stored js = []"
proof -
  assume a: "start_broker e s gi = Inr js"
  then obtain j0 where j0: "js_create (be_nats e) (cf_subject_prefix s) (gi_code gi) = Some j0"
    "js = js_start (be_connect e) j0"
    by (auto simp: start_broker_def split: option.splits)
  have f: "js_loop j0" "\<not> js_nc j0" "\<not> js_task j0" "be_nats e" "js_stored j0 = []"
    using j0(1) by (auto simp: js_create_def split: if_splits)
  then have r: "js_reachable j0" using js_start j0(1) by simp
  have "js_reachable (js_connect_safe c j0) \<and> js_stored (js_connect_safe c j0) = []" for c
    using js_next [OF r js_connect [OF f(1-3)]] f(5)
    by (auto simp: js_connect_safe_def js_connected_def split: connect_result.split)
  moreover have "j0\<lparr>js_loop := True\<rparr> = j0" using f(1) by simp
  ultimately show ?thesis using r f(5) j0(2) by (auto simp: js_start_def split: option.split)
qed

lemma register_secret_keeps: "t \<in> set reg \<Longrightarrow> t \<in> set (register_secret v reg)"
  by (auto simp: register_secret_def split: option.split)

lemma register_url_keeps: "register_url ip6 a reg = Some reg' \<Longrightarrow> t \<in> set reg \<Longrightarrow> t \<in> set reg'"
  by (auto simp: register_url_def register_secret_keeps split: if_splits sum.splits option.splits)

lemma register_secrets_has:
  assumes "4 \<le> length (py_strip t)" and "t = token \<or> t = cf_refresh_token s"
  shows "py_strip t \<in> set (register_secrets ip6 token s reg)"
proof -
  have r: "py_strip t \<in> set (register_secret (Some t) r)" for r
    using registered [of t "[Some t]" r] assms(1) by simp
  have ne: "t \<noteq> []" using assms(1) by (auto simp: py_strip_no_blanks)
  define reg2 where "reg2 = (if cf_refresh_token s = [] then register_secret (Some token) reg
      else register_secret (Some (cf_refresh_token s)) (register_secret (Some token) reg))"
  have "py_strip t \<in> set reg2" using assms(2) r ne by (auto simp: reg2_def register_secret_keeps)
  then show ?thesis
    unfolding register_secrets_def Let_def reg2_def [symmetric]
    by (auto split: option.split dest: register_url_keeps)
qed


lemma sample_boot_installed: "be_installed sample_boot = {''yadnp3''}"
  by (simp add: sample_boot_def)

lemma sample_boot_ok:
  obtains g :: "unit gateway" where "boot (\<lambda>h. None) sample_boot validated_sample [] [] = Booted g"
    "gw_identity g = sample_identity"
proof -
  let ?p = "start_parts (\<lambda>h. None) sample_boot validated_sample
      (configure_logging (be_render sample_boot) (be_opens sample_boot) (cf_log_format validated_sample)
        (cf_log_file validated_sample) (cf_log_max validated_sample) (cf_log_backups validated_sample)
        (gi_code sample_identity) (gi_instance sample_identity)
        (configure_logging (be_render sample_boot) (be_opens sample_boot) (cf_log_format validated_sample) [] 20971520 10
          [] [] []))
      (register_secrets (\<lambda>h. None) (gi_token sample_identity) validated_sample []) sample_identity
      (IdText (sample_uuid @ [CHR 0x0A])) (state_init True (cf_cache_hours validated_sample) NoFile) False
      :: unit gateway res"
  have "\<not> raised ?p" using start_parts_raised [OF sample_settings_valid, where 'm = unit] sample_boot_parts(2) by blast
  then obtain g where g: "?p = Inr g" by (cases ?p) (auto simp: raised_def)
  then have "boot (\<lambda>h. None) sample_boot validated_sample [] [] = Booted g"
    using sample_boot_parts(1) by (simp add: boot_def Let_def sample_boot_identity)
  moreover have "gw_identity g = sample_identity" using start_parts_parts [OF g] by metis
  ultimately show ?thesis by (rule that)
qed


end
