(* ===== verification/Compose_Render.thy ===== *)
theory Compose_Render
  imports Identity
begin

text \<open>
  \<open>scripts/render_compose.py\<close>: filling the templates of a gateway's compose file and environment file,
  with the checks on code, token and port, and the program around it. The template is the text of a file
  (\<open>None\<close> when it cannot be read); the draws of \<open>secrets.choice\<close> are a list of indices.
\<close>

section \<open>Checks\<close>

definition render_error :: "string \<Rightarrow> pyexc" where
  "render_error t = PyExc ''RenderError'' t"

definition alnum :: "char \<Rightarrow> bool" where
  "alnum c \<longleftrightarrow> is_digit_char c \<or> alpha_char c"

text \<open>\<open>^[A-Za-z0-9][A-Za-z0-9_-]{1,63}$\<close>; the dollar also matches before a line feed at the end.\<close>

definition compose_code_ok :: "string \<Rightarrow> bool" where
  "compose_code_ok s =
     (let b = (if s \<noteq> [] \<and> last s = CHR 0x0A then butlast s else s) in
      b \<noteq> [] \<and> alnum (hd b) \<and> list_all (\<lambda>c. alnum c \<or> c = CHR ''_'' \<or> c = CHR ''-'') (tl b) \<and>
      2 \<le> length b \<and> length b \<le> 64)"

definition token_alphabet :: string where
  "token_alphabet = ''abcdefghijklmnopqrstuvwxyzABCDEFGHIJKLMNOPQRSTUVWXYZ0123456789''"

definition generate_token :: "nat list \<Rightarrow> string" where
  "generate_token draws = map (\<lambda>i. token_alphabet ! (i mod 62)) draws"

section \<open>Templates\<close>

definition key_char :: "char \<Rightarrow> bool" where
  "key_char c = (let n = (of_char c :: nat) in 48 \<le> n \<and> n \<le> 57 \<or> 65 \<le> n \<and> n \<le> 90 \<or> n = 95)"

text \<open>\<open>\{\{\s*([A-Z0-9_]+)\s*\}\}\<close> at the beginning of the text: the key and the rest. No character is of two
  of the classes, so every run is maximal.\<close>

definition placeholder :: "string \<Rightarrow> (string \<times> string) option" where
  "placeholder s =
     (if take 2 s \<noteq> ''{{'' then None
      else let a = dropWhile py_ws (drop 2 s); k = takeWhile key_char a; b = dropWhile py_ws (dropWhile key_char a)
           in if k \<noteq> [] \<and> take 2 b = ''}}'' then Some (k, drop 2 b) else None)"

lemma placeholder_rest:
  assumes "placeholder s = Some (k, rest)"
  shows "length rest < length s"
proof -
  define a where "a = dropWhile py_ws (drop 2 s)"
  define b where "b = dropWhile py_ws (dropWhile key_char a)"
  have "take 2 s = ''{{''" "rest = drop 2 b"
    using assms by (auto simp: placeholder_def Let_def a_def b_def split: if_splits)
  then have "2 \<le> length s" "length rest = length b - 2" by (auto simp: min_def dest: arg_cong [where f = length] split: if_splits)
  moreover have "length b \<le> length a" "length a \<le> length (drop 2 s)"
    unfolding a_def b_def by (meson length_dropWhile_le order.trans)+
  ultimately show ?thesis by simp
qed

function render_text :: "(string \<times> string) list \<Rightarrow> string \<Rightarrow> string res" where
  "render_text reps [] = Inr []"
| "render_text reps (c # cs) = (case placeholder (c # cs) of
       None \<Rightarrow> (case render_text reps cs of Inl x \<Rightarrow> Inl x | Inr t \<Rightarrow> Inr (c # t))
     | Some (k, rest) \<Rightarrow> (case map_of reps k of
           None \<Rightarrow> Inl (render_error k)
         | Some v \<Rightarrow> (case render_text reps rest of Inl x \<Rightarrow> Inl x | Inr t \<Rightarrow> Inr (v @ t))))"
  by pat_completeness auto
termination
  by (relation "measure (\<lambda>(reps, s). length s)") (auto dest!: placeholder_rest)

declare render_text.simps(2) [simp del]

record render_input =
  ri_code :: string
  ri_token :: string
  ri_name :: string
  ri_backend_url :: string
  ri_nats_url :: string
  ri_port :: int
  ri_image :: string
  ri_env :: string

definition env_replacements :: "render_input \<Rightarrow> (string \<times> string) list" where
  "env_replacements r =
     [(''GATEWAY_CODE'', ri_code r), (''GATEWAY_TOKEN'', ri_token r), (''GATEWAY_NAME'', ri_name r),
      (''BACKEND_API_URL'', py_rstrip_by (\<lambda>c. c = CHR ''/'') (ri_backend_url r)), (''NATS_URL'', ri_nats_url r),
      (''APP_ENVIRONMENT'', ri_env r)]"

definition compose_replacements :: "render_input \<Rightarrow> (string \<times> string) list" where
  "compose_replacements r = env_replacements r @
     [(''GATEWAY_CODE_LOWER'', py_lower (ri_code r)), (''HOST_HEALTH_PORT'', int_str (ri_port r)), (''IMAGE'', ri_image r)]"

definition file_error :: pyexc where
  "file_error = PyExc ''FileNotFoundError'' ''template''"

definition render_compose :: "string option \<Rightarrow> render_input \<Rightarrow> string res" where
  "render_compose template r =
     (if \<not> compose_code_ok (ri_code r) then Inl (render_error ''GATEWAY_CODE gecersiz'')
      else if length (ri_token r) < 16 then Inl (render_error ''GATEWAY_TOKEN cok kisa (>=16 karakter olmali)'')
      else if ri_port r < 1 \<or> 65535 < ri_port r then Inl (render_error ''host_port aralik disi'')
      else case template of None \<Rightarrow> Inl file_error | Some t \<Rightarrow> render_text (compose_replacements r) t)"

definition render_env :: "string option \<Rightarrow> render_input \<Rightarrow> string res" where
  "render_env template r =
     (if \<not> compose_code_ok (ri_code r) then Inl (render_error ''GATEWAY_CODE gecersiz'')
      else case template of None \<Rightarrow> Inl file_error | Some t \<Rightarrow> render_text (env_replacements r) t)"

section \<open>The program\<close>

record render_args =
  ra_input :: render_input            \<comment> \<open>its token is not used\<close>
  ra_token :: "string option"
  ra_render_env :: bool
  ra_output :: "string option"

datatype destination = ToFile string | ToStdout

text \<open>The text and where it goes; the flag says that the token was drawn, which is when the warnings come.\<close>

definition render_main ::
  "nat list \<Rightarrow> string option \<Rightarrow> string option \<Rightarrow> render_args \<Rightarrow> (string \<times> destination \<times> bool) res" where
  "render_main draws compose_template env_template a =
     (let token = (case ra_token a of Some t \<Rightarrow> if t = [] then generate_token draws else t | None \<Rightarrow> generate_token draws);
          r = (ra_input a)\<lparr>ri_token := token\<rparr>;
          dest = (case ra_output a of Some p \<Rightarrow> if p = [] then ToStdout else ToFile p | None \<Rightarrow> ToStdout)
      in case (if ra_render_env a then render_env env_template r else render_compose compose_template r) of
           Inl x \<Rightarrow> Inl x
         | Inr t \<Rightarrow> Inr (t, dest, ra_token a = None))"

section \<open>Filling a template\<close>

text \<open>A template as its author reads it: literal text and holes with blanks around their key.\<close>

datatype segment = Lit string | Hole string string string

fun segment_text :: "segment \<Rightarrow> string" where
  "segment_text (Lit t) = t"
| "segment_text (Hole a k b) = ''{{'' @ a @ k @ b @ ''}}''"

fun segment_ok :: "segment \<Rightarrow> bool" where
  "segment_ok (Lit t) \<longleftrightarrow> CHR ''{'' \<notin> set t"
| "segment_ok (Hole a k b) \<longleftrightarrow> list_all py_ws a \<and> k \<noteq> [] \<and> list_all key_char k \<and> list_all py_ws b"

fun segment_keys :: "segment \<Rightarrow> string set" where
  "segment_keys (Lit t) = {}"
| "segment_keys (Hole a k b) = {k}"

fun segment_value :: "(string \<times> string) list \<Rightarrow> segment \<Rightarrow> string" where
  "segment_value reps (Lit t) = t"
| "segment_value reps (Hole a k b) = the (map_of reps k)"

lemma key_not_blank: "key_char c \<Longrightarrow> \<not> py_ws c"
  by (auto simp: key_char_def py_ws_def Let_def)

lemma brace_chars: "\<not> key_char (CHR ''}'')" "\<not> py_ws (CHR ''}'')"
  by code_simp+

lemma takeWhile_key_blank: "list_all py_ws b \<Longrightarrow> takeWhile key_char (b @ CHR ''}'' # r) = []"
  using key_not_blank brace_chars by (cases b) auto

lemma placeholder_hole:
  assumes "segment_ok (Hole a k b)"
  shows "placeholder (''{{'' @ a @ k @ b @ ''}}'' @ rest) = Some (k, rest)"
proof -
  let ?r = "b @ ''}}'' @ rest"
  have k: "k \<noteq> []" "\<not> py_ws (hd k)" using assms key_not_blank by (cases k; simp)+
  have "dropWhile py_ws (a @ k @ ?r) = dropWhile py_ws (k @ ?r)"
    using assms by (intro dropWhile_append2) (simp add: list_all_iff)
  then have a: "dropWhile py_ws (a @ k @ ?r) = k @ ?r" using k by (cases k) simp_all
  have tk: "takeWhile key_char ?r = []" using takeWhile_key_blank [of b "CHR ''}'' # rest"] assms by simp
  have "takeWhile key_char (k @ ?r) = k @ takeWhile key_char ?r"
    using assms by (intro takeWhile_append2) (simp add: list_all_iff)
  then have t: "takeWhile key_char (k @ ?r) = k" using tk by simp
  have "dropWhile key_char (k @ ?r) = dropWhile key_char ?r"
    using assms by (intro dropWhile_append2) (simp add: list_all_iff)
  also have "\<dots> = ?r" using tk takeWhile_dropWhile_id [of key_char ?r] by simp
  finally have d: "dropWhile key_char (k @ ?r) = ?r" .
  have "dropWhile py_ws ?r = dropWhile py_ws (''}}'' @ rest)"
    using assms by (intro dropWhile_append2) (simp add: list_all_iff)
  then have e: "dropWhile py_ws ?r = ''}}'' @ rest" using brace_chars by simp
  have s: "take 2 (''{{'' @ a @ k @ ?r) = ''{{''" "drop 2 (''{{'' @ a @ k @ ?r) = a @ k @ ?r" by simp_all
  show ?thesis unfolding placeholder_def s a Let_def t d e using k(1) by simp
qed

lemma render_lit:
  "CHR ''{'' \<notin> set t \<Longrightarrow> render_text reps (t @ rest) = map_sum id ((@) t) (render_text reps rest)"
proof (induction t)
  case Nil
  then show ?case by (cases "render_text reps rest") simp_all
next
  case (Cons c t)
  then have "placeholder (c # t @ rest) = None" by (auto simp: placeholder_def)
  then show ?case using Cons by (cases "render_text reps rest") (auto simp: render_text.simps(2))
qed

lemma render_hole:
  assumes "segment_ok (Hole a k b)"
  shows "render_text reps (segment_text (Hole a k b) @ rest) = (case map_of reps k of
     None \<Rightarrow> Inl (render_error k) | Some v \<Rightarrow> map_sum id ((@) v) (render_text reps rest))"
  using placeholder_hole [OF assms, of rest]
  by (cases "render_text reps rest") (auto simp: render_text.simps(2) split: option.split)

text \<open>C30: A template is filled in one pass: every hole is replaced by the value of its key as it stands, so braces
  in a value are never taken for a hole, and all other text stays; a hole whose key has no value raises
  \<open>RenderError\<close> with that key and nothing is produced.\<close>

theorem render_fills_template:
  assumes "list_all segment_ok segs"
  shows "if (\<forall>k \<in> \<Union> (segment_keys ` set segs). map_of reps k \<noteq> None)
    then render_text reps (concat (map segment_text segs)) = Inr (concat (map (segment_value reps) segs))
    else \<exists>k \<in> \<Union> (segment_keys ` set segs). map_of reps k = None \<and>
      render_text reps (concat (map segment_text segs)) = Inl (render_error k)"
  using assms
proof (induction segs)
  case (Cons s segs)
  let ?K = "\<Union> (segment_keys ` set segs)" and ?r = "render_text reps (concat (map segment_text segs))"
  have ih: "(\<forall>k \<in> ?K. map_of reps k \<noteq> None) \<and> ?r = Inr (concat (map (segment_value reps) segs)) \<or>
      (\<exists>k \<in> ?K. map_of reps k = None \<and> ?r = Inl (render_error k))"
    using Cons by (auto split: if_splits)
  show ?case
  proof (cases s)
    case (Lit t)
    then have "render_text reps (concat (map segment_text (s # segs))) = map_sum id ((@) t) ?r"
      using render_lit [of t reps] Cons.prems by simp
    then show ?thesis using ih Lit by (elim disjE) force+
  next
    case (Hole a k b)
    have "render_text reps (concat (map segment_text (s # segs))) = (case map_of reps k of
       None \<Rightarrow> Inl (render_error k) | Some v \<Rightarrow> map_sum id ((@) v) (render_text reps (concat (map segment_text segs))))"
      using render_hole [of a k b reps] Cons.prems Hole by simp
    then show ?thesis using ih Hole by (cases "map_of reps k"; elim disjE) force+
  qed
qed simp

theorem render_fills_template_witness:
  "render_text [(''IMAGE'', ''{{NAME}}''), (''NAME'', ''x'')] ''image: {{ IMAGE }}'' = Inr ''image: {{NAME}}''"
  using render_fills_template [of "[Lit ''image: '', Hole '' '' ''IMAGE'' '' '']" "[(''IMAGE'', ''{{NAME}}''), (''NAME'', ''x'')]"]
  by (simp add: key_char_def py_ws_def)

section \<open>What the renderer accepts and the gateway refuses\<close>

text \<open>C40: The renderer's checks are weaker than the gateway's: for any token of 16 to 31 characters, and for any
  token when the code has 64 characters, a production compose file that renders belongs to a gateway that
  does not start with the default minimum.\<close>

theorem rendered_gateway_refused:
  assumes "render_compose template r = Inr text" and "is_prod (ri_env r)"
    and "s = default_settings\<lparr>cf_code := ri_code r, cf_token := ri_token r, cf_env := ri_env r\<rparr>"
    and "length (ri_token r) < 32 \<or> length (py_strip (ri_code r)) = 64"
  shows "16 \<le> length (ri_token r) \<and> raised (ensure_credentials_allowed s)"
proof (cases "ensure_credentials_allowed s")
  case (Inr u)
  then have c: "ensure_credentials_allowed s = Inr ()" by simp
  have "is_prod (cf_env s)" using assms(2,3) by simp
  note p = credentials_prod [OF c this]
  have "length (py_strip (ri_token r)) \<le> length (ri_token r)"
    by (simp add: py_strip_def py_rstrip_by_def py_lstrip_def)
      (metis length_dropWhile_le length_rev order.trans)
  then have "32 \<le> length (ri_token r)" using p(3) assms(3) by (simp add: default_settings_def)
  moreover have "length (py_strip (ri_code r)) \<le> 63" using p(1) assms(3) by (simp add: code_safe_def)
  ultimately show ?thesis using assms(4) by simp
next
  case (Inl x)
  then show ?thesis using assms(1) by (auto simp: render_compose_def raised_def split: if_splits)
qed

definition sample_render :: render_input where
  "sample_render = \<lparr>ri_code = ''GW-001'', ri_token = ''abcdefgh12345678'', ri_name = ''North'',
     ri_backend_url = ''https://api.example.com/'', ri_nats_url = ''tls://nats:4222'', ri_port = 8020,
     ri_image = ''gw:1'', ri_env = ''production''\<rparr>"

theorem rendered_gateway_refused_witness:
  "raised (ensure_credentials_allowed (default_settings\<lparr>cf_code := ''GW-001'', cf_token := ''abcdefgh12345678'',
     cf_env := ''production''\<rparr>))"
proof -
  have "compose_code_ok ''GW-001''" by code_simp
  then have "render_compose (Some []) sample_render = Inr []" by (simp add: render_compose_def sample_render_def)
  moreover have "is_prod (ri_env sample_render)" by (simp add: sample_render_def is_prod_def sample_texts)
  ultimately show ?thesis
    using rendered_gateway_refused [of "Some []" sample_render "[]", OF _ _ refl] by (simp add: sample_render_def)
qed

end
