(* ===== verification/Spec2Isabelle.thy ===== *)
theory Spec2Isabelle
  imports System Startup Compose_Render Rabbit
begin

text \<open>
  This development models the EnerjiOne DNP3 gateway of \<open>src/src/dnp3_gateway\<close> and the compose renderer
  \<open>src/scripts/render_compose.py\<close>, and proves what makes them correct.

  \<^bold>\<open>The program.\<close> A gateway process polls DNP3 field devices and publishes every changed value to a NATS
  JetStream stream. \<open>main.run\<close> validates settings and identity, loads the configuration cache, starts health
  server, publisher, outbox, retrier, reader and refresh thread, and then turns the service loop: dispatch a
  requested refresh, run a poll cycle over the due devices, record the metrics. The poller reads each device
  through a reader (yadnp3, dnp3py or mock) and hands each reading to the resilient publisher, which tries
  JetStream and falls back to a SQLite outbox; the retrier thread drains the outbox; a circuit breaker stops the
  polling when the outbox refuses. The refresh thread fetches the configuration from the backend and writes
  it to a cache file, from which a later process starts without the backend.

  \<^bold>\<open>Theories and sources.\<close>
  \<^item> \<open>Prelude\<close>, \<open>Py_Values\<close>: exceptions and results (\<open>'a res\<close> is an exception or a value), texts with Python's
    \<open>strip\<close>, \<open>lower\<close>, \<open>in\<close>, \<open>replace\<close>, integers and floats with their parsing, JSON values. Texts are lists of
    characters below U+0100; a float is the rational of its double, an infinity or NaN, and arithmetic rounds
    to 53 bits; clocks and intervals are exact rationals.
  \<^item> \<open>Messaging\<close>: messages and the contracts of a broker and of a message store (locales \<open>broker\<close>,
    \<open>message_store\<close>). \<open>Outbox\<close>: \<open>messaging/outbox.py\<close>, the tables, the open transaction a failed statement
    leaves, the pending counter. \<open>JetStream\<close>: \<open>messaging/jetstream_publisher.py\<close> as a state machine of connection
    callbacks. \<open>Rabbit\<close>: \<open>messaging/rabbit_publisher.py\<close>. \<open>Resilient\<close>: \<open>messaging/resilient_publisher.py\<close> over
    any broker and store (locale \<open>resilient\<close>). \<open>Retrier\<close>: the thread \<open>OutboxRetrier\<close>. \<open>Delivery\<close>: publisher,
    retrier, connection and crashes interleaved call by call.
  \<^item> \<open>Config_Types\<close>, \<open>Config_Parse\<close>: \<open>backend/config_client.py\<close>, the parser of the backend's answer with every
    default and limit, and the bounded fetch. \<open>Gw_State\<close>: \<open>state.py\<close>, the configuration in force, the read
    times, the refresh nonce and the cache file.
  \<^item> \<open>Adapter\<close>: \<open>adapters/base.py\<close> as the locale \<open>telemetry_reader\<close>, and \<open>adapters/mock.py\<close>. \<open>Device_Cache\<close>,
    \<open>Yad_Reader\<close>: \<open>adapters/dnp3_yadnp3_master.py\<close>, the cache of a device with its recovery states and the
    reader over the OpenDNP3 masters. \<open>Dnp3_Session\<close>, \<open>Dnp3_Reads\<close>, \<open>Dnp3_Reader\<close>: \<open>adapters/dnp3_master.py\<close>,
    the read strategies of a session, what they answer, and the reader with its sessions and event caches.
  \<^item> \<open>Poller\<close>: \<open>poller.py\<close> for any reader and publisher (locales \<open>publisher\<close>, \<open>polling\<close>). \<open>Gateway_Cycle\<close>: the
    interpretations for the gateway's readers and publisher, and the properties of a cycle.
  \<^item> \<open>Scrubbing\<close>, \<open>Log_Redaction\<close>: \<open>logging_setup.py\<close>. \<open>Health\<close>: \<open>health_server.py\<close>. \<open>Settings\<close>: \<open>config.py\<close> with
    \<open>urlparse\<close> and the IPv4 half of \<open>ipaddress\<close> (addresses are 32-bit words). \<open>Identity\<close>: \<open>auth/identity.py\<close>,
    \<open>auth/headers.py\<close>, \<open>adapters/factory.py\<close>.
  \<^item> \<open>Service\<close>: of \<open>main.py\<close> the refresh thread, the service loop and the shutdown. \<open>Startup\<close>: \<open>main.run\<close> up to the
    loop, \<open>start_health_server\<close>, and \<open>__main__.py\<close>. \<open>System\<close>: all threads on one state, with restarts.
    \<open>Compose_Render\<close>: \<open>scripts/render_compose.py\<close>.

  \<^bold>\<open>State and operations.\<close> An object is a record of its fields and a method a function from environment,
  arguments and object to result and object; a module keeps the names of the code where HOL allows it. What
  a call gets from outside (clocks, random draws, the network, the database, DNP3 libraries) is an argument:
  \<open>js_reply\<close> and \<open>connect_result\<close> for NATS, \<open>db_fault\<close> for SQLite, \<open>amqp_kind\<close> for pika, \<open>'m dnp3_env\<close> for nfm-dnp3,
  \<open>yad_env\<close> for OpenDNP3, \<open>http_result\<close> for requests, \<open>boot_env\<close> for a start. What the code relies on is a named
  hypothesis: \<open>store_good\<close> (a failing statement leaves no half transaction), \<open>honest_reads\<close> and \<open>only_dnp3_errors\<close>
  (the DNP3 library answers from the device's table and raises its own error), \<open>uuid_like\<close>. A method under
  a lock is one step.

  \<^bold>\<open>What is proved.\<close> Delivery: the outbox refines a queue and is durable, nothing whose publish returned is
  lost or made up under any interleaving and crash, an outage leaves the outbox alone, a healthy broker drains
  it in order, a poison message is buried after its retries, the breaker's states and the latch it can
  get into. Readings: the consumer of a device's changes has its current values, for both readers; direct
  reads by range equal point by point reads; sessions belong to the configured endpoint; every counted event
  is a true one. Configuration: parse and limits, round trips over JSON and the cache file, one refresh per
  request, an unreachable backend changes nothing. Security: log, endpoints, production settings, credentials.
  Process: start, health, shutdown, and in this theory the composition from boot to any later moment.
  Theorems that show defects of the code state what the code does.

  \<^bold>\<open>Loops.\<close> Loops over lists are structural recursion. \<open>fill_chunks\<close>, \<open>replace_ne\<close>, \<open>amqp_sub\<close> and \<open>render_text\<close>
  have measures. The retry counts (two attempts of a poll, two of a chunk) are the code's own. The loops that
  run until the process stops (retrier, refresh thread, service loop) are functions of the list of their turns,
  so a property holds after any number of them; the receive loop of the frame filter is a function of the
  arrivals and is proved to return once the timeout is used up.

  \<^bold>\<open>Not modelled.\<close> The texts of log messages, the console banner and the installation of signal handlers, which only
  print or set the stop event; argparse and the reading of environment files by pydantic; the HTTP server and
  the JSON text of its answers; percent formatting and the layout of log lines; IPv6 addresses (a parameter);
  SQLite, NATS, pika, requests and the two DNP3 libraries beyond the calls above; the threads of the worker
  pool beyond their number, the order in which tasks finish and which of them are late; memory and time as resources;
  the installer scripts in PowerShell. Package files that only re-export have no definitions.
\<close>

section \<open>From boot to any later moment\<close>

definition system_of :: "'r \<Rightarrow> 'm gateway \<Rightarrow> 'r system" where
  "system_of r g = \<lparr>sy_world = \<lparr>wd_state = gw_state_of g, wd_reader = r, wd_pub = gw_pub g\<rparr>,
     sy_retrier = gw_retrier g, sy_refresher = gw_refresher g, sy_ready = gw_ready g, sy_metrics = gw_mx g,
     sy_log = [], sy_past = {}\<rparr>"

definition own_cache :: "cache_file \<Rightarrow> bool" where
  \<comment> \<open>no cache file, or one the gateway wrote for a parsed configuration\<close>
  "own_cache c \<longleftrightarrow> (\<forall>j. c = CacheFile j \<longrightarrow> (\<exists>now g. j = snapshot_json now g \<and> config_ok g))"

lemma booted_system_starts:
  assumes "boot ip6 e s hs reg = Booted g" and "tab_ok (be_disk e)" and "own_cache (be_cache e)"
  shows "sys_start (system_of r g)"
proof -
  obtain gi f hs2 st ready where b: "gateway_start (be_shw e) (cf_cache_hours s) (be_cache e) = Started ready st"
    "start_parts ip6 e s hs2 (register_secrets ip6 (gi_token gi) s reg) gi f st ready = Inr g"
    using boot_parts [OF assms(1)] by metis
  have p: "open_outbox e (cf_max_pending s) = Inr (ps_store (gw_pub g))" "gw_state_of g = st"
    using start_parts_parts [OF b(2)] by metis+
  have "config_fine (state_init True 24 (be_cache e))"
    using assms(3) by (simp add: config_fine_def state_init_def own_cache_def)
  moreover have "st_file (state_init True 24 (be_cache e)) = be_cache e" by (simp add: state_init_def)
  ultimately have fine: "config_fine st" using started_fine b(1) by metis
  have "ps_store (gw_pub g) = outbox_init (be_count e) (cf_max_pending s) (be_disk e)"
    using p(1) by (auto simp: open_outbox_def Let_def split: option.splits sum.splits)
  then have "store_inv (ps_store (gw_pub g))"
    using assms(2) by (simp add: store_inv_def ob_inv_def settled_def outbox_init_def)
  moreover have "mx_published (gw_mx g) = 0"
    using b(2) by (auto simp: start_parts_def and_field_Inr metrics_init_def)
  ultimately show ?thesis using fine p(2) by (simp add: sys_start_def system_of_def)
qed

text \<open>C2: From its start on, whatever its threads do in whatever order, and however often the process is
  restarted on its files: every event the gateway ever counted as published is in the stream, in the outbox
  file or in the dead letters; each is a true reading of a device and a signal within the limits of the
  configuration, with the gateway's own code; the published counter is the number of events of this process;
  and the configuration in force is within its limits.\<close>

theorem gateway_never_loses:
  assumes "boot ip6 env s hs reg = Booted (g :: 'm gateway)" and "gw_reader g = YadAdapter r"
    and "tab_ok (be_disk env)" and "own_cache (be_cache env)"
    and "(sys_step yad_read yad_forget gw mp sec)\<^sup>*\<^sup>* (system_of r g) y"
  shows "norm_msg ` (set (sy_log y) \<union> sy_past y) \<subseteq> js_accepted (ps_broker (wd_pub (sy_world y))) \<union>
      store_held (ps_store (wd_pub (sy_world y))) \<and>
    (\<forall>m \<in> set (sy_log y) \<union> sy_past y. sound_event gw m) \<and>
    mx_published (sy_metrics y) = length (sy_log y) \<and>
    list_all device_ok (st_devices (wd_state (sy_world y))) \<and> list_all signal_ok (st_signals (wd_state (sy_world y)))"
proof -
  have "sys_inv gw y"
    by (rule yad.sys_steps_inv [OF assms(5) sys_start_inv [OF booted_system_starts [OF assms(1,3,4)]]])
  then show ?thesis by (simp add: sys_inv_def dv_inv_def ghost_def config_fine_def)
qed

theorem gateway_never_loses_witness:
  "\<exists>(g :: unit gateway) r y. boot (\<lambda>h. None) sample_boot validated_sample [] [] = Booted g \<and>
     sys_step yad_read yad_forget ''GW1'' 1 30 (system_of r g) y \<and>
     mx_published (sy_metrics y) = length (sy_log y) \<and>
     norm_msg ` set (sy_log y) \<subseteq> js_accepted (ps_broker (wd_pub (sy_world y))) \<union>
       store_held (ps_store (wd_pub (sy_world y)))"
proof -
  obtain g :: "unit gateway" where g: "boot (\<lambda>h. None) sample_boot validated_sample [] [] = Booted g"
    using sample_boot_ok .
  obtain r where r: "gw_reader g = YadAdapter r"
  proof -
    have "build_adapter {''yadnp3''} validated_sample = Inr (gw_reader g)"
      using boot_parts [OF g] start_parts_parts by (metis sample_boot_installed)
    then have "gw_reader g = YadAdapter (yad_init 1 20000 1 60 0)"
      by (simp add: build_adapter_def validated_sample_def sample_settings_def default_settings_def library_text)
    then show ?thesis by (rule that)
  qed
  have d: "tab_ok (be_disk sample_boot)" "own_cache (be_cache sample_boot)"
    using sample_stored_inv by (simp_all add: sample_boot_def store_inv_def ob_inv_def own_cache_def)
  obtain ms w mx where t: "service_turn yad_read yad_forget js_pub_publish rp_outbox_full ''GW1'' 1 sample_turn
      (sy_world (system_of r g), sy_metrics (system_of r g)) = (ms, w, mx)" by (metis prod_cases3)
  let ?y = "after_turn ms w mx (system_of r g)"
  have s: "sys_step yad_read yad_forget ''GW1'' 1 30 (system_of r g) ?y" using sy_poll [OF sample_turn_good t] .
  from gateway_never_loses [OF g r d r_into_rtranclp [of "sys_step yad_read yad_forget ''GW1'' 1 30", OF s]]
  show ?thesis using g s by blast
qed

end
